theory Spec2Isabelle
  imports Complex_Main "HOL-Library.AList"
begin

section \<open>Numbers and strings of the source language\<close>

text \<open>
  The store (\<^verbatim>\<open>src/store/transactionStore.ts\<close>) and the form
  (\<^verbatim>\<open>src/components/TransactionForm.tsx\<close>) compute with JavaScript numbers.
  They are modelled as exact reals: the binary rounding error of IEEE doubles and the
  value NaN are outside the model. \<^verbatim>\<open>Math.round\<close> rounds to the nearest integer,
  ties towards plus infinity. Where a product lies exactly on a half, or two rounded values
  differ by exactly one cent, the binary arithmetic of the program can decide otherwise than
  the exact one; the theorems on rescaled amounts are therefore stated as a whole number of
  cents within half a cent of the exact quotient, for inputs off a half cent.
\<close>

definition Math_round :: "real \<Rightarrow> real" where
  "Math_round x = of_int \<lfloor>x + 1 / 2\<rfloor>"

text \<open>The idiom \<^verbatim>\<open>Math.round(x * 100) / 100\<close> used throughout the store.\<close>

definition round2 :: "real \<Rightarrow> real" where
  "round2 x = Math_round (x * 100) / 100"

text \<open>
  \<^verbatim>\<open>x.toFixed(2)\<close>, as the number \<^verbatim>\<open>parseFloat\<close> reads back from the string:
  the sign is split off and the magnitude is rounded to the nearest cent, ties upwards.
\<close>

definition toFixed2 :: "real \<Rightarrow> real" where
  "toFixed2 x = (if x < 0 then - (of_int \<lfloor>- x * 100 + 1 / 2\<rfloor> / 100)
                 else of_int \<lfloor>x * 100 + 1 / 2\<rfloor> / 100)"

text \<open>\<^verbatim>\<open>Number(x) || 0\<close> on a number: a falsy number (zero) is replaced by 0.\<close>

definition orZero :: "real \<Rightarrow> real" where
  "orZero x = (if x = 0 then 0 else x)"

text \<open>Truthiness of a string, and of an optional string field.\<close>

definition truthy :: "string \<Rightarrow> bool" where
  "truthy s = (s \<noteq> [])"

definition truthyOpt :: "string option \<Rightarrow> bool" where
  "truthyOpt f = (case f of None \<Rightarrow> False | Some s \<Rightarrow> truthy s)"

text \<open>\<^verbatim>\<open>a || b\<close> on strings.\<close>

definition orElse :: "string \<Rightarrow> string \<Rightarrow> string" where
  "orElse a b = (if truthy a then a else b)"

text \<open>
  A string is a list of code units below 256. The white space and line terminators of the
  language in that range are the five controls from tab to carriage return, the space and
  the no-break space; the ones above the range are not values of the type.
\<close>

definition isWhite :: "char \<Rightarrow> bool" where
  "isWhite c =
     (c \<in> set [CHR '' '', CHR 0x09, CHR 0x0A, CHR 0x0B, CHR 0x0C, CHR 0x0D, CHR 0xA0])"

text \<open>\<^verbatim>\<open>String.prototype.trim\<close>.\<close>

definition trim :: "string \<Rightarrow> string" where
  "trim s = rev (dropWhile isWhite (rev (dropWhile isWhite s)))"

section \<open>Data model (\<^verbatim>\<open>src/types/index.ts\<close>)\<close>

datatype TransactionType = income | expense

record TransactionSplit =
  splitUserId :: string
  splitAmount :: real
  splitPercentage :: real

text \<open>
  The fields of a document of the \<^verbatim>\<open>transactions\<close> collection, which are the fields
  of the interface \<^verbatim>\<open>Transaction\<close> without \<^verbatim>\<open>id\<close>, and the two time stamps
  the store writes. An optional field that is absent, \<^verbatim>\<open>undefined\<close> or \<^verbatim>\<open>null\<close>
  is \<open>None\<close>; the optional flag \<^verbatim>\<open>isSplitPortion\<close> is \<open>False\<close> when absent.
  The same record is the argument of \<^verbatim>\<open>addTransaction\<close>, which reads neither the
  time stamps nor the two split-portion fields of its argument.
\<close>

record Transaction =
  amount :: real
  description :: string
  date :: string
  categoryId :: string
  userId :: string
  txType :: TransactionType
  householdId :: "string option"
  splitInfo :: "TransactionSplit list option"
  isSplitPortion :: bool
  mainTransactionId :: "string option"
  createdAt :: "nat option"
  updatedAt :: "nat option"

text \<open>
  The argument \<^verbatim>\<open>data: Partial<Transaction>\<close> of \<^verbatim>\<open>updateTransaction\<close>, with
  the fields that function reads; \<open>None\<close> is \<^verbatim>\<open>undefined\<close>.
\<close>

record TransactionPatch =
  newAmount :: "real option"
  newDescription :: "string option"
  newDate :: "string option"
  newCategoryId :: "string option"
  newType :: "TransactionType option"
  newHouseholdId :: "string option"
  newSplitInfo :: "TransactionSplit list option"

text \<open>
  The object \<^verbatim>\<open>sanitizedData\<close> built by \<^verbatim>\<open>updateTransaction\<close>: a field is
  \<open>None\<close> when it is not set on the object; for the two fields that may be set to
  \<^verbatim>\<open>null\<close> the inner \<open>None\<close> is \<^verbatim>\<open>null\<close>.
\<close>

record SanitizedData =
  sAmount :: "real option"
  sDescription :: "string option"
  sDate :: "string option"
  sCategoryId :: "string option"
  sType :: "TransactionType option"
  sHouseholdId :: "string option option"
  sSplitInfo :: "TransactionSplit list option option"

text \<open>A row of the split editor of the form; the amount string is held as the number
  \<^verbatim>\<open>parseFloat(member.amount) || 0\<close> reads from it.\<close>

record SplitMember =
  memberId :: string
  memberName :: string
  memberAmount :: real
  memberPercentage :: real

text \<open>What the code reads from outside: the client clock
  (\<^verbatim>\<open>new Date().toISOString()\<close>) and the value the server stores for
  \<^verbatim>\<open>serverTimestamp()\<close>.\<close>

record Env =
  clientNow :: string
  serverTime :: nat

section \<open>The persistence service\<close>

text \<open>
  The collection \<^verbatim>\<open>transactions\<close> is a list of documents with their ids, in the
  order a query returns them. Every call to the service succeeds, except
  \<^verbatim>\<open>updateDoc\<close> on a missing document; an unreachable backend is outside the model.
\<close>

type_synonym Collection = "(string \<times> Transaction) list"

definition getDoc :: "Collection \<Rightarrow> string \<Rightarrow> Transaction option" where
  "getDoc ds k = map_of ds k"

primrec maxLen :: "string list \<Rightarrow> nat" where
  "maxLen [] = 0"
| "maxLen (k # ks) = max (length k) (maxLen ks)"

text \<open>The id the service generates for a new document: one no document has yet.\<close>

definition newId :: "Collection \<Rightarrow> string" where
  "newId ds = replicate (Suc (maxLen (map fst ds))) (CHR ''x'')"

definition addDoc :: "Collection \<Rightarrow> Transaction \<Rightarrow> string \<times> Collection" where
  "addDoc ds d = (newId ds, ds @ [(newId ds, d)])"

definition updateDoc ::
  "Collection \<Rightarrow> string \<Rightarrow> (Transaction \<Rightarrow> Transaction) \<Rightarrow> Collection option" where
  "updateDoc ds k f =
     (if k \<in> fst ` set ds
      then Some (map (\<lambda>(k', d). if k' = k then (k', f d) else (k', d)) ds)
      else None)"

definition deleteDoc :: "Collection \<Rightarrow> string \<Rightarrow> Collection" where
  "deleteDoc ds k = filter (\<lambda>(k', d). k' \<noteq> k) ds"

text \<open>The query \<^verbatim>\<open>where('mainTransactionId', '==', id), where('isSplitPortion', '==', true)\<close>.\<close>

definition splitPortionsQuery :: "Collection \<Rightarrow> string \<Rightarrow> Collection" where
  "splitPortionsQuery ds mid =
     filter (\<lambda>(k, d). mainTransactionId d = Some mid \<and> isSplitPortion d) ds"

text \<open>The state of the store that the three operations read and write: the
  database handle, the collection, and the two flags. The in-memory cache of
  transactions is not part of the model.\<close>

record Store =
  dbReady :: bool
  docs :: Collection
  isLoading :: bool
  error :: "string option"

section \<open>Proportional adjustment of the split amounts\<close>

text \<open>
  The block "Validate that split amounts add up to the total amount", which
  \<^verbatim>\<open>addTransaction\<close> contains once and \<^verbatim>\<open>updateTransaction\<close> twice, word for
  word, applied to the transaction amount and the supplied split list.
\<close>

definition totalSplitAmount :: "TransactionSplit list \<Rightarrow> real" where
  "totalSplitAmount sp = foldl (\<lambda>sum split. sum + orZero (splitAmount split)) 0 sp"

definition adjustedSplitInfo :: "real \<Rightarrow> TransactionSplit list \<Rightarrow> TransactionSplit list" where
  "adjustedSplitInfo amt sp =
     (let totalAmount = round2 amt;
          roundedSplitAmount = round2 (totalSplitAmount sp)
      in if \<bar>totalAmount - roundedSplitAmount\<bar> > 1 / 100
         then let ratio = totalAmount / (if roundedSplitAmount = 0 then 1 else roundedSplitAmount)
              in map (\<lambda>split. split\<lparr>splitAmount := round2 (orZero (splitAmount split) * ratio)\<rparr>) sp
         else sp)"

definition sanitizeSplit :: "TransactionSplit \<Rightarrow> TransactionSplit" where
  "sanitizeSplit split =
     \<lparr>splitUserId = splitUserId split,
      splitAmount = orZero (splitAmount split),
      splitPercentage = orZero (splitPercentage split)\<rparr>"

section \<open>\<^verbatim>\<open>addTransaction\<close>\<close>

definition splitList :: "TransactionSplit list option \<Rightarrow> TransactionSplit list" where
  "splitList f = (case f of None \<Rightarrow> [] | Some sp \<Rightarrow> sp)"

text \<open>The object \<^verbatim>\<open>sanitizedTransaction\<close>: the document of the main transaction.
  Its split list is the supplied one, without the entries that have no user id.\<close>

definition sanitizedTransaction :: "Env \<Rightarrow> Transaction \<Rightarrow> Transaction" where
  "sanitizedTransaction e t =
     \<lparr>amount = orZero (amount t),
      description = trim (orElse (description t) []),
      date = orElse (date t) (clientNow e),
      categoryId = orElse (categoryId t) [],
      userId = orElse (userId t) [],
      txType = (if txType t = income then income else expense),
      householdId = (if truthyOpt (householdId t) then householdId t else None),
      splitInfo =
        (if splitList (splitInfo t) \<noteq> []
         then Some (map sanitizeSplit (filter (\<lambda>split. truthy (splitUserId split)) (splitList (splitInfo t))))
         else None),
      isSplitPortion = False,
      mainTransactionId = None,
      createdAt = Some (serverTime e),
      updatedAt = None\<rparr>"

text \<open>The object \<^verbatim>\<open>userTransaction\<close> of \<^verbatim>\<open>addTransaction\<close>: one member's portion.\<close>

definition userTransaction :: "Env \<Rightarrow> Transaction \<Rightarrow> string \<Rightarrow> TransactionSplit \<Rightarrow> Transaction" where
  "userTransaction e t mainId split =
     \<lparr>amount = orZero (splitAmount split),
      description = trim (orElse (description t) []),
      date = orElse (date t) (clientNow e),
      categoryId = orElse (categoryId t) [],
      userId = splitUserId split,
      txType = (if txType t = income then income else expense),
      householdId = householdId t,
      splitInfo = None,
      isSplitPortion = True,
      mainTransactionId = Some mainId,
      createdAt = Some (serverTime e),
      updatedAt = None\<rparr>"

text \<open>
  A failed check throws into the \<^verbatim>\<open>catch\<close> of the operation, which sets the error
  flag and returns. The main document is written first, with the supplied split list;
  the adjusted list only decides the portions. The portions are written in list order.
  The closing \<^verbatim>\<open>fetchTransactions\<close> refreshes the cache and leaves the flags cleared.
\<close>

definition addTransaction :: "Env \<Rightarrow> Transaction \<Rightarrow> Store \<Rightarrow> Store" where
  "addTransaction e t s =
     (if \<not> dbReady s
      then s\<lparr>isLoading := False, error := Some ''Failed to add transaction''\<rparr>
      else if \<not> truthy (userId t)
      then s\<lparr>isLoading := False, error := Some ''Failed to add transaction''\<rparr>
      else if truthyOpt (householdId t) \<and> splitList (splitInfo t) \<noteq> []
      then
        (let (mainTransactionId, ds1) = addDoc (docs s) (sanitizedTransaction e t);
             adjusted = adjustedSplitInfo (amount t) (splitList (splitInfo t));
             qualifying = filter (\<lambda>split. truthy (splitUserId split)
                                    \<and> splitUserId split \<noteq> userId t
                                    \<and> splitAmount split > 0) adjusted;
             ds2 = fold (\<lambda>split ds. snd (addDoc ds (userTransaction e t mainTransactionId split)))
                     qualifying ds1
         in s\<lparr>docs := ds2, isLoading := False, error := None\<rparr>)
      else s\<lparr>docs := snd (addDoc (docs s) (sanitizedTransaction e t)),
              isLoading := False, error := None\<rparr>)"

section \<open>\<^verbatim>\<open>updateTransaction\<close>\<close>

text \<open>\<^verbatim>\<open>data.amount || currentTransaction.amount\<close>.\<close>

definition amountOr :: "TransactionPatch \<Rightarrow> Transaction \<Rightarrow> real" where
  "amountOr data cur =
     (case newAmount data of None \<Rightarrow> amount cur
      | Some a \<Rightarrow> if a = 0 then amount cur else a)"

definition sanitizedData :: "Env \<Rightarrow> TransactionPatch \<Rightarrow> Transaction \<Rightarrow> SanitizedData" where
  "sanitizedData e data cur =
     \<lparr>sAmount = map_option orZero (newAmount data),
      sDescription = map_option (\<lambda>d. trim (orElse d [])) (newDescription data),
      sDate = map_option (\<lambda>d. orElse d (clientNow e)) (newDate data),
      sCategoryId = map_option (\<lambda>c. orElse c []) (newCategoryId data),
      sType = map_option (\<lambda>ty. if ty = income then income else expense) (newType data),
      sHouseholdId =
        (case newHouseholdId data of None \<Rightarrow> None
         | Some h \<Rightarrow> if truthy h then Some (Some h) else Some None),
      sSplitInfo =
        (case newSplitInfo data of None \<Rightarrow> None
         | Some sp \<Rightarrow>
             if sp \<noteq> []
             then Some (Some (map sanitizeSplit (adjustedSplitInfo (amountOr data cur) sp)))
             else Some None)\<rparr>"

text \<open>\<^verbatim>\<open>updateDoc(transactionRef, sanitizedData)\<close>: the fields set on the object
  overwrite those of the document, and the time stamp is always set.\<close>

definition writeSanitized :: "Env \<Rightarrow> SanitizedData \<Rightarrow> Transaction \<Rightarrow> Transaction" where
  "writeSanitized e sd d =
     d\<lparr>amount := (case sAmount sd of None \<Rightarrow> amount d | Some a \<Rightarrow> a),
       description := (case sDescription sd of None \<Rightarrow> description d | Some x \<Rightarrow> x),
       date := (case sDate sd of None \<Rightarrow> date d | Some x \<Rightarrow> x),
       categoryId := (case sCategoryId sd of None \<Rightarrow> categoryId d | Some x \<Rightarrow> x),
       txType := (case sType sd of None \<Rightarrow> txType d | Some x \<Rightarrow> x),
       householdId := (case sHouseholdId sd of None \<Rightarrow> householdId d | Some x \<Rightarrow> x),
       splitInfo := (case sSplitInfo sd of None \<Rightarrow> splitInfo d | Some x \<Rightarrow> x),
       updatedAt := Some (serverTime e)\<rparr>"

definition optString :: "string option \<Rightarrow> string" where
  "optString f = (case f of None \<Rightarrow> [] | Some x \<Rightarrow> x)"

text \<open>The values a portion takes from the main transaction:
  \<^verbatim>\<open>sanitizedData.description || currentTransaction.description || ''\<close> and so on.\<close>

definition portionDescription :: "SanitizedData \<Rightarrow> Transaction \<Rightarrow> string" where
  "portionDescription sd cur = orElse (optString (sDescription sd)) (orElse (description cur) [])"

definition portionDate :: "SanitizedData \<Rightarrow> Transaction \<Rightarrow> string" where
  "portionDate sd cur = orElse (optString (sDate sd)) (date cur)"

definition portionCategoryId :: "SanitizedData \<Rightarrow> Transaction \<Rightarrow> string" where
  "portionCategoryId sd cur = orElse (optString (sCategoryId sd)) (orElse (categoryId cur) [])"

definition portionType :: "SanitizedData \<Rightarrow> Transaction \<Rightarrow> TransactionType" where
  "portionType sd cur = (case sType sd of None \<Rightarrow> txType cur | Some ty \<Rightarrow> ty)"

text \<open>The fields written to an existing portion.\<close>

definition updatePortion ::
  "Env \<Rightarrow> SanitizedData \<Rightarrow> Transaction \<Rightarrow> TransactionSplit \<Rightarrow> Transaction \<Rightarrow> Transaction" where
  "updatePortion e sd cur split p =
     p\<lparr>amount := orZero (splitAmount split),
       description := portionDescription sd cur,
       date := portionDate sd cur,
       categoryId := portionCategoryId sd cur,
       txType := portionType sd cur,
       updatedAt := Some (serverTime e)\<rparr>"

text \<open>The document of a new portion.\<close>

definition newPortion ::
  "Env \<Rightarrow> string \<Rightarrow> SanitizedData \<Rightarrow> Transaction \<Rightarrow> TransactionSplit \<Rightarrow> Transaction" where
  "newPortion e tid sd cur split =
     \<lparr>amount = orZero (splitAmount split),
      description = portionDescription sd cur,
      date = portionDate sd cur,
      categoryId = portionCategoryId sd cur,
      userId = splitUserId split,
      txType = portionType sd cur,
      householdId = householdId cur,
      splitInfo = None,
      isSplitPortion = True,
      mainTransactionId = Some tid,
      createdAt = Some (serverTime e),
      updatedAt = None\<rparr>"

text \<open>
  The \<^verbatim>\<open>Map\<close> from user id to portion built from the query result: a later
  document of the same user replaces the earlier value and keeps its place.
\<close>

type_synonym PortionMap = "(string \<times> (string \<times> Transaction)) list"

definition existingSplitPortions :: "Collection \<Rightarrow> PortionMap" where
  "existingSplitPortions snapshot =
     fold (\<lambda>(k, d) m. if truthy (userId d) then AList.update (userId d) (k, d) m else m)
       snapshot []"

text \<open>
  One callback of \<^verbatim>\<open>splitPromises\<close>. Every callback reads the map before any of
  them removes a key (the removal follows an \<^verbatim>\<open>await\<close>), so the lookup is in the
  map as first built, and the removals are collected in \<open>remaining\<close>. The writes take
  effect in list order. A rejected \<^verbatim>\<open>updateDoc\<close> is caught: nothing is written
  and the key stays.
\<close>

definition portionStep ::
  "Env \<Rightarrow> string \<Rightarrow> SanitizedData \<Rightarrow> Transaction \<Rightarrow> PortionMap \<Rightarrow> TransactionSplit
     \<Rightarrow> Collection \<times> PortionMap \<Rightarrow> Collection \<times> PortionMap" where
  "portionStep e tid sd cur existing split st =
     (case map_of existing (splitUserId split) of
        Some (pid, p) \<Rightarrow>
          (case updateDoc (fst st) pid (updatePortion e sd cur split) of
             Some ds' \<Rightarrow> (ds', AList.delete (splitUserId split) (snd st))
           | None \<Rightarrow> st)
      | None \<Rightarrow> (snd (addDoc (fst st) (newPortion e tid sd cur split)), snd st))"

definition deletePortions :: "PortionMap \<Rightarrow> Collection \<Rightarrow> Collection" where
  "deletePortions remaining ds =
     fold (\<lambda>(u, (pid, p)) ds'. deleteDoc ds' pid)
       (filter (\<lambda>(u, (pid, p)). truthy pid) remaining) ds"

text \<open>The branch "update or create individual transactions" (lines 446 to 558).\<close>

definition reconcileSplitPortions ::
  "Env \<Rightarrow> string \<Rightarrow> TransactionPatch \<Rightarrow> SanitizedData \<Rightarrow> Transaction \<Rightarrow> Collection \<Rightarrow> Collection" where
  "reconcileSplitPortions e tid data sd cur ds =
     (let adjusted = adjustedSplitInfo (amountOr data cur) (splitList (newSplitInfo data));
          existing = existingSplitPortions (splitPortionsQuery ds tid);
          qualifying = filter (\<lambda>split. truthy (splitUserId split)
                                 \<and> splitUserId split \<noteq> userId cur) adjusted;
          (ds', remaining) = fold (portionStep e tid sd cur existing) qualifying (ds, existing)
      in deletePortions remaining ds')"

text \<open>The branch "split info was removed" and the cascade of \<^verbatim>\<open>deleteTransaction\<close>.\<close>

definition deleteAllSplitPortions :: "Collection \<Rightarrow> string \<Rightarrow> Collection" where
  "deleteAllSplitPortions ds tid =
     fold (\<lambda>(k, d) ds'. deleteDoc ds' k) (splitPortionsQuery ds tid) ds"

definition updateTransaction :: "Env \<Rightarrow> string \<Rightarrow> TransactionPatch \<Rightarrow> Store \<Rightarrow> Store" where
  "updateTransaction e tid data s =
     (let failed = s\<lparr>isLoading := False, error := Some ''Failed to update transaction''\<rparr>
      in if \<not> dbReady s then failed
         else if \<not> truthy tid then failed
         else case getDoc (docs s) tid of
                None \<Rightarrow> failed
              | Some cur \<Rightarrow>
                  (let sd = sanitizedData e data cur
                   in case updateDoc (docs s) tid (writeSanitized e sd) of
                        None \<Rightarrow> failed
                      | Some ds1 \<Rightarrow>
                          s\<lparr>docs :=
                               (if truthyOpt (householdId cur) \<and> splitList (newSplitInfo data) \<noteq> []
                                then reconcileSplitPortions e tid data sd cur ds1
                                else if truthyOpt (householdId cur)
                                then deleteAllSplitPortions ds1 tid
                                else ds1),
                            isLoading := False, error := None\<rparr>))"

section \<open>\<^verbatim>\<open>deleteTransaction\<close>\<close>

definition deleteTransaction :: "string \<Rightarrow> Store \<Rightarrow> Store" where
  "deleteTransaction tid s =
     (let failed = s\<lparr>isLoading := False, error := Some ''Failed to delete transaction''\<rparr>
      in if \<not> dbReady s then failed
         else if \<not> truthy tid then failed
         else case getDoc (docs s) tid of
                None \<Rightarrow> failed
              | Some transactionData \<Rightarrow>
                  s\<lparr>docs :=
                       deleteDoc
                         (if truthyOpt (householdId transactionData)
                             \<and> splitList (splitInfo transactionData) \<noteq> []
                          then deleteAllSplitPortions (docs s) tid
                          else docs s) tid,
                    isLoading := False, error := None\<rparr>)"

section \<open>What the caller of an operation receives\<close>

text \<open>
  \<^verbatim>\<open>updateTransaction\<close> and \<^verbatim>\<open>deleteTransaction\<close> are async functions whose
  whole body is one \<^verbatim>\<open>try\<close> block. The first two definitions give the error thrown
  inside that block, if any, with the message of the \<^verbatim>\<open>throw\<close>.
\<close>

datatype Settled = Fulfilled | Rejected string

definition updateTransaction_thrown ::
  "Env \<Rightarrow> string \<Rightarrow> TransactionPatch \<Rightarrow> Store \<Rightarrow> string option" where
  "updateTransaction_thrown e tid data s =
     (if \<not> dbReady s then Some ''Firestore database is not initialized''
      else if \<not> truthy tid then Some ''Transaction ID is required''
      else case getDoc (docs s) tid of
             None \<Rightarrow> Some ''Transaction not found''
           | Some cur \<Rightarrow>
               (case updateDoc (docs s) tid (writeSanitized e (sanitizedData e data cur)) of
                  None \<Rightarrow> Some ''No document to update''
                | Some ds1 \<Rightarrow> None))"

definition deleteTransaction_thrown :: "string \<Rightarrow> Store \<Rightarrow> string option" where
  "deleteTransaction_thrown tid s =
     (if \<not> dbReady s then Some ''Firestore database is not initialized''
      else if \<not> truthy tid then Some ''Transaction ID is required''
      else case getDoc (docs s) tid of
             None \<Rightarrow> Some ''Transaction not found''
           | Some transactionData \<Rightarrow> None)"

text \<open>
  The promise the caller awaits. The \<^verbatim>\<open>catch\<close> block (lines 595 to 598 and 663 to
  666) logs the error, sets the two flags of the store and returns; it does not throw
  again. The promise is therefore fulfilled on both paths, and the error reaches the
  caller only as the \<^verbatim>\<open>error\<close> field of the store.
\<close>

definition updateTransaction_promise ::
  "Env \<Rightarrow> string \<Rightarrow> TransactionPatch \<Rightarrow> Store \<Rightarrow> Settled" where
  "updateTransaction_promise e tid data s =
     (case updateTransaction_thrown e tid data s of
        None \<Rightarrow> Fulfilled
      | Some err \<Rightarrow> Fulfilled)"

definition deleteTransaction_promise :: "string \<Rightarrow> Store \<Rightarrow> Settled" where
  "deleteTransaction_promise tid s =
     (case deleteTransaction_thrown tid s of
        None \<Rightarrow> Fulfilled
      | Some err \<Rightarrow> Fulfilled)"

section \<open>The form: \<^verbatim>\<open>createSplitMembers\<close> and the split list of \<^verbatim>\<open>onSubmit\<close>\<close>

text \<open>\<^verbatim>\<open>householdMembers\<close> is the list of member ids with their display names.\<close>

definition createSplitMembers :: "(string \<times> string) list \<Rightarrow> real \<Rightarrow> SplitMember list" where
  "createSplitMembers householdMembers totalAmount =
     (if householdMembers = [] then []
      else
        (let memberCount = length householdMembers;
             equalAmount = (if memberCount > 0 then toFixed2 (totalAmount / real memberCount) else 0);
             equalPercentage = (if memberCount > 0 then toFixed2 (100 / real memberCount) else 0)
         in map (\<lambda>(mid, name).
                  \<lparr>memberId = mid, memberName = name,
                   memberAmount = equalAmount, memberPercentage = equalPercentage\<rparr>)
              householdMembers))"

text \<open>The block "Process split information" of \<^verbatim>\<open>onSubmit\<close> (lines 268 to 293), for
  a validated amount and a non-empty list of rows.\<close>

definition onSubmit_splitInfo :: "real \<Rightarrow> SplitMember list \<Rightarrow> TransactionSplit list" where
  "onSubmit_splitInfo amt splitMembers =
     (let total = foldl (\<lambda>sum member. sum + orZero (memberAmount member)) 0 splitMembers;
          members =
            (if \<bar>total - amt\<bar> > 1 / 100
             then let ratio = amt / (if total = 0 then 1 else total)
                  in map (\<lambda>member.
                            member\<lparr>memberAmount := toFixed2 (orZero (memberAmount member) * ratio)\<rparr>)
                       splitMembers
             else splitMembers)
      in map (\<lambda>member.
                \<lparr>splitUserId = memberId member,
                 splitAmount = orZero (memberAmount member),
                 splitPercentage = memberPercentage member\<rparr>) members)"

section \<open>Well-formed states\<close>

text \<open>
  A store whose documents have distinct, non-empty ids, in which \<open>tid\<close> is the id of
  the main transaction \<open>cur\<close> of a household: it has a household id and is not itself a
  split portion.
\<close>

definition householdMain :: "Store \<Rightarrow> string \<Rightarrow> Transaction \<Rightarrow> bool" where
  "householdMain s tid cur =
     (dbReady s \<and> truthy tid \<and> distinct (map fst (docs s)) \<and> [] \<notin> set (map fst (docs s))
      \<and> getDoc (docs s) tid = Some cur \<and> truthyOpt (householdId cur) \<and> \<not> isSplitPortion cur)"

section \<open>Cents\<close>

text \<open>A number of whole cents, and a number that lies exactly on a half cent, where
  rounding to cents is a tie.\<close>

definition wholeCents :: "real \<Rightarrow> bool" where
  "wholeCents x = (of_int \<lfloor>x * 100\<rfloor> = x * 100)"

definition onHalfCent :: "real \<Rightarrow> bool" where
  "onHalfCent x = (of_int \<lfloor>x * 100 + 1 / 2\<rfloor> = x * 100 + 1 / 2)"

section \<open>Example data\<close>

text \<open>A household \<open>H\<close> of the owner \<open>O\<close> and the members \<open>A\<close>, \<open>B\<close>, \<open>C\<close>: a main
  transaction of 100 split 40 to 60 between \<open>A\<close> and \<open>B\<close>, with its two portions.\<close>

definition exEnv :: Env where
  "exEnv = \<lparr>clientNow = ''2024-02-01T00:00:00.000Z'', serverTime = 7\<rparr>"

definition exSplit :: "string \<Rightarrow> real \<Rightarrow> real \<Rightarrow> TransactionSplit" where
  "exSplit u a p = \<lparr>splitUserId = u, splitAmount = a, splitPercentage = p\<rparr>"

definition exMain :: Transaction where
  "exMain =
     \<lparr>amount = 100, description = ''Rent'', date = ''2024-01-01T00:00:00.000Z'',
      categoryId = ''c1'', userId = ''O'', txType = expense, householdId = Some ''H'',
      splitInfo = Some [exSplit ''A'' 40 40, exSplit ''B'' 60 60],
      isSplitPortion = False, mainTransactionId = None,
      createdAt = Some 1, updatedAt = None\<rparr>"

definition exPortion :: "string \<Rightarrow> real \<Rightarrow> Transaction" where
  "exPortion u a =
     \<lparr>amount = a, description = ''Rent'', date = ''2024-01-01T00:00:00.000Z'',
      categoryId = ''c1'', userId = u, txType = expense, householdId = Some ''H'',
      splitInfo = None, isSplitPortion = True, mainTransactionId = Some ''m'',
      createdAt = Some 1, updatedAt = None\<rparr>"

definition exStore :: Store where
  "exStore =
     \<lparr>dbReady = True,
      docs = [(''m'', exMain), (''pa'', exPortion ''A'' 40), (''pb'', exPortion ''B'' 60)],
      isLoading = False, error = None\<rparr>"

definition exPatch :: "TransactionSplit list \<Rightarrow> TransactionPatch" where
  "exPatch sp =
     \<lparr>newAmount = None, newDescription = None, newDate = None, newCategoryId = None,
      newType = None, newHouseholdId = None, newSplitInfo = Some sp\<rparr>"

definition exPatchAmount :: "real \<Rightarrow> TransactionSplit list \<Rightarrow> TransactionPatch" where
  "exPatchAmount a sp = (exPatch sp)\<lparr>newAmount := Some a\<rparr>"

text \<open>A new transaction of the owner \<open>O\<close> in the household, with a given amount and split.\<close>

definition exNew :: "real \<Rightarrow> TransactionSplit list \<Rightarrow> Transaction" where
  "exNew a sp = exMain\<lparr>amount := a, splitInfo := Some sp\<rparr>"

definition sixOnes :: "TransactionSplit list" where
  "sixOnes = [exSplit ''A'' 1 (1667 / 100), exSplit ''B'' 1 (1667 / 100), exSplit ''C'' 1 (1667 / 100),
              exSplit ''D'' 1 (1667 / 100), exSplit ''E'' 1 (1667 / 100), exSplit ''F'' 1 (1667 / 100)]"

definition six :: "(string \<times> string) list" where
  "six = [(''u1'', ''You''), (''u2'', ''u2''), (''u3'', ''u3''),
          (''u4'', ''u4''), (''u5'', ''u5''), (''u6'', ''u6'')]"

section \<open>Rounding\<close>

lemma orZero_id: "orZero x = x" by (simp add: orZero_def)

lemma foldl_add_sum: "foldl (\<lambda>acc x. acc + f x) (a::real) xs = a + sum_list (map f xs)"
  by (induction xs arbitrary: a) simp_all

lemma totalSplitAmount_sum: "totalSplitAmount sp = sum_list (map splitAmount sp)"
  by (simp add: totalSplitAmount_def orZero_id foldl_add_sum)

lemma round2_upper: "round2 x - x \<le> 1 / 200"
proof -
  have "of_int \<lfloor>x * 100 + 1 / 2\<rfloor> \<le> x * 100 + 1 / 2" by (rule of_int_floor_le)
  then show ?thesis by (simp add: round2_def Math_round_def field_simps)
qed

lemma round2_lower: "x - round2 x < 1 / 200"
proof -
  have "x * 100 + 1 / 2 < of_int \<lfloor>x * 100 + 1 / 2\<rfloor> + 1" by linarith
  then show ?thesis by (simp add: round2_def Math_round_def field_simps)
qed

lemma round2_abs: "\<bar>round2 x - x\<bar> \<le> 1 / 200"
  using round2_upper[of x] round2_lower[of x] by linarith

lemma toFixed2_nonneg: "0 \<le> x \<Longrightarrow> toFixed2 x = round2 x"
  by (simp add: toFixed2_def round2_def Math_round_def)

lemma wholeCents_of_int: "wholeCents (of_int k / 100)"
  by (simp add: wholeCents_def)

lemma wholeCents_round2: "wholeCents (round2 x)"
  by (simp add: round2_def Math_round_def wholeCents_def)

lemma wholeCents_toFixed2: "wholeCents (toFixed2 x)"
proof (cases "x < 0")
  case True
  have "toFixed2 x = of_int (- \<lfloor>- x * 100 + 1 / 2\<rfloor>) / 100" using True by (simp add: toFixed2_def)
  then show ?thesis by (simp only: wholeCents_of_int)
next
  case False
  then have "toFixed2 x = of_int \<lfloor>x * 100 + 1 / 2\<rfloor> / 100" by (simp add: toFixed2_def)
  then show ?thesis by (simp only: wholeCents_of_int)
qed

lemma toFixed2_abs: "\<bar>toFixed2 x - x\<bar> \<le> 1 / 200"
proof (cases "x < 0")
  case True
  have "toFixed2 x = - round2 (- x)" using True by (simp add: toFixed2_def round2_def Math_round_def)
  moreover have "\<bar>- round2 (- x) - x\<bar> = \<bar>round2 (- x) - (- x)\<bar>" by linarith
  ultimately show ?thesis using round2_abs[of "- x"] by simp
next
  case False
  then have "toFixed2 x = round2 x" by (simp add: toFixed2_nonneg)
  then show ?thesis using round2_abs[of x] by simp
qed

lemma sum_list_round2_bound:
  "\<bar>sum_list (map (\<lambda>x. round2 (f x)) xs) - sum_list (map f xs)\<bar> \<le> real (length xs) / 200"
proof (induction xs)
  case Nil then show ?case by simp
next
  case (Cons a xs)
  have "\<bar>sum_list (map (\<lambda>x. round2 (f x)) (a # xs)) - sum_list (map f (a # xs))\<bar>
        = \<bar>(round2 (f a) - f a) + (sum_list (map (\<lambda>x. round2 (f x)) xs) - sum_list (map f xs))\<bar>"
    by simp
  also have "\<dots> \<le> \<bar>round2 (f a) - f a\<bar> + \<bar>sum_list (map (\<lambda>x. round2 (f x)) xs) - sum_list (map f xs)\<bar>"
    by (rule abs_triangle_ineq)
  also have "\<dots> \<le> 1 / 200 + real (length xs) / 200"
    using round2_abs[of "f a"] Cons.IH by simp
  finally show ?case by (simp add: field_simps)
qed

section \<open>The persistence service: lookups after a write\<close>

lemma map_of_deleteDoc: "map_of (deleteDoc ds k) = (map_of ds)(k := None)"
  by (induction ds) (auto simp: deleteDoc_def)

lemma maxLen_ge: "k \<in> set ks \<Longrightarrow> length k \<le> maxLen ks"
  by (induction ks) auto

lemma newId_fresh: "newId ds \<notin> fst ` set ds"
proof
  assume "newId ds \<in> fst ` set ds"
  then have "newId ds \<in> set (map fst ds)" by simp
  then have "length (newId ds) \<le> maxLen (map fst ds)" by (rule maxLen_ge)
  then show False by (simp add: newId_def)
qed

lemma snd_addDoc: "snd (addDoc ds d) = ds @ [(newId ds, d)]"
  by (simp add: addDoc_def)

lemma keys_addDoc: "fst ` set (snd (addDoc ds d)) = insert (newId ds) (fst ` set ds)"
  by (auto simp: snd_addDoc)

lemma map_of_addDoc: "map_of (snd (addDoc ds d)) = (map_of ds)(newId ds \<mapsto> d)"
proof
  fix k
  have n: "map_of ds (newId ds) = None"
    using newId_fresh[of ds] by (simp add: map_of_eq_None_iff)
  show "map_of (snd (addDoc ds d)) k = ((map_of ds)(newId ds \<mapsto> d)) k"
    by (cases "map_of ds k") (auto simp: snd_addDoc map_add_def n)
qed

lemma distinct_addDoc: "distinct (map fst ds) \<Longrightarrow> distinct (map fst (snd (addDoc ds d)))"
  using newId_fresh[of ds] by (simp add: snd_addDoc)

lemma updateDoc_Some: "k \<in> fst ` set ds \<Longrightarrow> \<exists>ds'. updateDoc ds k f = Some ds'"
  by (simp add: updateDoc_def)

lemma updateDoc_keys: "updateDoc ds k f = Some ds' \<Longrightarrow> map fst ds' = map fst ds"
  by (auto simp: updateDoc_def split: if_splits)

lemma updateDoc_keyset: "updateDoc ds k f = Some ds' \<Longrightarrow> fst ` set ds' = fst ` set ds"
  using updateDoc_keys[of ds k f ds'] by (metis list.set_map)

lemma map_of_map_upd:
  "map_of (map (\<lambda>(k', d). if k' = k then (k', f d) else (k', d)) ds)
     = (map_of ds)(k := map_option f (map_of ds k))"
  by (induction ds) (auto simp: fun_eq_iff)

lemma map_of_updateDoc:
  "updateDoc ds k f = Some ds' \<Longrightarrow> map_of ds' = (map_of ds)(k := map_option f (map_of ds k))"
  by (auto simp: updateDoc_def map_of_map_upd split: if_splits)

lemma keys_deleteDoc: "fst ` set (deleteDoc ds k) = fst ` set ds - {k}"
  by (auto simp: deleteDoc_def image_iff)

lemma distinct_deleteDoc: "distinct (map fst ds) \<Longrightarrow> distinct (map fst (deleteDoc ds k))"
  by (simp add: deleteDoc_def distinct_map_filter)

lemma in_keys_iff: "k \<in> fst ` set ds \<longleftrightarrow> map_of ds k \<noteq> None"
  by (simp add: map_of_eq_None_iff)

subsection \<open>The map of existing portions\<close>

lemma existing_fold_sound:
  "map_of (fold (\<lambda>(k, d) m. if truthy (userId d) then AList.update (userId d) (k, d) m else m) Q m0) u = Some kp
   \<Longrightarrow> (kp \<in> set Q \<and> userId (snd kp) = u \<and> truthy u) \<or> map_of m0 u = Some kp"
proof (induction Q arbitrary: m0)
  case Nil then show ?case by simp
next
  case (Cons a Q)
  obtain k d where a: "a = (k, d)" by (cases a)
  show ?case
  proof (cases "truthy (userId d)")
    case True
    from Cons.prems have "map_of (fold (\<lambda>(k, d) m. if truthy (userId d) then AList.update (userId d) (k, d) m else m) Q
            (AList.update (userId d) (k, d) m0)) u = Some kp"
      by (simp add: a True)
    from Cons.IH[OF this] show ?thesis
      using True by (auto simp: a update_conv' split: if_splits)
  next
    case False
    from Cons.prems have "map_of (fold (\<lambda>(k, d) m. if truthy (userId d) then AList.update (userId d) (k, d) m else m) Q m0) u = Some kp"
      by (simp add: a False)
    from Cons.IH[OF this] show ?thesis by auto
  qed
qed

lemma existing_sound:
  "map_of (existingSplitPortions Q) u = Some (k, p) \<Longrightarrow> (k, p) \<in> set Q \<and> userId p = u \<and> truthy u"
  using existing_fold_sound[of Q "[]" u "(k, p)"] by (simp add: existingSplitPortions_def)

lemma existing_fold_other:
  "u \<notin> (\<lambda>kp. userId (snd kp)) ` set Q \<Longrightarrow>
   map_of (fold (\<lambda>(k, d) m. if truthy (userId d) then AList.update (userId d) (k, d) m else m) Q m0) u = map_of m0 u"
  by (induction Q arbitrary: m0) (auto simp: update_conv')

lemma existing_fold_complete:
  "(k, p) \<in> set Q \<Longrightarrow> distinct (map (\<lambda>kp. userId (snd kp)) Q) \<Longrightarrow> truthy (userId p) \<Longrightarrow>
   map_of (fold (\<lambda>(k, d) m. if truthy (userId d) then AList.update (userId d) (k, d) m else m) Q m0) (userId p) = Some (k, p)"
proof (induction Q arbitrary: m0)
  case Nil then show ?case by simp
next
  case (Cons a Q)
  show ?case
  proof (cases "a = (k, p)")
    case True
    have "userId p \<notin> (\<lambda>kp. userId (snd kp)) ` set Q" using Cons.prems(2) True by auto
    then show ?thesis using Cons.prems(3) by (simp add: True existing_fold_other update_conv')
  next
    case False
    then have "(k, p) \<in> set Q" using Cons.prems(1) by simp
    moreover have "distinct (map (\<lambda>kp. userId (snd kp)) Q)" using Cons.prems(2) by simp
    ultimately show ?thesis using Cons.IH Cons.prems(3) by (cases a) simp
  qed
qed

lemma existing_complete:
  "(k, p) \<in> set Q \<Longrightarrow> distinct (map (\<lambda>kp. userId (snd kp)) Q) \<Longrightarrow> truthy (userId p) \<Longrightarrow>
   map_of (existingSplitPortions Q) (userId p) = Some (k, p)"
  by (simp add: existingSplitPortions_def existing_fold_complete)

lemma existing_None:
  "u \<notin> (\<lambda>kp. userId (snd kp)) ` set Q \<Longrightarrow> map_of (existingSplitPortions Q) u = None"
  by (simp add: existingSplitPortions_def existing_fold_other)

section \<open>The portion writes of a reconciliation\<close>

lemma portionStep_cases:
  obtains (upd) pid p ds' where "map_of ex (splitUserId s) = Some (pid, p)"
      "updateDoc (fst st) pid (updatePortion e sd cur s) = Some ds'"
      "portionStep e tid sd cur ex s st = (ds', AList.delete (splitUserId s) (snd st))"
  | (rej) pid p where "map_of ex (splitUserId s) = Some (pid, p)"
      "updateDoc (fst st) pid (updatePortion e sd cur s) = None"
      "portionStep e tid sd cur ex s st = st"
  | (new) "map_of ex (splitUserId s) = None"
      "portionStep e tid sd cur ex s st = (snd (addDoc (fst st) (newPortion e tid sd cur s)), snd st)"
proof (cases "map_of ex (splitUserId s)")
  case None
  then show ?thesis using new by (simp add: portionStep_def)
next
  case (Some a)
  obtain pid p where a: "a = (pid, p)" by (cases a)
  show ?thesis
  proof (cases "updateDoc (fst st) pid (updatePortion e sd cur s)")
    case None
    then show ?thesis using rej[of pid p] Some a by (simp add: portionStep_def)
  next
    case (Some ds')
    then show ?thesis using upd[of pid p ds'] \<open>map_of ex (splitUserId s) = Some a\<close> a
      by (simp add: portionStep_def)
  qed
qed

lemma portionStep_keys:
  "fst ` set (fst st) \<subseteq> fst ` set (fst (portionStep e tid sd cur ex s st))"
  by (cases rule: portionStep_cases[of ex s st e sd cur tid])
     (auto simp: updateDoc_keyset keys_addDoc)

lemma fold_portionStep_keys:
  "fst ` set (fst st) \<subseteq> fst ` set (fst (fold (portionStep e tid sd cur ex) xs st))"
proof (induction xs arbitrary: st)
  case Nil then show ?case by simp
next
  case (Cons s xs)
  have "fst ` set (fst st) \<subseteq> fst ` set (fst (portionStep e tid sd cur ex s st))"
    by (rule portionStep_keys)
  also have "\<dots> \<subseteq> fst ` set (fst (fold (portionStep e tid sd cur ex) xs (portionStep e tid sd cur ex s st)))"
    by (rule Cons.IH)
  finally show ?case by simp
qed

lemma portionStep_frame:
  assumes "k \<in> fst ` set (fst st)" and "\<forall>p. map_of ex (splitUserId s) \<noteq> Some (k, p)"
  shows "map_of (fst (portionStep e tid sd cur ex s st)) k = map_of (fst st) k"
proof (cases rule: portionStep_cases[of ex s st e sd cur tid])
  case (upd pid p ds')
  then have "pid \<noteq> k" using assms(2) by auto
  then show ?thesis using upd by (simp add: map_of_updateDoc)
next
  case (rej pid p)
  then show ?thesis by simp
next
  case new
  have "newId (fst st) \<noteq> k" using assms(1) newId_fresh[of "fst st"] by auto
  then show ?thesis using new by (simp add: map_of_addDoc)
qed

lemma fold_portionStep_frame:
  assumes "k \<in> fst ` set (fst st)"
    and "\<forall>s \<in> set xs. \<forall>p. map_of ex (splitUserId s) \<noteq> Some (k, p)"
  shows "map_of (fst (fold (portionStep e tid sd cur ex) xs st)) k = map_of (fst st) k"
  using assms
proof (induction xs arbitrary: st)
  case Nil then show ?case by simp
next
  case (Cons s xs)
  let ?st = "portionStep e tid sd cur ex s st"
  have k: "k \<in> fst ` set (fst ?st)" using Cons.prems(1) portionStep_keys[of st e tid sd cur ex s] by blast
  have "map_of (fst (fold (portionStep e tid sd cur ex) xs ?st)) k = map_of (fst ?st) k"
    using Cons.IH[OF k] Cons.prems(2) by simp
  also have "\<dots> = map_of (fst st) k"
    using portionStep_frame[OF Cons.prems(1)] Cons.prems(2) by simp
  finally show ?case by simp
qed

lemma fold_portionStep_update:
  assumes k: "k \<in> fst ` set (fst st)"
    and xs: "xs = xs1 @ s # xs2"
    and s: "map_of ex (splitUserId s) = Some (k, p)"
    and o1: "\<forall>s' \<in> set xs1. \<forall>p'. map_of ex (splitUserId s') \<noteq> Some (k, p')"
    and o2: "\<forall>s' \<in> set xs2. \<forall>p'. map_of ex (splitUserId s') \<noteq> Some (k, p')"
  shows "map_of (fst (fold (portionStep e tid sd cur ex) xs st)) k
           = map_option (updatePortion e sd cur s) (map_of (fst st) k)"
proof -
  let ?f = "portionStep e tid sd cur ex"
  let ?st1 = "fold ?f xs1 st"
  let ?st2 = "?f s ?st1"
  have k1: "k \<in> fst ` set (fst ?st1)" using k fold_portionStep_keys[of st e tid sd cur ex xs1] by blast
  have m1: "map_of (fst ?st1) k = map_of (fst st) k" by (rule fold_portionStep_frame[OF k o1])
  obtain ds' where u: "updateDoc (fst ?st1) k (updatePortion e sd cur s) = Some ds'"
    using updateDoc_Some[OF k1] by blast
  have st2: "?st2 = (ds', AList.delete (splitUserId s) (snd ?st1))"
    using s u by (simp add: portionStep_def)
  have m2: "map_of (fst ?st2) k = map_option (updatePortion e sd cur s) (map_of (fst st) k)"
    by (simp add: st2 map_of_updateDoc[OF u] m1)
  have k2: "k \<in> fst ` set (fst ?st2)" using k1 portionStep_keys[of ?st1 e tid sd cur ex s] by blast
  have "map_of (fst (fold ?f xs2 ?st2)) k = map_of (fst ?st2) k"
    by (rule fold_portionStep_frame[OF k2 o2])
  then show ?thesis by (simp add: xs m2)
qed

lemma fold_portionStep_create:
  assumes xs: "xs = xs1 @ s # xs2"
    and s: "map_of ex (splitUserId s) = None"
    and a: "\<forall>u pid p. map_of ex u = Some (pid, p) \<longrightarrow> pid \<in> fst ` set (fst st)"
  shows "\<exists>k. k \<notin> fst ` set (fst st)
           \<and> map_of (fst (fold (portionStep e tid sd cur ex) xs st)) k = Some (newPortion e tid sd cur s)"
proof -
  let ?f = "portionStep e tid sd cur ex"
  let ?st1 = "fold ?f xs1 st"
  let ?st2 = "?f s ?st1"
  let ?k = "newId (fst ?st1)"
  have sub: "fst ` set (fst st) \<subseteq> fst ` set (fst ?st1)" by (rule fold_portionStep_keys)
  have fresh: "?k \<notin> fst ` set (fst st)" using sub newId_fresh[of "fst ?st1"] by blast
  have st2: "?st2 = (snd (addDoc (fst ?st1) (newPortion e tid sd cur s)), snd ?st1)"
    using s by (simp add: portionStep_def)
  have m2: "map_of (fst ?st2) ?k = Some (newPortion e tid sd cur s)"
    by (simp add: st2 map_of_addDoc)
  have k2: "?k \<in> fst ` set (fst ?st2)" by (simp add: st2 keys_addDoc)
  have o2: "\<forall>s' \<in> set xs2. \<forall>p'. map_of ex (splitUserId s') \<noteq> Some (?k, p')"
    using a fresh by blast
  have "map_of (fst (fold ?f xs2 ?st2)) ?k = map_of (fst ?st2) ?k"
    by (rule fold_portionStep_frame[OF k2 o2])
  then have "map_of (fst (fold ?f xs st)) ?k = Some (newPortion e tid sd cur s)"
    by (simp add: xs m2)
  with fresh show ?thesis by blast
qed

lemma portionStep_remaining_sub: "set (snd (portionStep e tid sd cur ex s st)) \<subseteq> set (snd st)"
  by (cases rule: portionStep_cases[of ex s st e sd cur tid]) (auto simp: AList.delete_eq)

lemma fold_portionStep_remaining_sub:
  "set (snd (fold (portionStep e tid sd cur ex) xs st)) \<subseteq> set (snd st)"
proof (induction xs arbitrary: st)
  case Nil then show ?case by simp
next
  case (Cons s xs)
  have "set (snd (fold (portionStep e tid sd cur ex) xs (portionStep e tid sd cur ex s st)))
          \<subseteq> set (snd (portionStep e tid sd cur ex s st))"
    by (rule Cons.IH)
  also have "\<dots> \<subseteq> set (snd st)" by (rule portionStep_remaining_sub)
  finally show ?case by simp
qed

lemma portionStep_remaining_keep:
  "(u, v) \<in> set (snd st) \<Longrightarrow> u \<noteq> splitUserId s \<Longrightarrow> (u, v) \<in> set (snd (portionStep e tid sd cur ex s st))"
  by (cases rule: portionStep_cases[of ex s st e sd cur tid]) (auto simp: AList.delete_eq)

lemma fold_portionStep_remaining_keep:
  "(u, v) \<in> set (snd st) \<Longrightarrow> u \<notin> splitUserId ` set xs \<Longrightarrow>
   (u, v) \<in> set (snd (fold (portionStep e tid sd cur ex) xs st))"
proof (induction xs arbitrary: st)
  case Nil then show ?case by simp
next
  case (Cons s xs)
  have "(u, v) \<in> set (snd (portionStep e tid sd cur ex s st))"
    using Cons.prems by (intro portionStep_remaining_keep) auto
  then show ?case using Cons.IH Cons.prems(2) by simp
qed

lemma map_of_deletePortions:
  "map_of (deletePortions rem ds) k =
     (if \<exists>u p. (u, (k, p)) \<in> set rem \<and> truthy k then None else map_of ds k)"
proof (induction rem arbitrary: ds)
  case Nil then show ?case by (simp add: deletePortions_def)
next
  case (Cons a rem)
  obtain u pid p where a: "a = (u, (pid, p))" by (cases a) auto
  have step: "deletePortions ((u, (pid, p)) # rem) ds =
      (if truthy pid then deletePortions rem (deleteDoc ds pid) else deletePortions rem ds)"
    by (simp add: deletePortions_def)
  show ?case
    unfolding a step
    using Cons.IH[of "deleteDoc ds pid"] Cons.IH[of ds]
    by (auto simp: map_of_deleteDoc)
qed

lemma portionStep_userId:
  assumes "map_of (fst (portionStep e tid sd cur ex s st)) k = Some x"
  shows "(\<exists>d. map_of (fst st) k = Some d \<and> userId d = userId x)
       \<or> (map_of (fst st) k = None \<and> userId x = splitUserId s)"
proof (cases rule: portionStep_cases[of ex s st e sd cur tid])
  case (upd pid p ds')
  then show ?thesis using assms
    by (auto simp: map_of_updateDoc updatePortion_def split: if_splits)
next
  case (rej pid p)
  then show ?thesis using assms by auto
next
  case new
  have n: "map_of (fst st) (newId (fst st)) = None"
    using newId_fresh[of "fst st"] by (simp add: map_of_eq_None_iff)
  show ?thesis using assms new n
    by (cases "k = newId (fst st)") (auto simp: map_of_addDoc newPortion_def)
qed

lemma fold_portionStep_userId:
  "map_of (fst (fold (portionStep e tid sd cur ex) xs st)) k = Some x \<Longrightarrow>
   (\<exists>d. map_of (fst st) k = Some d \<and> userId d = userId x)
   \<or> (map_of (fst st) k = None \<and> userId x \<in> splitUserId ` set xs)"
proof (induction xs arbitrary: st)
  case Nil then show ?case by simp
next
  case (Cons s xs)
  let ?st = "portionStep e tid sd cur ex s st"
  from Cons.prems have "map_of (fst (fold (portionStep e tid sd cur ex) xs ?st)) k = Some x" by simp
  from Cons.IH[OF this] have
    "(\<exists>d. map_of (fst ?st) k = Some d \<and> userId d = userId x)
      \<or> (map_of (fst ?st) k = None \<and> userId x \<in> splitUserId ` set xs)" .
  then show ?case
  proof (elim disjE exE conjE)
    fix d assume old: "map_of (fst ?st) k = Some d" "userId d = userId x"
    from portionStep_userId[OF old(1)] old(2) show ?thesis by auto
  next
    assume new: "map_of (fst ?st) k = None" "userId x \<in> splitUserId ` set xs"
    have "k \<notin> fst ` set (fst ?st)" using new(1) by (simp add: map_of_eq_None_iff)
    then have "k \<notin> fst ` set (fst st)" using portionStep_keys[of st e tid sd cur ex s] by blast
    then have "map_of (fst st) k = None" by (simp add: map_of_eq_None_iff)
    then show ?thesis using new(2) by simp
  qed
qed

section \<open>A successful update with a split list\<close>

lemma distinct_map_of: "distinct (map fst ds) \<Longrightarrow> (k, d) \<in> set ds \<Longrightarrow> map_of ds k = Some d"
  by simp

lemma existing_fold_distinct:
  "distinct (map fst m0) \<Longrightarrow>
   distinct (map fst (fold (\<lambda>(k, d) m. if truthy (userId d) then AList.update (userId d) (k, d) m else m) Q m0))"
  by (induction Q arbitrary: m0) (auto simp: distinct_update)

lemma existing_distinct: "distinct (map fst (existingSplitPortions Q))"
  by (simp add: existingSplitPortions_def existing_fold_distinct)

lemma existing_set_sound:
  "(u, (k, p)) \<in> set (existingSplitPortions Q) \<Longrightarrow> (k, p) \<in> set Q \<and> userId p = u \<and> truthy u"
  using existing_sound[of Q u k p] existing_distinct[of Q] by simp

lemma query_set:
  "(k, p) \<in> set (splitPortionsQuery ds tid) \<longleftrightarrow>
     (k, p) \<in> set ds \<and> mainTransactionId p = Some tid \<and> isSplitPortion p"
  by (auto simp: splitPortionsQuery_def)

lemma query_distinct: "distinct (map fst ds) \<Longrightarrow> distinct (map fst (splitPortionsQuery ds tid))"
  by (simp add: splitPortionsQuery_def distinct_map_filter)

lemma writeSanitized_portion_fields:
  "isSplitPortion (writeSanitized e sd d) = isSplitPortion d"
  "mainTransactionId (writeSanitized e sd d) = mainTransactionId d"
  "userId (writeSanitized e sd d) = userId d"
  by (simp_all add: writeSanitized_def)

lemma query_after_main_write:
  assumes "distinct (map fst ds)" and "map_of ds tid = Some cur" and "\<not> isSplitPortion cur"
    and "updateDoc ds tid (writeSanitized e sd) = Some ds1"
  shows "splitPortionsQuery ds1 tid = splitPortionsQuery ds tid"
proof -
  let ?g = "\<lambda>(k', d). if k' = tid then (k', writeSanitized e sd d) else (k', d)"
  let ?P = "\<lambda>(k, d). mainTransactionId d = Some tid \<and> isSplitPortion d"
  have ds1: "ds1 = map ?g ds" using assms(4) by (auto simp: updateDoc_def split: if_splits)
  have main: "\<And>k d. (k, d) \<in> set ds \<Longrightarrow> k = tid \<Longrightarrow> d = cur"
    using assms(1,2) by auto
  have "filter ?P (map ?g ds) = map ?g (filter (?P \<circ> ?g) ds)" by (simp add: filter_map)
  also have "filter (?P \<circ> ?g) ds = filter ?P ds"
    by (rule filter_cong) (auto simp: writeSanitized_portion_fields split: if_splits)
  also have "map ?g (filter ?P ds) = filter ?P ds"
    using main assms(3) by (intro map_idI) auto
  finally show ?thesis by (simp add: splitPortionsQuery_def ds1)
qed

lemma adjustedSplitInfo_userIds:
  "map splitUserId (adjustedSplitInfo amt sp) = map splitUserId sp"
  by (simp add: adjustedSplitInfo_def Let_def o_def)

lemma adjustedSplitInfo_percentages:
  "map splitPercentage (adjustedSplitInfo amt sp) = map splitPercentage sp"
  by (simp add: adjustedSplitInfo_def Let_def o_def)

lemma updateTransaction_reconcile:
  assumes "householdMain s tid cur" and "newSplitInfo data = Some sp" and "sp \<noteq> []"
  obtains ds1 where
    "updateDoc (docs s) tid (writeSanitized e (sanitizedData e data cur)) = Some ds1"
    "docs (updateTransaction e tid data s)
       = reconcileSplitPortions e tid data (sanitizedData e data cur) cur ds1"
proof -
  have g: "map_of (docs s) tid = Some cur" using assms(1) by (simp add: householdMain_def getDoc_def)
  then have "tid \<in> fst ` set (docs s)" by (simp add: in_keys_iff)
  then obtain ds1 where u: "updateDoc (docs s) tid (writeSanitized e (sanitizedData e data cur)) = Some ds1"
    using updateDoc_Some by blast
  have "docs (updateTransaction e tid data s)
       = reconcileSplitPortions e tid data (sanitizedData e data cur) cur ds1"
    using assms u by (simp add: updateTransaction_def householdMain_def Let_def splitList_def)
  with u that show ?thesis by blast
qed

lemma reconcile_unfold:
  "reconcileSplitPortions e tid data sd cur ds =
     deletePortions
       (snd (fold (portionStep e tid sd cur (existingSplitPortions (splitPortionsQuery ds tid)))
          (filter (\<lambda>split. truthy (splitUserId split) \<and> splitUserId split \<noteq> userId cur)
             (adjustedSplitInfo (amountOr data cur) (splitList (newSplitInfo data))))
          (ds, existingSplitPortions (splitPortionsQuery ds tid))))
       (fst (fold (portionStep e tid sd cur (existingSplitPortions (splitPortionsQuery ds tid)))
          (filter (\<lambda>split. truthy (splitUserId split) \<and> splitUserId split \<noteq> userId cur)
             (adjustedSplitInfo (amountOr data cur) (splitList (newSplitInfo data))))
          (ds, existingSplitPortions (splitPortionsQuery ds tid))))"
  by (simp add: reconcileSplitPortions_def Let_def split_def)

text \<open>The main document after a successful update that carries a split list.\<close>

lemma updateTransaction_main_doc:
  assumes hm: "householdMain s tid cur" and sp: "newSplitInfo data = Some sp" "sp \<noteq> []"
  shows "getDoc (docs (updateTransaction e tid data s)) tid
           = Some (writeSanitized e (sanitizedData e data cur) cur)"
proof -
  let ?sd = "sanitizedData e data cur"
  obtain ds1 where u: "updateDoc (docs s) tid (writeSanitized e ?sd) = Some ds1"
    and r: "docs (updateTransaction e tid data s) = reconcileSplitPortions e tid data ?sd cur ds1"
    using updateTransaction_reconcile[OF hm sp] by blast
  have dist: "distinct (map fst (docs s))" and cur: "map_of (docs s) tid = Some cur"
    and np: "\<not> isSplitPortion cur"
    using hm by (simp_all add: householdMain_def getDoc_def)
  have dist1: "distinct (map fst ds1)" using dist updateDoc_keys[OF u] by simp
  have m1: "map_of ds1 tid = Some (writeSanitized e ?sd cur)"
    by (simp add: map_of_updateDoc[OF u] cur)
  have k1: "tid \<in> fst ` set (fst (ds1, existingSplitPortions (splitPortionsQuery ds1 tid)))"
    using m1 by (simp add: in_keys_iff)
  let ?ex = "existingSplitPortions (splitPortionsQuery ds1 tid)"
  have notmain: "\<And>u p. map_of ?ex u \<noteq> Some (tid, p)"
  proof
    fix u p assume "map_of ?ex u = Some (tid, p)"
    then have "(tid, p) \<in> set (splitPortionsQuery ds1 tid)" using existing_sound by blast
    then have "(tid, p) \<in> set ds1" "isSplitPortion p" by (simp_all add: query_set)
    then have "p = writeSanitized e ?sd cur" using dist1 m1 by simp
    with \<open>isSplitPortion p\<close> np show False by (simp add: writeSanitized_portion_fields)
  qed
  let ?qs = "filter (\<lambda>split. truthy (splitUserId split) \<and> splitUserId split \<noteq> userId cur)
             (adjustedSplitInfo (amountOr data cur) (splitList (newSplitInfo data)))"
  let ?st = "fold (portionStep e tid ?sd cur ?ex) ?qs (ds1, ?ex)"
  have f: "map_of (fst ?st) tid = map_of ds1 tid"
    using fold_portionStep_frame[OF k1, of ?qs ?ex e tid ?sd cur] notmain by simp
  have nd: "\<not> (\<exists>u p. (u, (tid, p)) \<in> set (snd ?st) \<and> truthy tid)"
  proof
    assume "\<exists>u p. (u, (tid, p)) \<in> set (snd ?st) \<and> truthy tid"
    then obtain u p where "(u, (tid, p)) \<in> set (snd ?st)" by blast
    then have "(u, (tid, p)) \<in> set ?ex"
      using fold_portionStep_remaining_sub[of e tid ?sd cur ?ex ?qs "(ds1, ?ex)"] by auto
    then have "map_of ?ex u = Some (tid, p)" using existing_distinct[of "splitPortionsQuery ds1 tid"] by simp
    then show False using notmain by blast
  qed
  have "map_of (deletePortions (snd ?st) (fst ?st)) tid = map_of (fst ?st) tid"
    by (simp only: map_of_deletePortions nd if_False)
  then have "map_of (docs (updateTransaction e tid data s)) tid = map_of (fst ?st) tid"
    by (simp only: r reconcile_unfold)
  then show ?thesis by (simp only: getDoc_def f m1)
qed

section \<open>The amounts written by an update and by a create\<close>

lemma adjustedSplitInfo_amounts:
  "map splitAmount (adjustedSplitInfo amt sp) =
     (if \<bar>round2 amt - round2 (sum_list (map splitAmount sp))\<bar> > 1 / 100
      then map (\<lambda>split. round2 (splitAmount split *
                 (round2 amt / (if round2 (sum_list (map splitAmount sp)) = 0 then 1
                                else round2 (sum_list (map splitAmount sp)))))) sp
      else map splitAmount sp)"
  by (simp add: adjustedSplitInfo_def Let_def totalSplitAmount_sum orZero_id o_def)

lemma zip_maps: "zip (map f xs) (map g xs) = map (\<lambda>x. (f x, g x)) xs"
  by (induction xs) simp_all

lemma sanitizeSplit_sel:
  "splitAmount (sanitizeSplit x) = splitAmount x"
  "splitPercentage (sanitizeSplit x) = splitPercentage x"
  "splitUserId (sanitizeSplit x) = splitUserId x"
  by (simp_all add: sanitizeSplit_def orZero_id)

lemma sanitizeSplit_fields:
  "map splitAmount (map sanitizeSplit xs) = map splitAmount xs"
  "map splitPercentage (map sanitizeSplit xs) = map splitPercentage xs"
  "map splitUserId (map sanitizeSplit xs) = map splitUserId xs"
  by (simp_all add: sanitizeSplit_def orZero_id o_def)

lemma stored_splitInfo_update:
  assumes "newSplitInfo data = Some sp" and "sp \<noteq> []"
  shows "splitInfo (writeSanitized e (sanitizedData e data cur) cur)
           = Some (map sanitizeSplit (adjustedSplitInfo (amountOr data cur) sp))"
  using assms by (simp add: writeSanitized_def sanitizedData_def)

lemma fold_addDoc:
  "\<exists>zs. fold (\<lambda>x ds. snd (addDoc ds (f x))) xs ds = ds @ zs \<and> map snd zs = map f xs"
proof (induction xs arbitrary: ds)
  case Nil then show ?case by simp
next
  case (Cons x xs)
  obtain zs where "fold (\<lambda>x ds. snd (addDoc ds (f x))) xs (ds @ [(newId ds, f x)]) = (ds @ [(newId ds, f x)]) @ zs"
    "map snd zs = map f xs" using Cons.IH by blast
  then have "fold (\<lambda>x ds. snd (addDoc ds (f x))) (x # xs) ds = ds @ ((newId ds, f x) # zs)
      \<and> map snd ((newId ds, f x) # zs) = map f (x # xs)"
    by (simp add: snd_addDoc)
  then show ?case by blast
qed

lemma addTransaction_split_docs:
  assumes "dbReady s" and "truthy (userId t)" and "truthyOpt (householdId t)"
    and "splitInfo t = Some sp" and "sp \<noteq> []"
  shows "\<exists>zs. docs (addTransaction e t s) = docs s @ (newId (docs s), sanitizedTransaction e t) # zs
           \<and> map snd zs = map (userTransaction e t (newId (docs s)))
                 (filter (\<lambda>split. truthy (splitUserId split) \<and> splitUserId split \<noteq> userId t
                            \<and> splitAmount split > 0)
                    (adjustedSplitInfo (amount t) sp))"
proof -
  let ?qs = "filter (\<lambda>split. truthy (splitUserId split) \<and> splitUserId split \<noteq> userId t
                            \<and> splitAmount split > 0) (adjustedSplitInfo (amount t) sp)"
  let ?ds1 = "docs s @ [(newId (docs s), sanitizedTransaction e t)]"
  obtain zs where z: "fold (\<lambda>x ds. snd (addDoc ds (userTransaction e t (newId (docs s)) x))) ?qs ?ds1 = ?ds1 @ zs"
    "map snd zs = map (userTransaction e t (newId (docs s))) ?qs"
    using fold_addDoc[of "userTransaction e t (newId (docs s))" ?qs ?ds1] by blast
  have "docs (addTransaction e t s) = ?ds1 @ zs"
    using assms z(1) by (simp add: addTransaction_def addDoc_def Let_def splitList_def)
  with z(2) show ?thesis by simp
qed

lemma addTransaction_main_doc:
  assumes "dbReady s" and "truthy (userId t)" and "truthyOpt (householdId t)"
    and "splitInfo t = Some sp" and "sp \<noteq> []"
  shows "getDoc (docs (addTransaction e t s)) (newId (docs s)) = Some (sanitizedTransaction e t)"
proof -
  obtain zs where "docs (addTransaction e t s) = docs s @ (newId (docs s), sanitizedTransaction e t) # zs"
    using addTransaction_split_docs[OF assms] by blast
  moreover have "map_of (docs s) (newId (docs s)) = None"
    using newId_fresh[of "docs s"] by (simp add: map_of_eq_None_iff)
  ultimately show ?thesis by (simp add: getDoc_def map_add_def)
qed

lemma addTransaction_portions:
  assumes "dbReady s" and "truthy (userId t)" and "truthyOpt (householdId t)"
    and "splitInfo t = Some sp" and "sp \<noteq> []"
  shows "map (\<lambda>(k, d). (userId d, amount d)) (drop (Suc (length (docs s))) (docs (addTransaction e t s)))
       = filter (\<lambda>(u, a). truthy u \<and> u \<noteq> userId t \<and> a > 0)
           (zip (map splitUserId sp) (map splitAmount (adjustedSplitInfo (amount t) sp)))"
proof -
  let ?P = "\<lambda>split. truthy (splitUserId split) \<and> splitUserId split \<noteq> userId t \<and> splitAmount split > 0"
  let ?adj = "adjustedSplitInfo (amount t) sp"
  obtain zs where d: "docs (addTransaction e t s) = docs s @ (newId (docs s), sanitizedTransaction e t) # zs"
    and z: "map snd zs = map (userTransaction e t (newId (docs s))) (filter ?P ?adj)"
    using addTransaction_split_docs[OF assms] by blast
  have "map (\<lambda>(k, d). (userId d, amount d)) zs = map (\<lambda>d. (userId d, amount d)) (map snd zs)"
    by (simp add: split_def)
  also have "\<dots> = map (\<lambda>split. (splitUserId split, splitAmount split)) (filter ?P ?adj)"
    by (simp add: z userTransaction_def orZero_id)
  also have "\<dots> = filter (\<lambda>(u, a). truthy u \<and> u \<noteq> userId t \<and> a > 0)
                     (map (\<lambda>split. (splitUserId split, splitAmount split)) ?adj)"
    by (simp add: filter_map o_def)
  also have "map (\<lambda>split. (splitUserId split, splitAmount split)) ?adj
             = zip (map splitUserId ?adj) (map splitAmount ?adj)"
    by (simp add: zip_maps)
  finally show ?thesis by (simp add: d adjustedSplitInfo_userIds)
qed

lemma update_stored_amounts:
  assumes "householdMain s tid cur" and "newSplitInfo data = Some sp" and "sp \<noteq> []"
  shows "map_option (\<lambda>d. map splitAmount (splitList (splitInfo d)))
           (getDoc (docs (updateTransaction e tid data s)) tid)
         = Some (map splitAmount (adjustedSplitInfo (amountOr data cur) sp))"
  by (simp add: updateTransaction_main_doc[OF assms] stored_splitInfo_update[OF assms(2,3)]
        splitList_def sanitizeSplit_sel)

text \<open>The adjusted amounts: unchanged for equal rounded values, within half a cent of the
  exact quotient when the rounded values are two cents or more apart.\<close>

lemma adjusted_unchanged:
  "round2 amt = round2 (sum_list (map splitAmount sp)) \<Longrightarrow>
   map splitAmount (adjustedSplitInfo amt sp) = map splitAmount sp"
  by (simp add: adjustedSplitInfo_amounts)

lemma adjusted_within_half_cent:
  assumes "2 / 100 \<le> \<bar>round2 amt - round2 (sum_list (map splitAmount sp))\<bar>"
    and "round2 (sum_list (map splitAmount sp)) \<noteq> 0"
  shows "list_all2 (\<lambda>a x. wholeCents a
            \<and> \<bar>a - x * round2 amt / round2 (sum_list (map splitAmount sp))\<bar> \<le> 1 / 200)
           (map splitAmount (adjustedSplitInfo amt sp)) (map splitAmount sp)"
proof -
  let ?T = "round2 amt" and ?R = "round2 (sum_list (map splitAmount sp))"
  have a: "map splitAmount (adjustedSplitInfo amt sp)
      = map (\<lambda>split. round2 (splitAmount split * (?T / ?R))) sp"
    using assms by (simp add: adjustedSplitInfo_amounts)
  show ?thesis
    unfolding a list_all2_map1 list_all2_map2 list_all2_same
  proof (intro ballI conjI)
    fix x show "wholeCents (round2 (splitAmount x * (?T / ?R)))" by (rule wholeCents_round2)
  next
    fix x show "\<bar>round2 (splitAmount x * (?T / ?R)) - splitAmount x * ?T / ?R\<bar> \<le> 1 / 200"
      using round2_abs[of "splitAmount x * (?T / ?R)"] by simp
  qed
qed

lemma adjusted_divisor_one:
  assumes "1 / 100 < \<bar>round2 amt\<bar>" and "round2 (sum_list (map splitAmount sp)) = 0"
  shows "list_all2 (\<lambda>a x. wholeCents a \<and> \<bar>a - x * round2 amt\<bar> \<le> 1 / 200)
           (map splitAmount (adjustedSplitInfo amt sp)) (map splitAmount sp)"
proof -
  have a: "map splitAmount (adjustedSplitInfo amt sp)
      = map (\<lambda>split. round2 (splitAmount split * round2 amt)) sp"
    using assms by (simp add: adjustedSplitInfo_amounts)
  show ?thesis
    unfolding a list_all2_map1 list_all2_map2 list_all2_same
  proof (intro ballI conjI)
    fix x show "wholeCents (round2 (splitAmount x * round2 amt))" by (rule wholeCents_round2)
  next
    fix x show "\<bar>round2 (splitAmount x * round2 amt) - splitAmount x * round2 amt\<bar> \<le> 1 / 200"
      by (rule round2_abs)
  qed
qed

section \<open>Evaluation of the examples\<close>

lemmas ex_defs = exEnv_def exSplit_def exMain_def exPortion_def exStore_def exPatch_def
  exPatchAmount_def exNew_def sixOnes_def

lemmas op_defs = updateTransaction_def addTransaction_def deleteTransaction_def getDoc_def
  updateDoc_def addDoc_def newId_def deleteDoc_def splitPortionsQuery_def
  sanitizedData_def sanitizedTransaction_def userTransaction_def writeSanitized_def
  truthy_def truthyOpt_def orElse_def optString_def trim_def isWhite_def splitList_def
  reconcileSplitPortions_def deleteAllSplitPortions_def adjustedSplitInfo_def amountOr_def
  totalSplitAmount_def round2_def Math_round_def orZero_def existingSplitPortions_def
  portionStep_def deletePortions_def updatePortion_def newPortion_def sanitizeSplit_def
  portionDescription_def portionDate_def portionCategoryId_def portionType_def Let_def

lemma exStore_householdMain: "householdMain exStore ''m'' exMain"
  by (simp add: householdMain_def ex_defs truthy_def truthyOpt_def getDoc_def)

section \<open>Percentages\<close>

lemma update_stored_percentages:
  assumes "householdMain s tid cur" and "newSplitInfo data = Some sp" and "sp \<noteq> []"
  shows "map_option (\<lambda>d. map splitPercentage (splitList (splitInfo d)))
           (getDoc (docs (updateTransaction e tid data s)) tid)
         = Some (map splitPercentage sp)"
proof -
  have "map splitPercentage (map sanitizeSplit (adjustedSplitInfo (amountOr data cur) sp))
        = map splitPercentage sp"
    by (simp only: sanitizeSplit_fields adjustedSplitInfo_percentages)
  then show ?thesis
    by (simp add: updateTransaction_main_doc[OF assms] stored_splitInfo_update[OF assms(2,3)]
        splitList_def)
qed

lemma onSubmit_percentages:
  "map splitPercentage (onSubmit_splitInfo amt ms) = map memberPercentage ms"
  by (simp add: onSubmit_splitInfo_def Let_def o_def)

text \<open>
  Claim C6, amended. \<^verbatim>\<open>updateTransaction\<close>, \<^verbatim>\<open>addTransaction\<close> and the
  form's \<^verbatim>\<open>onSubmit\<close> store every member's percentage as it was supplied (for
  \<^verbatim>\<open>addTransaction\<close>, of the entries that have a user id); no percentage is recomputed
  from the rescaled amounts.
\<close>

theorem percentages_pass_through:
  assumes "sp \<noteq> []"
    and "householdMain s tid cur" and "newSplitInfo data = Some sp"
    and "dbReady s2" and "truthy (userId t)" and "truthyOpt (householdId t)" and "splitInfo t = Some sp"
  shows "map_option (\<lambda>d. map splitPercentage (splitList (splitInfo d)))
           (getDoc (docs (updateTransaction e tid data s)) tid)
         = Some (map splitPercentage sp)
       \<and> map_option (\<lambda>d. map splitPercentage (splitList (splitInfo d)))
           (getDoc (docs (addTransaction e t s2)) (newId (docs s2)))
         = Some (map splitPercentage (filter (\<lambda>split. truthy (splitUserId split)) sp))
       \<and> map splitPercentage (onSubmit_splitInfo amt ms) = map memberPercentage ms"
proof -
  have "splitInfo (sanitizedTransaction e t)
          = Some (map sanitizeSplit (filter (\<lambda>split. truthy (splitUserId split)) sp))"
    using assms(1,7) by (simp add: sanitizedTransaction_def splitList_def)
  then have "map_option (\<lambda>d. map splitPercentage (splitList (splitInfo d)))
           (getDoc (docs (addTransaction e t s2)) (newId (docs s2)))
         = Some (map splitPercentage (filter (\<lambda>split. truthy (splitUserId split)) sp))"
    by (simp add: addTransaction_main_doc[OF assms(4-7) assms(1)] splitList_def sanitizeSplit_sel)
  then show ?thesis
    by (simp only: update_stored_percentages[OF assms(2,3,1)] onSubmit_percentages simp_thms)
qed

theorem percentages_pass_through_witness:
  "[exSplit ''A'' 1 (3333 / 100), exSplit ''B'' 2 (6667 / 100)] \<noteq> []
   \<and> householdMain exStore ''m'' exMain
   \<and> newSplitInfo (exPatchAmount 10 [exSplit ''A'' 1 (3333 / 100), exSplit ''B'' 2 (6667 / 100)])
       = Some [exSplit ''A'' 1 (3333 / 100), exSplit ''B'' 2 (6667 / 100)]
   \<and> dbReady exStore
   \<and> truthy (userId (exNew 10 [exSplit ''A'' 1 (3333 / 100), exSplit ''B'' 2 (6667 / 100)]))
   \<and> truthyOpt (householdId (exNew 10 [exSplit ''A'' 1 (3333 / 100), exSplit ''B'' 2 (6667 / 100)]))
   \<and> splitInfo (exNew 10 [exSplit ''A'' 1 (3333 / 100), exSplit ''B'' 2 (6667 / 100)])
       = Some [exSplit ''A'' 1 (3333 / 100), exSplit ''B'' 2 (6667 / 100)]
   \<and> map_option (\<lambda>d. map splitPercentage (splitList (splitInfo d)))
        (getDoc (docs (updateTransaction exEnv ''m''
           (exPatchAmount 10 [exSplit ''A'' 1 (3333 / 100), exSplit ''B'' 2 (6667 / 100)]) exStore)) ''m'')
      = Some [3333 / 100, 6667 / 100]
   \<and> map_option (\<lambda>d. map splitPercentage (splitList (splitInfo d)))
        (getDoc (docs (addTransaction exEnv
           (exNew 10 [exSplit ''A'' 1 (3333 / 100), exSplit ''B'' 2 (6667 / 100)]) exStore)) (newId (docs exStore)))
      = Some [3333 / 100, 6667 / 100]
   \<and> map splitPercentage (onSubmit_splitInfo 10
        [\<lparr>memberId = ''A'', memberName = ''A'', memberAmount = 1, memberPercentage = 3333 / 100\<rparr>,
         \<lparr>memberId = ''B'', memberName = ''B'', memberAmount = 2, memberPercentage = 6667 / 100\<rparr>])
      = [3333 / 100, 6667 / 100]"
proof -
  let ?sp = "[exSplit ''A'' 1 (3333 / 100), exSplit ''B'' 2 (6667 / 100)]"
  have h: "?sp \<noteq> []" "householdMain exStore ''m'' exMain"
    "newSplitInfo (exPatchAmount 10 ?sp) = Some ?sp"
    "dbReady exStore" "truthy (userId (exNew 10 ?sp))"
    "truthyOpt (householdId (exNew 10 ?sp))"
    "splitInfo (exNew 10 ?sp) = Some ?sp"
    by (simp_all add: exStore_householdMain)
       (simp_all add: ex_defs truthy_def truthyOpt_def)
  show ?thesis
    using h percentages_pass_through[OF h, where e = exEnv and amt = 10 and ms =
        "[\<lparr>memberId = ''A'', memberName = ''A'', memberAmount = 1, memberPercentage = 3333 / 100\<rparr>,
          \<lparr>memberId = ''B'', memberName = ''B'', memberAmount = 2, memberPercentage = 6667 / 100\<rparr>]"]
    by (simp add: exSplit_def truthy_def)
qed

text \<open>
  The claim as stated fails: for a total of 10 and the shares 1 and 2 with the percentages
  33.33 and 66.67 the form computes, the amounts are rescaled to 3.33 and 6.67 and the
  stored percentages stay 33.33 and 66.67, where the claim's formula gives 33.3 and 66.7.
\<close>

theorem percentages_counterexample:
  "map_option (\<lambda>d. map splitPercentage (splitList (splitInfo d)))
        (getDoc (docs (updateTransaction exEnv ''m''
           (exPatchAmount 10 [exSplit ''A'' 1 (3333 / 100), exSplit ''B'' 2 (6667 / 100)]) exStore)) ''m'')
      \<noteq> map_option (\<lambda>d. map (\<lambda>split. round2 (splitAmount split / amount d * 100))
                           (splitList (splitInfo d)))
        (getDoc (docs (updateTransaction exEnv ''m''
           (exPatchAmount 10 [exSplit ''A'' 1 (3333 / 100), exSplit ''B'' 2 (6667 / 100)]) exStore)) ''m'')
   \<and> map_option (\<lambda>d. map splitPercentage (splitList (splitInfo d)))
        (getDoc (docs (updateTransaction exEnv ''m''
           (exPatchAmount 10 [exSplit ''A'' 1 (3333 / 100), exSplit ''B'' 2 (6667 / 100)]) exStore)) ''m'')
      = Some [3333 / 100, 6667 / 100]
   \<and> map_option (\<lambda>d. map (\<lambda>split. round2 (splitAmount split / 10 * 100)) (splitList (splitInfo d)))
        (getDoc (docs (updateTransaction exEnv ''m''
           (exPatchAmount 10 [exSplit ''A'' 1 (3333 / 100), exSplit ''B'' 2 (6667 / 100)]) exStore)) ''m'')
      = Some [333 / 10, 667 / 10]
   \<and> map_option amount
        (getDoc (docs (updateTransaction exEnv ''m''
           (exPatchAmount 10 [exSplit ''A'' 1 (3333 / 100), exSplit ''B'' 2 (6667 / 100)]) exStore)) ''m'')
      = Some 10"
proof -
  let ?sp = "[exSplit ''A'' 1 (3333 / 100), exSplit ''B'' 2 (6667 / 100)]"
  have n: "newSplitInfo (exPatchAmount 10 ?sp) = Some ?sp" "?sp \<noteq> []" by (simp_all add: ex_defs)
  have d: "getDoc (docs (updateTransaction exEnv ''m'' (exPatchAmount 10 ?sp) exStore)) ''m''
      = Some (writeSanitized exEnv (sanitizedData exEnv (exPatchAmount 10 ?sp) exMain) exMain)"
    by (rule updateTransaction_main_doc[OF exStore_householdMain n])
  show ?thesis
    unfolding d
    by (simp add: ex_defs writeSanitized_def sanitizedData_def adjustedSplitInfo_def
        totalSplitAmount_def amountOr_def orZero_def round2_def Math_round_def sanitizeSplit_def
        splitList_def Let_def)
qed

section \<open>The sum of the stored split amounts\<close>

lemma sum_list_scale: "sum_list (map (\<lambda>x. f x * (c::real)) xs) = sum_list (map f xs) * c"
  by (induction xs) (simp_all add: distrib_right)

text \<open>
  Claim C1, amended. For a household main transaction as persisted by a successful
  \<^verbatim>\<open>updateTransaction\<close> with a non-empty split list of \<open>N\<close> shares, whose supplied
  amounts sum to a whole number of cents other than 0 (and whose supplied amount, if any, is
  not 0), the amounts stored in the document's split list sum to within
  \<open>max 0.01 (0.005 * N)\<close> of the transaction's amount rounded to cents: within one cent
  for at most two shares.
\<close>

theorem update_split_sum_bound:
  assumes "householdMain s tid cur" and "newSplitInfo data = Some sp" and "sp \<noteq> []"
    and "newAmount data \<noteq> Some 0"
    and "round2 (sum_list (map splitAmount sp)) = sum_list (map splitAmount sp)"
    and "sum_list (map splitAmount sp) \<noteq> 0"
  shows "\<exists>d st. getDoc (docs (updateTransaction e tid data s)) tid = Some d
           \<and> splitInfo d = Some st \<and> length st = length sp
           \<and> \<bar>sum_list (map splitAmount st) - round2 (amount d)\<bar>
                \<le> max (1 / 100) (real (length sp) / 200)"
proof -
  let ?sd = "sanitizedData e data cur"
  let ?d = "writeSanitized e ?sd cur"
  let ?T = "round2 (amountOr data cur)"
  let ?S = "sum_list (map splitAmount sp)"
  let ?adj = "adjustedSplitInfo (amountOr data cur) sp"
  let ?st = "map sanitizeSplit ?adj"
  have d: "getDoc (docs (updateTransaction e tid data s)) tid = Some ?d"
    by (rule updateTransaction_main_doc[OF assms(1-3)])
  have st: "splitInfo ?d = Some ?st" by (rule stored_splitInfo_update[OF assms(2,3)])
  have len: "length ?st = length sp"
    using arg_cong[OF adjustedSplitInfo_userIds[of "amountOr data cur" sp], of length] by simp
  have am: "amount ?d = amountOr data cur"
    using assms(4) by (cases "newAmount data") (simp_all add: writeSanitized_def sanitizedData_def amountOr_def orZero_id)
  have amounts: "map splitAmount ?st = map splitAmount ?adj" by (rule sanitizeSplit_fields)
  have bound: "\<bar>sum_list (map splitAmount ?adj) - ?T\<bar> \<le> max (1 / 100) (real (length sp) / 200)"
  proof (cases "\<bar>?T - round2 ?S\<bar> > 1 / 100")
    case False
    then have "map splitAmount ?adj = map splitAmount sp" by (simp add: adjustedSplitInfo_amounts)
    then have "\<bar>sum_list (map splitAmount ?adj) - ?T\<bar> = \<bar>?T - round2 ?S\<bar>"
      using assms(5) by (simp add: abs_minus_commute)
    moreover have "\<bar>?T - round2 ?S\<bar> \<le> 1 / 100" using False by simp
    ultimately show ?thesis by (simp only: max.coboundedI1)
  next
    case True
    then have a: "map splitAmount ?adj = map (\<lambda>split. round2 (splitAmount split * (?T / ?S))) sp"
      using assms(5,6) by (simp add: adjustedSplitInfo_amounts)
    have "sum_list (map (\<lambda>split. splitAmount split * (?T / ?S)) sp) = ?S * (?T / ?S)"
      by (rule sum_list_scale)
    also have "\<dots> = ?T" using assms(6) by simp
    finally have e: "sum_list (map (\<lambda>split. splitAmount split * (?T / ?S)) sp) = ?T" .
    have "\<bar>sum_list (map (\<lambda>split. round2 (splitAmount split * (?T / ?S))) sp)
            - sum_list (map (\<lambda>split. splitAmount split * (?T / ?S)) sp)\<bar> \<le> real (length sp) / 200"
      by (rule sum_list_round2_bound)
    then have "\<bar>sum_list (map splitAmount ?adj) - ?T\<bar> \<le> real (length sp) / 200"
      by (simp only: a e)
    then show ?thesis by (simp only: max.coboundedI2)
  qed
  have "\<bar>sum_list (map splitAmount ?st) - round2 (amount ?d)\<bar>
          \<le> max (1 / 100) (real (length sp) / 200)"
    using bound by (simp only: amounts am)
  with d st len show ?thesis by blast
qed

theorem update_split_sum_bound_witness:
  "householdMain exStore ''m'' exMain
   \<and> newSplitInfo (exPatch [exSplit ''A'' 30 50, exSplit ''B'' 30 50])
        = Some [exSplit ''A'' 30 50, exSplit ''B'' 30 50]
   \<and> [exSplit ''A'' 30 50, exSplit ''B'' 30 50] \<noteq> []
   \<and> newAmount (exPatch [exSplit ''A'' 30 50, exSplit ''B'' 30 50]) \<noteq> Some 0
   \<and> round2 (sum_list (map splitAmount [exSplit ''A'' 30 50, exSplit ''B'' 30 50]))
        = sum_list (map splitAmount [exSplit ''A'' 30 50, exSplit ''B'' 30 50])
   \<and> sum_list (map splitAmount [exSplit ''A'' 30 50, exSplit ''B'' 30 50]) \<noteq> 0
   \<and> (\<exists>d st. getDoc (docs (updateTransaction exEnv ''m''
                  (exPatch [exSplit ''A'' 30 50, exSplit ''B'' 30 50]) exStore)) ''m'' = Some d
           \<and> splitInfo d = Some st \<and> length st = 2
           \<and> \<bar>sum_list (map splitAmount st) - round2 (amount d)\<bar> \<le> 1 / 100)"
proof -
  let ?sp = "[exSplit ''A'' 30 50, exSplit ''B'' 30 50]"
  have h: "householdMain exStore ''m'' exMain" "newSplitInfo (exPatch ?sp) = Some ?sp" "?sp \<noteq> []"
    "newAmount (exPatch ?sp) \<noteq> Some 0"
    "round2 (sum_list (map splitAmount ?sp)) = sum_list (map splitAmount ?sp)"
    "sum_list (map splitAmount ?sp) \<noteq> 0"
    by (simp_all add: exStore_householdMain)
       (simp_all add: ex_defs round2_def Math_round_def)
  show ?thesis
    using h update_split_sum_bound[OF h, of exEnv] by (simp add: numeral_2_eq_2)
qed

lemma stored_sum_eval:
  assumes "newSplitInfo data = Some sp" and "sp \<noteq> []"
  shows "map_option (\<lambda>d. \<bar>sum_list (map splitAmount (splitList (splitInfo d))) - amount d\<bar> \<le> 1 / 100)
     (getDoc (docs (updateTransaction exEnv ''m'' data exStore)) ''m'')
   = Some (\<bar>sum_list (map splitAmount (adjustedSplitInfo (amountOr data exMain) sp))
            - (case newAmount data of None \<Rightarrow> 100 | Some a \<Rightarrow> a)\<bar> \<le> 1 / 100)"
proof -
  have d: "getDoc (docs (updateTransaction exEnv ''m'' data exStore)) ''m''
      = Some (writeSanitized exEnv (sanitizedData exEnv data exMain) exMain)"
    by (rule updateTransaction_main_doc[OF exStore_householdMain assms])
  have a: "amount (writeSanitized exEnv (sanitizedData exEnv data exMain) exMain)
      = (case newAmount data of None \<Rightarrow> 100 | Some a \<Rightarrow> a)"
    by (cases "newAmount data") (simp_all add: writeSanitized_def sanitizedData_def orZero_id exMain_def)
  show ?thesis
    by (simp add: d stored_splitInfo_update[OF assms] splitList_def sanitizeSplit_sel a o_def)
qed

text \<open>
  The claim as stated fails, in the example store whose main transaction has the amount
  100. On update: six shares of 1 each are rescaled to 16.67 each, and the stored amounts
  sum to 100.02; a single share of 0.006, whose sum rounds to 0.01, is rescaled to 60; two
  shares of 0 stay 0; and with a supplied amount of 0 the shares are rescaled to the current
  amount 100 while the stored amount is 0. On create, the main document is written with the
  supplied amounts, before any rescaling: the shares 30 and 30 of a total of 100 are stored
  as they are.
\<close>

theorem split_sum_counterexample:
  "map_option (\<lambda>d. \<bar>sum_list (map splitAmount (splitList (splitInfo d))) - amount d\<bar> \<le> 1 / 100)
     (getDoc (docs (updateTransaction exEnv ''m'' (exPatch sixOnes) exStore)) ''m'') = Some False
   \<and> map_option (\<lambda>d. \<bar>sum_list (map splitAmount (splitList (splitInfo d))) - amount d\<bar> \<le> 1 / 100)
     (getDoc (docs (updateTransaction exEnv ''m'' (exPatch [exSplit ''B'' (6 / 1000) 100]) exStore)) ''m'')
       = Some False
   \<and> map_option (\<lambda>d. \<bar>sum_list (map splitAmount (splitList (splitInfo d))) - amount d\<bar> \<le> 1 / 100)
     (getDoc (docs (updateTransaction exEnv ''m'' (exPatch [exSplit ''A'' 0 0, exSplit ''B'' 0 0]) exStore)) ''m'')
       = Some False
   \<and> map_option (\<lambda>d. \<bar>sum_list (map splitAmount (splitList (splitInfo d))) - amount d\<bar> \<le> 1 / 100)
     (getDoc (docs (updateTransaction exEnv ''m''
        (exPatchAmount 0 [exSplit ''A'' 30 50, exSplit ''B'' 30 50]) exStore)) ''m'') = Some False
   \<and> map_option (\<lambda>d. \<bar>sum_list (map splitAmount (splitList (splitInfo d))) - amount d\<bar> \<le> 1 / 100)
     (getDoc (docs (addTransaction exEnv (exNew 100 [exSplit ''A'' 30 50, exSplit ''B'' 30 50]) exStore))
        (newId (docs exStore))) = Some False"
proof -
  let ?sp = "[exSplit ''A'' 30 50, exSplit ''B'' 30 50]"
  have u1: "map_option (\<lambda>d. \<bar>sum_list (map splitAmount (splitList (splitInfo d))) - amount d\<bar> \<le> 1 / 100)
     (getDoc (docs (updateTransaction exEnv ''m'' (exPatch sixOnes) exStore)) ''m'') = Some False"
    by (subst stored_sum_eval[of _ sixOnes])
       (simp_all add: ex_defs adjustedSplitInfo_amounts amountOr_def round2_def Math_round_def)
  have u2: "map_option (\<lambda>d. \<bar>sum_list (map splitAmount (splitList (splitInfo d))) - amount d\<bar> \<le> 1 / 100)
     (getDoc (docs (updateTransaction exEnv ''m'' (exPatch [exSplit ''B'' (6 / 1000) 100]) exStore)) ''m'')
       = Some False"
    by (subst stored_sum_eval[of _ "[exSplit ''B'' (6 / 1000) 100]"])
       (simp_all add: ex_defs adjustedSplitInfo_amounts amountOr_def round2_def Math_round_def)
  have u3: "map_option (\<lambda>d. \<bar>sum_list (map splitAmount (splitList (splitInfo d))) - amount d\<bar> \<le> 1 / 100)
     (getDoc (docs (updateTransaction exEnv ''m'' (exPatch [exSplit ''A'' 0 0, exSplit ''B'' 0 0]) exStore)) ''m'')
       = Some False"
    by (subst stored_sum_eval[of _ "[exSplit ''A'' 0 0, exSplit ''B'' 0 0]"])
       (simp_all add: ex_defs adjustedSplitInfo_amounts amountOr_def round2_def Math_round_def)
  have u4: "map_option (\<lambda>d. \<bar>sum_list (map splitAmount (splitList (splitInfo d))) - amount d\<bar> \<le> 1 / 100)
     (getDoc (docs (updateTransaction exEnv ''m'' (exPatchAmount 0 ?sp) exStore)) ''m'') = Some False"
    by (subst stored_sum_eval[of _ ?sp])
       (simp_all add: ex_defs adjustedSplitInfo_amounts amountOr_def round2_def Math_round_def)
  have a: "dbReady exStore" "truthy (userId (exNew 100 ?sp))" "truthyOpt (householdId (exNew 100 ?sp))"
    "splitInfo (exNew 100 ?sp) = Some ?sp" "?sp \<noteq> []"
    by (simp_all add: ex_defs truthy_def truthyOpt_def)
  have d2: "getDoc (docs (addTransaction exEnv (exNew 100 ?sp) exStore)) (newId (docs exStore))
      = Some (sanitizedTransaction exEnv (exNew 100 ?sp))"
    by (rule addTransaction_main_doc[OF a])
  have v: "\<not> \<bar>sum_list (map splitAmount (splitList (splitInfo (sanitizedTransaction exEnv (exNew 100 ?sp)))))
        - amount (sanitizedTransaction exEnv (exNew 100 ?sp))\<bar> \<le> 1 / 100"
    by (simp add: ex_defs sanitizedTransaction_def orZero_def sanitizeSplit_def truthy_def
        splitList_def)
  have u5: "map_option (\<lambda>d. \<bar>sum_list (map splitAmount (splitList (splitInfo d))) - amount d\<bar> \<le> 1 / 100)
     (getDoc (docs (addTransaction exEnv (exNew 100 ?sp) exStore)) (newId (docs exStore))) = Some False"
    unfolding d2 using v by simp
  from u1 u2 u3 u4 u5 show ?thesis by (intro conjI)
qed

section \<open>Non-positive shares on update\<close>

text \<open>
  Claim C5 holds for \<^verbatim>\<open>addTransaction\<close>, whose filter has \<^verbatim>\<open>split.amount > 0\<close>, and
  fails for \<^verbatim>\<open>updateTransaction\<close>, whose filter lacks it. In the example store, an
  update with the shares 100 for \<open>B\<close> and 0 for \<open>C\<close> creates a portion of amount 0 for
  \<open>C\<close>; creating a transaction with the same shares writes a portion for \<open>B\<close> only.
\<close>

theorem update_creates_zero_portion:
  "map (\<lambda>(k, d). (k, userId d, amount d, isSplitPortion d))
     (docs (updateTransaction exEnv ''m'' (exPatch [exSplit ''B'' 100 100, exSplit ''C'' 0 0]) exStore))
     = [(''m'', ''O'', 100, False), (''pb'', ''B'', 100, True), (''xxx'', ''C'', 0, True)]
   \<and> map (\<lambda>(k, d). (k, userId d, amount d, isSplitPortion d))
     (docs (addTransaction exEnv (exNew 100 [exSplit ''B'' 100 100, exSplit ''C'' 0 0]) exStore))
     = [(''m'', ''O'', 100, False), (''pa'', ''A'', 40, True), (''pb'', ''B'', 60, True),
        (''xxx'', ''O'', 100, False), (''xxxx'', ''B'', 100, True)]"
  by (simp add: ex_defs op_defs)

section \<open>The owner has no portion\<close>

lemma map_of_deleteAllSplitPortions:
  "map_of (deleteAllSplitPortions ds tid) k =
     (if k \<in> fst ` set (splitPortionsQuery ds tid) then None else map_of ds k)"
proof -
  have "\<And>ds'. map_of (fold (\<lambda>(k, d) ds'. deleteDoc ds' k) Q ds') k =
     (if k \<in> fst ` set Q then None else map_of ds' k)" for Q :: Collection
  proof (induction Q)
    case Nil then show ?case by simp
  next
    case (Cons a Q)
    show ?case using Cons[of "deleteDoc ds' (fst a)"]
      by (cases a) (auto simp: map_of_deleteDoc)
  qed
  then show ?thesis by (simp add: deleteAllSplitPortions_def)
qed

lemma addTransaction_failed:
  "\<not> dbReady s \<or> \<not> truthy (userId t) \<Longrightarrow> docs (addTransaction e t s) = docs s"
  by (auto simp: addTransaction_def)

lemma addTransaction_plain:
  "dbReady s \<Longrightarrow> truthy (userId t)
   \<Longrightarrow> \<not> (truthyOpt (householdId t) \<and> splitList (splitInfo t) \<noteq> [])
   \<Longrightarrow> docs (addTransaction e t s) = docs s @ [(newId (docs s), sanitizedTransaction e t)]"
  by (auto simp: addTransaction_def addDoc_def)

lemma splitList_nonempty: "splitList f \<noteq> [] \<Longrightarrow> \<exists>sp. f = Some sp \<and> sp \<noteq> []"
  by (cases f) (simp_all add: splitList_def)

lemma updateTransaction_failed:
  "\<not> dbReady s \<or> \<not> truthy tid \<Longrightarrow> docs (updateTransaction e tid data s) = docs s"
  by (auto simp: updateTransaction_def Let_def)

lemma updateTransaction_ok:
  "dbReady s \<Longrightarrow> truthy tid \<Longrightarrow> getDoc (docs s) tid = Some cur
   \<Longrightarrow> updateDoc (docs s) tid (writeSanitized e (sanitizedData e data cur)) = Some ds1
   \<Longrightarrow> docs (updateTransaction e tid data s) =
         (if truthyOpt (householdId cur) \<and> splitList (newSplitInfo data) \<noteq> []
          then reconcileSplitPortions e tid data (sanitizedData e data cur) cur ds1
          else if truthyOpt (householdId cur) then deleteAllSplitPortions ds1 tid else ds1)"
  by (simp add: updateTransaction_def Let_def)

lemma addTransaction_new_docs:
  assumes "getDoc (docs (addTransaction e t s)) k = Some d" and "getDoc (docs s) k \<noteq> Some d"
    and "isSplitPortion d"
  shows "userId d \<noteq> userId t"
proof -
  let ?P = "\<lambda>split. truthy (splitUserId split) \<and> splitUserId split \<noteq> userId t \<and> splitAmount split > 0"
  have main: "\<not> isSplitPortion (sanitizedTransaction e t)" by (simp add: sanitizedTransaction_def)
  have tail: "userId d \<noteq> userId t"
    if d: "docs (addTransaction e t s) = docs s @ (newId (docs s), sanitizedTransaction e t) # zs"
      and z: "\<forall>x \<in> set zs. userId (snd x) \<noteq> userId t" for zs
  proof -
    have "map_of (docs s @ (newId (docs s), sanitizedTransaction e t) # zs) k = Some d"
      using assms(1) by (simp only: getDoc_def d)
    moreover have "map_of (docs s) k \<noteq> Some d" using assms(2) by (simp add: getDoc_def)
    ultimately have "map_of ((newId (docs s), sanitizedTransaction e t) # zs) k = Some d"
      by (cases "map_of (docs s) k") (simp_all add: map_add_def)
    then have "(k, d) \<in> set ((newId (docs s), sanitizedTransaction e t) # zs)" by (rule map_of_SomeD)
    then have "d = sanitizedTransaction e t \<or> (k, d) \<in> set zs" by auto
    then have "(k, d) \<in> set zs" using assms(3) main by auto
    then show ?thesis using z by auto
  qed
  show ?thesis
  proof (cases "dbReady s \<and> truthy (userId t)")
    case False
    then have "docs (addTransaction e t s) = docs s" using addTransaction_failed by blast
    then show ?thesis using assms(1,2) by simp
  next
    case True
    show ?thesis
    proof (cases "truthyOpt (householdId t) \<and> splitList (splitInfo t) \<noteq> []")
      case False
      have "docs (addTransaction e t s) = docs s @ (newId (docs s), sanitizedTransaction e t) # []"
        using addTransaction_plain[OF _ _ False, of s e] True by simp
      then show ?thesis by (rule tail) simp
    next
      case hs: True
      then obtain sp where sp: "splitInfo t = Some sp" "sp \<noteq> []"
        using splitList_nonempty by blast
      obtain zs where d: "docs (addTransaction e t s) = docs s @ (newId (docs s), sanitizedTransaction e t) # zs"
        and z: "map snd zs = map (userTransaction e t (newId (docs s)))
                 (filter ?P (adjustedSplitInfo (amount t) sp))"
        using addTransaction_split_docs[of s t sp e, OF conjunct1[OF True] conjunct2[OF True] conjunct1[OF hs] sp]
        by blast
      have "\<forall>x \<in> set zs. userId (snd x) \<noteq> userId t"
      proof
        fix x assume "x \<in> set zs"
        then have "snd x \<in> set (map snd zs)" by simp
        then obtain split where "?P split" "snd x = userTransaction e t (newId (docs s)) split"
          unfolding z by auto
        then show "userId (snd x) \<noteq> userId t" by (simp add: userTransaction_def)
      qed
      with d show ?thesis by (rule tail)
    qed
  qed
qed

lemma reconcile_changed_docs:
  assumes dist: "distinct (map fst ds1)"
    and new: "map_of (reconcileSplitPortions e tid data sd cur ds1) k = Some d"
    and old: "map_of ds1 k \<noteq> Some d"
  shows "userId d \<noteq> userId cur"
proof -
  let ?ex = "existingSplitPortions (splitPortionsQuery ds1 tid)"
  let ?qs = "filter (\<lambda>split. truthy (splitUserId split) \<and> splitUserId split \<noteq> userId cur)
             (adjustedSplitInfo (amountOr data cur) (splitList (newSplitInfo data)))"
  let ?st = "fold (portionStep e tid sd cur ?ex) ?qs (ds1, ?ex)"
  have qs: "\<And>split. split \<in> set ?qs \<Longrightarrow> splitUserId split \<noteq> userId cur" by simp
  have "map_of (deletePortions (snd ?st) (fst ?st)) k = Some d"
    using new by (simp only: reconcile_unfold)
  then have m: "map_of (fst ?st) k = Some d"
    by (simp add: map_of_deletePortions split: if_splits)
  from fold_portionStep_userId[OF m]
  have "(\<exists>d0. map_of ds1 k = Some d0 \<and> userId d0 = userId d)
      \<or> (map_of ds1 k = None \<and> userId d \<in> splitUserId ` set ?qs)" by simp
  then show ?thesis
  proof (elim disjE exE conjE)
    fix d0 assume d0: "map_of ds1 k = Some d0" "userId d0 = userId d"
    have k: "k \<in> fst ` set (fst (ds1, ?ex))" using d0(1) by (simp add: in_keys_iff)
    have "map_of (fst ?st) k \<noteq> map_of (fst (ds1, ?ex)) k" using m old by simp
    then have "\<not> (\<forall>s \<in> set ?qs. \<forall>p. map_of ?ex (splitUserId s) \<noteq> Some (k, p))"
      using fold_portionStep_frame[OF k, of ?qs ?ex e tid sd cur] by blast
    then obtain split p where s: "split \<in> set ?qs" "map_of ?ex (splitUserId split) = Some (k, p)"
      by blast
    from existing_sound[OF s(2)] have "(k, p) \<in> set ds1" "userId p = splitUserId split"
      by (simp_all add: query_set)
    then have "d0 = p" using dist d0(1) by simp
    then show ?thesis using d0(2) \<open>userId p = splitUserId split\<close> qs[OF s(1)] by simp
  next
    assume "userId d \<in> splitUserId ` set ?qs"
    then obtain split where sp: "split \<in> set ?qs" and eq: "userId d = splitUserId split"
      by (rule imageE)
    show ?thesis using qs[OF sp] by (simp only: eq not_False_eq_True)
  qed
qed

lemma updateTransaction_changed_docs:
  assumes dist: "distinct (map fst (docs s))" and cur: "getDoc (docs s) tid = Some cur"
    and k: "k \<noteq> tid"
    and new: "getDoc (docs (updateTransaction e tid data s)) k = Some d"
    and old: "getDoc (docs s) k \<noteq> Some d"
  shows "userId d \<noteq> userId cur"
proof -
  let ?sd = "sanitizedData e data cur"
  have c: "map_of (docs s) tid = Some cur" using cur by (simp add: getDoc_def)
  then have "tid \<in> fst ` set (docs s)" by (simp add: in_keys_iff)
  then obtain ds1 where u: "updateDoc (docs s) tid (writeSanitized e ?sd) = Some ds1"
    using updateDoc_Some by blast
  have dist1: "distinct (map fst ds1)" using dist updateDoc_keys[OF u] by simp
  have m1: "map_of ds1 k = map_of (docs s) k" using k by (simp add: map_of_updateDoc[OF u])
  have rec: "userId d \<noteq> userId cur"
    if "docs (updateTransaction e tid data s) = reconcileSplitPortions e tid data ?sd cur ds1"
  proof -
    have "map_of (reconcileSplitPortions e tid data ?sd cur ds1) k = Some d"
      using new by (simp only: getDoc_def that)
    moreover have "map_of ds1 k \<noteq> Some d" using old by (simp add: getDoc_def m1)
    ultimately show ?thesis by (rule reconcile_changed_docs[OF dist1])
  qed
  have del: "userId d \<noteq> userId cur"
    if "docs (updateTransaction e tid data s) = deleteAllSplitPortions ds1 tid"
  proof -
    have "map_of (deleteAllSplitPortions ds1 tid) k = Some d" using new by (simp only: getDoc_def that)
    then have "map_of ds1 k = Some d"
      by (simp add: map_of_deleteAllSplitPortions split: if_splits)
    then show ?thesis using old by (simp add: getDoc_def m1)
  qed
  have plain: "userId d \<noteq> userId cur" if "docs (updateTransaction e tid data s) = ds1"
    using new old by (simp add: getDoc_def m1 that)
  show ?thesis
  proof (cases "dbReady s \<and> truthy tid")
    case False
    then have "docs (updateTransaction e tid data s) = docs s" using updateTransaction_failed by blast
    then show ?thesis using new old by simp
  next
    case True
    then have ok: "docs (updateTransaction e tid data s) =
         (if truthyOpt (householdId cur) \<and> splitList (newSplitInfo data) \<noteq> []
          then reconcileSplitPortions e tid data ?sd cur ds1
          else if truthyOpt (householdId cur) then deleteAllSplitPortions ds1 tid else ds1)"
      using updateTransaction_ok[OF _ _ cur u] by blast
    show ?thesis
    proof (cases "truthyOpt (householdId cur) \<and> splitList (newSplitInfo data) \<noteq> []")
      case True
      then show ?thesis using ok rec by simp
    next
      case False
      then show ?thesis using ok del plain by (cases "truthyOpt (householdId cur)") simp_all
    qed
  qed
qed

text \<open>
  Claim C4. \<^verbatim>\<open>addTransaction\<close> creates no split-portion document for the owner of
  the transaction: every split-portion document the collection holds afterwards and did not
  hold before belongs to another user. \<^verbatim>\<open>updateTransaction\<close> neither creates nor
  updates a document of the owner, the main document apart: every document other than the
  main one that is new or changed afterwards belongs to another user. The owner's share
  amount plays no part.
\<close>

theorem owner_never_gets_portion:
  assumes "distinct (map fst (docs s))" and "getDoc (docs s) tid = Some cur"
  shows "(\<forall>k d. getDoc (docs (addTransaction e t s2)) k = Some d \<and> getDoc (docs s2) k \<noteq> Some d
              \<and> isSplitPortion d \<longrightarrow> userId d \<noteq> userId t)
       \<and> (\<forall>k d. k \<noteq> tid \<and> getDoc (docs (updateTransaction e tid data s)) k = Some d
              \<and> getDoc (docs s) k \<noteq> Some d \<longrightarrow> userId d \<noteq> userId cur)"
proof (intro conjI allI impI)
  fix k d
  assume "getDoc (docs (addTransaction e t s2)) k = Some d \<and> getDoc (docs s2) k \<noteq> Some d
              \<and> isSplitPortion d"
  then show "userId d \<noteq> userId t" using addTransaction_new_docs[of e t s2 k d] by blast
next
  fix k d
  assume "k \<noteq> tid \<and> getDoc (docs (updateTransaction e tid data s)) k = Some d
              \<and> getDoc (docs s) k \<noteq> Some d"
  then show "userId d \<noteq> userId cur"
    using updateTransaction_changed_docs[OF assms, of k e data d] by blast
qed

theorem owner_never_gets_portion_witness:
  "distinct (map fst (docs exStore)) \<and> getDoc (docs exStore) ''m'' = Some exMain
   \<and> getDoc (docs (addTransaction exEnv (exNew 100 [exSplit ''O'' 50 50, exSplit ''B'' 50 50]) exStore)) ''xxxx''
       = Some ((exPortion ''B'' 50)\<lparr>mainTransactionId := Some ''xxx'', createdAt := Some 7\<rparr>)
   \<and> userId ((exPortion ''B'' 50)\<lparr>mainTransactionId := Some ''xxx'', createdAt := Some 7\<rparr>) \<noteq> userId (exNew 100 [exSplit ''O'' 50 50, exSplit ''B'' 50 50])
   \<and> map (\<lambda>(k, d). (k, userId d)) (docs (addTransaction exEnv (exNew 100 [exSplit ''O'' 50 50, exSplit ''B'' 50 50]) exStore))
       = [(''m'', ''O''), (''pa'', ''A''), (''pb'', ''B''), (''xxx'', ''O''), (''xxxx'', ''B'')]
   \<and> getDoc (docs (updateTransaction exEnv ''m'' (exPatch [exSplit ''O'' 50 50, exSplit ''B'' 50 50]) exStore)) ''pb''
       = Some ((exPortion ''B'' 50)\<lparr>updatedAt := Some 7\<rparr>)
   \<and> userId ((exPortion ''B'' 50)\<lparr>updatedAt := Some 7\<rparr>) \<noteq> userId exMain
   \<and> map (\<lambda>(k, d). (k, userId d)) (docs (updateTransaction exEnv ''m'' (exPatch [exSplit ''O'' 50 50, exSplit ''B'' 50 50]) exStore))
       = [(''m'', ''O''), (''pb'', ''B'')]"
proof -
  let ?sp = "[exSplit ''O'' 50 50, exSplit ''B'' 50 50]"
  let ?d1 = "(exPortion ''B'' 50)\<lparr>mainTransactionId := Some ''xxx'', createdAt := Some 7\<rparr>"
  let ?d2 = "(exPortion ''B'' 50)\<lparr>updatedAt := Some 7\<rparr>"
  have h: "distinct (map fst (docs exStore))" "getDoc (docs exStore) ''m'' = Some exMain"
    by (simp_all add: ex_defs getDoc_def)
  have a1: "getDoc (docs (addTransaction exEnv (exNew 100 ?sp) exStore)) ''xxxx'' = Some ?d1"
    by (simp add: ex_defs op_defs)
  have a2: "getDoc (docs exStore) ''xxxx'' \<noteq> Some ?d1" "isSplitPortion ?d1"
    by (simp_all add: ex_defs getDoc_def)
  have a3: "map (\<lambda>(k, d). (k, userId d)) (docs (addTransaction exEnv (exNew 100 ?sp) exStore))
       = [(''m'', ''O''), (''pa'', ''A''), (''pb'', ''B''), (''xxx'', ''O''), (''xxxx'', ''B'')]"
    by (simp add: ex_defs op_defs)
  have u1: "getDoc (docs (updateTransaction exEnv ''m'' (exPatch ?sp) exStore)) ''pb'' = Some ?d2"
    by (simp add: ex_defs op_defs)
  have u2: "getDoc (docs exStore) ''pb'' \<noteq> Some ?d2" "''pb'' \<noteq> ''m''"
    by (simp_all add: ex_defs getDoc_def)
  have u3: "map (\<lambda>(k, d). (k, userId d)) (docs (updateTransaction exEnv ''m'' (exPatch ?sp) exStore))
       = [(''m'', ''O''), (''pb'', ''B'')]"
    by (simp add: ex_defs op_defs)
  note t = owner_never_gets_portion[OF h, of exEnv "exNew 100 ?sp" exStore "exPatch ?sp"]
  have r1: "userId ?d1 \<noteq> userId (exNew 100 ?sp)"
    using t[THEN conjunct1, rule_format, of "''xxxx''" ?d1] a1 a2 by blast
  have r2: "userId ?d2 \<noteq> userId exMain"
    using t[THEN conjunct2, rule_format, of "''pb''" ?d2] u1 u2 by blast
  from h a1 r1 a3 u1 r2 u3 show ?thesis by (intro conjI)
qed

section \<open>Reconciliation of the portions on update\<close>

lemma fold_portionStep_removed:
  assumes "s \<in> set xs" and "map_of ex (splitUserId s) = Some (k, p)"
    and "\<forall>u pid p. map_of ex u = Some (pid, p) \<longrightarrow> pid \<in> fst ` set (fst st)"
  shows "splitUserId s \<notin> fst ` set (snd (fold (portionStep e tid sd cur ex) xs st))"
  using assms
proof (induction xs arbitrary: st)
  case Nil then show ?case by simp
next
  case (Cons a xs)
  let ?st1 = "portionStep e tid sd cur ex a st"
  have A1: "\<forall>u pid p. map_of ex u = Some (pid, p) \<longrightarrow> pid \<in> fst ` set (fst ?st1)"
    using Cons.prems(3) portionStep_keys[of st e tid sd cur ex a] by blast
  show ?case
  proof (cases "s \<in> set xs")
    case True
    then show ?thesis using Cons.IH[OF True Cons.prems(2) A1] by simp
  next
    case False
    then have a: "a = s" using Cons.prems(1) by simp
    have "k \<in> fst ` set (fst st)" using Cons.prems(2,3) by blast
    then obtain ds' where u: "updateDoc (fst st) k (updatePortion e sd cur s) = Some ds'"
      using updateDoc_Some by blast
    have st1: "?st1 = (ds', AList.delete (splitUserId s) (snd st))"
      using Cons.prems(2) u by (simp add: portionStep_def a)
    have "splitUserId s \<notin> fst ` set (snd ?st1)"
      by (simp add: st1 AList.delete_eq image_iff)
    moreover have "set (snd (fold (portionStep e tid sd cur ex) xs ?st1)) \<subseteq> set (snd ?st1)"
      by (rule fold_portionStep_remaining_sub)
    ultimately show ?thesis by auto
  qed
qed

text \<open>The facts about a reconciliation that the three parts of the claim share.\<close>

lemma reconcile_setup:
  assumes hm: "householdMain s tid cur" and sp: "newSplitInfo data = Some sp" "sp \<noteq> []"
  obtains ds1 where
    "docs (updateTransaction e tid data s)
       = reconcileSplitPortions e tid data (sanitizedData e data cur) cur ds1"
    "distinct (map fst ds1)"
    "fst ` set ds1 = fst ` set (docs s)"
    "splitPortionsQuery ds1 tid = splitPortionsQuery (docs s) tid"
    "\<And>k. k \<noteq> tid \<Longrightarrow> map_of ds1 k = map_of (docs s) k"
proof -
  let ?sd = "sanitizedData e data cur"
  obtain ds1 where u: "updateDoc (docs s) tid (writeSanitized e ?sd) = Some ds1"
    and r: "docs (updateTransaction e tid data s) = reconcileSplitPortions e tid data ?sd cur ds1"
    using updateTransaction_reconcile[OF hm sp] by blast
  have dist: "distinct (map fst (docs s))" and cur: "map_of (docs s) tid = Some cur"
    and np: "\<not> isSplitPortion cur"
    using hm by (simp_all add: householdMain_def getDoc_def)
  have 1: "distinct (map fst ds1)" using dist updateDoc_keys[OF u] by simp
  have 2: "fst ` set ds1 = fst ` set (docs s)" by (rule updateDoc_keyset[OF u])
  have 3: "splitPortionsQuery ds1 tid = splitPortionsQuery (docs s) tid"
    by (rule query_after_main_write[OF dist cur np u])
  have 4: "\<And>k. k \<noteq> tid \<Longrightarrow> map_of ds1 k = map_of (docs s) k"
    by (simp add: map_of_updateDoc[OF u])
  from that[OF r 1 2 3 4] show ?thesis .
qed

lemma qualifying_userIds:
  "splitUserId ` set (filter P (adjustedSplitInfo amt sp)) \<subseteq> splitUserId ` set sp"
proof -
  have "splitUserId ` set (adjustedSplitInfo amt sp) = splitUserId ` set sp"
    using arg_cong[OF adjustedSplitInfo_userIds[of amt sp], of set] by simp
  then show ?thesis by auto
qed

lemma qualifying_distinct:
  "distinct (map splitUserId sp) \<Longrightarrow> distinct (map splitUserId (filter P (adjustedSplitInfo amt sp)))"
  by (simp add: distinct_map_filter adjustedSplitInfo_userIds)

lemma reconcile_updates_existing:
  assumes hm: "householdMain s tid cur" and sp: "newSplitInfo data = Some sp" "sp \<noteq> []"
    and du: "distinct (map splitUserId sp)"
    and dp: "distinct (map (\<lambda>kp. userId (snd kp)) (splitPortionsQuery (docs s) tid))"
    and split: "split \<in> set (adjustedSplitInfo (amountOr data cur) sp)"
      "truthy (splitUserId split)" "splitUserId split \<noteq> userId cur"
    and p: "(pid, p) \<in> set (splitPortionsQuery (docs s) tid)" "userId p = splitUserId split"
  shows "getDoc (docs (updateTransaction e tid data s)) pid
           = Some (updatePortion e (sanitizedData e data cur) cur split p)"
proof -
  let ?sd = "sanitizedData e data cur"
  obtain ds1 where r: "docs (updateTransaction e tid data s) = reconcileSplitPortions e tid data ?sd cur ds1"
    and dist1: "distinct (map fst ds1)"
    and q: "splitPortionsQuery ds1 tid = splitPortionsQuery (docs s) tid"
    using reconcile_setup[OF hm sp] by metis
  let ?Q = "splitPortionsQuery (docs s) tid"
  let ?ex = "existingSplitPortions ?Q"
  let ?qs = "filter (\<lambda>split. truthy (splitUserId split) \<and> splitUserId split \<noteq> userId cur)
             (adjustedSplitInfo (amountOr data cur) (splitList (newSplitInfo data)))"
  let ?f = "portionStep e tid ?sd cur ?ex"
  let ?st = "fold ?f ?qs (ds1, ?ex)"
  have inQ: "\<And>k' p'. (k', p') \<in> set ?Q \<Longrightarrow> map_of ds1 k' = Some p'"
    using dist1 q by (metis query_set distinct_map_of)
  have m: "map_of ?ex (splitUserId split) = Some (pid, p)"
    using existing_complete[OF p(1) dp] split(2) p(2) by simp
  have sq: "split \<in> set ?qs" using split sp by (simp add: splitList_def)
  then obtain xs1 xs2 where xs: "?qs = xs1 @ split # xs2" by (meson split_list)
  have dq: "distinct (map splitUserId ?qs)"
    using du sp by (simp add: splitList_def qualifying_distinct)
  have other: "\<And>s' p'. s' \<in> set xs1 \<union> set xs2 \<Longrightarrow> map_of ?ex (splitUserId s') \<noteq> Some (pid, p')"
  proof
    fix s' p' assume s': "s' \<in> set xs1 \<union> set xs2" and e': "map_of ?ex (splitUserId s') = Some (pid, p')"
    have "splitUserId split \<notin> splitUserId ` (set xs1 \<union> set xs2)"
      using dq unfolding xs by (simp add: image_Un)
    then have ne: "splitUserId s' \<noteq> splitUserId split" using s' by (metis imageI)
    from existing_sound[OF e'] have "(pid, p') \<in> set ?Q" "userId p' = splitUserId s'" by simp_all
    then have "p' = p" using inQ[of pid p'] inQ[OF p(1)] by simp
    then show False using ne \<open>userId p' = splitUserId s'\<close> p(2) by simp
  qed
  have k: "pid \<in> fst ` set (fst (ds1, ?ex))" using inQ[OF p(1)] by (simp add: in_keys_iff)
  have upd: "map_of (fst ?st) pid = map_option (updatePortion e ?sd cur split) (map_of (fst (ds1, ?ex)) pid)"
    using other by (intro fold_portionStep_update[OF k xs m]) auto
  have A: "\<forall>u pid p. map_of ?ex u = Some (pid, p) \<longrightarrow> pid \<in> fst ` set (fst (ds1, ?ex))"
  proof (intro allI impI)
    fix u k' p' assume "map_of ?ex u = Some (k', p')"
    then have "(k', p') \<in> set ?Q" using existing_sound by blast
    then show "k' \<in> fst ` set (fst (ds1, ?ex))" using inQ by (simp add: in_keys_iff)
  qed
  have gone: "splitUserId split \<notin> fst ` set (snd ?st)"
    by (rule fold_portionStep_removed[OF sq m A])
  have nd: "\<not> (\<exists>u p'. (u, (pid, p')) \<in> set (snd ?st) \<and> truthy pid)"
  proof
    assume "\<exists>u p'. (u, (pid, p')) \<in> set (snd ?st) \<and> truthy pid"
    then obtain u p' where r': "(u, (pid, p')) \<in> set (snd ?st)" by blast
    then have "(u, (pid, p')) \<in> set ?ex"
      using fold_portionStep_remaining_sub[of e tid ?sd cur ?ex ?qs "(ds1, ?ex)"] by auto
    from existing_set_sound[OF this] have "(pid, p') \<in> set ?Q" "userId p' = u" by simp_all
    then have "p' = p" using inQ[of pid p'] inQ[OF p(1)] by simp
    then have "u = splitUserId split" using \<open>userId p' = u\<close> p(2) by simp
    then show False using gone r' by (force simp: image_iff)
  qed
  have "map_of (deletePortions (snd ?st) (fst ?st)) pid = map_of (fst ?st) pid"
    by (simp only: map_of_deletePortions nd if_False)
  then have "map_of (docs (updateTransaction e tid data s)) pid = map_of (fst ?st) pid"
    by (simp only: r reconcile_unfold q)
  then show ?thesis by (simp add: getDoc_def upd inQ[OF p(1)])
qed

lemma reconcile_creates_missing:
  assumes hm: "householdMain s tid cur" and sp: "newSplitInfo data = Some sp" "sp \<noteq> []"
    and split: "split \<in> set (adjustedSplitInfo (amountOr data cur) sp)"
      "truthy (splitUserId split)" "splitUserId split \<noteq> userId cur"
    and none: "splitUserId split \<notin> (\<lambda>kp. userId (snd kp)) ` set (splitPortionsQuery (docs s) tid)"
  shows "\<exists>k. getDoc (docs s) k = None
           \<and> getDoc (docs (updateTransaction e tid data s)) k
               = Some (newPortion e tid (sanitizedData e data cur) cur split)"
proof -
  let ?sd = "sanitizedData e data cur"
  obtain ds1 where r: "docs (updateTransaction e tid data s) = reconcileSplitPortions e tid data ?sd cur ds1"
    and dist1: "distinct (map fst ds1)"
    and keys: "fst ` set ds1 = fst ` set (docs s)"
    and q: "splitPortionsQuery ds1 tid = splitPortionsQuery (docs s) tid"
    using reconcile_setup[OF hm sp] by metis
  let ?Q = "splitPortionsQuery (docs s) tid"
  let ?ex = "existingSplitPortions ?Q"
  let ?qs = "filter (\<lambda>split. truthy (splitUserId split) \<and> splitUserId split \<noteq> userId cur)
             (adjustedSplitInfo (amountOr data cur) (splitList (newSplitInfo data)))"
  let ?f = "portionStep e tid ?sd cur ?ex"
  let ?st = "fold ?f ?qs (ds1, ?ex)"
  have inQ: "\<And>k' p'. (k', p') \<in> set ?Q \<Longrightarrow> map_of ds1 k' = Some p'"
    using dist1 q by (metis query_set distinct_map_of)
  have m: "map_of ?ex (splitUserId split) = None" by (rule existing_None[OF none])
  have sq: "split \<in> set ?qs" using split sp by (simp add: splitList_def)
  then obtain xs1 xs2 where xs: "?qs = xs1 @ split # xs2" by (meson split_list)
  have A: "\<forall>u pid p. map_of ?ex u = Some (pid, p) \<longrightarrow> pid \<in> fst ` set (fst (ds1, ?ex))"
  proof (intro allI impI)
    fix u k' p' assume "map_of ?ex u = Some (k', p')"
    then have "(k', p') \<in> set ?Q" using existing_sound by blast
    then show "k' \<in> fst ` set (fst (ds1, ?ex))" using inQ by (simp add: in_keys_iff)
  qed
  obtain k where k: "k \<notin> fst ` set (fst (ds1, ?ex))"
    and c: "map_of (fst ?st) k = Some (newPortion e tid ?sd cur split)"
    using fold_portionStep_create[OF xs m A] by blast
  have nd: "\<not> (\<exists>u p'. (u, (k, p')) \<in> set (snd ?st) \<and> truthy k)"
  proof
    assume "\<exists>u p'. (u, (k, p')) \<in> set (snd ?st) \<and> truthy k"
    then obtain u p' where "(u, (k, p')) \<in> set (snd ?st)" by blast
    then have "(u, (k, p')) \<in> set ?ex"
      using fold_portionStep_remaining_sub[of e tid ?sd cur ?ex ?qs "(ds1, ?ex)"] by auto
    from existing_set_sound[OF this] have "(k, p') \<in> set ?Q" by simp
    then have "map_of ds1 k = Some p'" by (rule inQ)
    then show False using k by (simp add: in_keys_iff)
  qed
  have "map_of (deletePortions (snd ?st) (fst ?st)) k = map_of (fst ?st) k"
    by (simp only: map_of_deletePortions nd if_False)
  then have "map_of (docs (updateTransaction e tid data s)) k = map_of (fst ?st) k"
    by (simp only: r reconcile_unfold q)
  moreover have "map_of (docs s) k = None" using k keys by (simp add: map_of_eq_None_iff)
  ultimately show ?thesis using c by (auto simp: getDoc_def)
qed

lemma reconcile_deletes_stale:
  assumes hm: "householdMain s tid cur" and sp: "newSplitInfo data = Some sp" "sp \<noteq> []"
    and dp: "distinct (map (\<lambda>kp. userId (snd kp)) (splitPortionsQuery (docs s) tid))"
    and p: "(pid, p) \<in> set (splitPortionsQuery (docs s) tid)" "truthy (userId p)"
      "userId p \<notin> splitUserId ` set sp"
  shows "getDoc (docs (updateTransaction e tid data s)) pid = None"
proof -
  let ?sd = "sanitizedData e data cur"
  obtain ds1 where r: "docs (updateTransaction e tid data s) = reconcileSplitPortions e tid data ?sd cur ds1"
    and q: "splitPortionsQuery ds1 tid = splitPortionsQuery (docs s) tid"
    using reconcile_setup[OF hm sp] by metis
  let ?Q = "splitPortionsQuery (docs s) tid"
  let ?ex = "existingSplitPortions ?Q"
  let ?qs = "filter (\<lambda>split. truthy (splitUserId split) \<and> splitUserId split \<noteq> userId cur)
             (adjustedSplitInfo (amountOr data cur) (splitList (newSplitInfo data)))"
  let ?f = "portionStep e tid ?sd cur ?ex"
  let ?st = "fold ?f ?qs (ds1, ?ex)"
  have "map_of ?ex (userId p) = Some (pid, p)" by (rule existing_complete[OF p(1) dp p(2)])
  then have inex: "(userId p, (pid, p)) \<in> set (snd (ds1, ?ex))" by (simp add: map_of_SomeD)
  have "userId p \<notin> splitUserId ` set ?qs"
    using p(3) qualifying_userIds[of _ "amountOr data cur" sp] sp by (auto simp: splitList_def)
  then have rem: "(userId p, (pid, p)) \<in> set (snd ?st)"
    by (rule fold_portionStep_remaining_keep[OF inex])
  have "(pid, p) \<in> set (docs s)" using p(1) by (simp add: query_set)
  then have "pid \<in> set (map fst (docs s))" by force
  moreover have "[] \<notin> set (map fst (docs s))" using hm by (simp add: householdMain_def)
  ultimately have t: "truthy pid" unfolding truthy_def by metis
  have "\<exists>u p'. (u, (pid, p')) \<in> set (snd ?st) \<and> truthy pid" using rem t by blast
  then have "map_of (deletePortions (snd ?st) (fst ?st)) pid = None"
    by (simp only: map_of_deletePortions if_True)
  then have "map_of (docs (updateTransaction e tid data s)) pid = None"
    by (simp only: r reconcile_unfold q)
  then show ?thesis by (simp add: getDoc_def)
qed

text \<open>
  The three kinds of portion write of a reconciliation. Take a store with distinct, non-empty
  document ids that holds at most one split portion per user for the household main
  transaction \<open>tid\<close>, and an update whose new split list is non-empty and names each user
  once. After \<^verbatim>\<open>updateTransaction\<close>: for every entry of the adjusted split list whose
  user is not the owner and has a portion, the document with that same id holds the result
  of \<^verbatim>\<open>updatePortion\<close> on the old portion, which sets the amount, the four fields
  \<^verbatim>\<open>portionDescription\<close>, \<^verbatim>\<open>portionDate\<close>, \<^verbatim>\<open>portionCategoryId\<close> and
  \<^verbatim>\<open>portionType\<close>, and the update time stamp; for every such entry whose user has no
  portion, a document with an id that was free holds the new portion, with the user, the
  amount, the back reference and the flag; and every portion of a user who is not named in
  the new split list is gone.
\<close>

lemma reconcile_update_create_delete:
  assumes "householdMain s tid cur" and "newSplitInfo data = Some sp" and "sp \<noteq> []"
    and "distinct (map splitUserId sp)"
    and "distinct (map (\<lambda>kp. userId (snd kp)) (splitPortionsQuery (docs s) tid))"
  shows "(\<forall>split pid p.
            split \<in> set (adjustedSplitInfo (amountOr data cur) sp)
            \<and> truthy (splitUserId split) \<and> splitUserId split \<noteq> userId cur
            \<and> (pid, p) \<in> set (splitPortionsQuery (docs s) tid) \<and> userId p = splitUserId split
            \<longrightarrow> getDoc (docs (updateTransaction e tid data s)) pid
                  = Some (updatePortion e (sanitizedData e data cur) cur split p))
       \<and> (\<forall>split.
            split \<in> set (adjustedSplitInfo (amountOr data cur) sp)
            \<and> truthy (splitUserId split) \<and> splitUserId split \<noteq> userId cur
            \<and> splitUserId split \<notin> (\<lambda>kp. userId (snd kp)) ` set (splitPortionsQuery (docs s) tid)
            \<longrightarrow> (\<exists>k. getDoc (docs s) k = None
                     \<and> getDoc (docs (updateTransaction e tid data s)) k
                         = Some (newPortion e tid (sanitizedData e data cur) cur split)))
       \<and> (\<forall>pid p.
            (pid, p) \<in> set (splitPortionsQuery (docs s) tid)
            \<and> truthy (userId p) \<and> userId p \<notin> splitUserId ` set sp
            \<longrightarrow> getDoc (docs (updateTransaction e tid data s)) pid = None)
       \<and> (\<forall>split p.
            updatePortion e (sanitizedData e data cur) cur split p
              = p\<lparr>amount := splitAmount split,
                  description := portionDescription (sanitizedData e data cur) cur,
                  date := portionDate (sanitizedData e data cur) cur,
                  categoryId := portionCategoryId (sanitizedData e data cur) cur,
                  txType := portionType (sanitizedData e data cur) cur,
                  updatedAt := Some (serverTime e)\<rparr>
            \<and> userId (newPortion e tid (sanitizedData e data cur) cur split) = splitUserId split
            \<and> amount (newPortion e tid (sanitizedData e data cur) cur split) = splitAmount split
            \<and> mainTransactionId (newPortion e tid (sanitizedData e data cur) cur split) = Some tid
            \<and> isSplitPortion (newPortion e tid (sanitizedData e data cur) cur split))"
proof (intro conjI allI impI)
  fix split pid p
  assume "split \<in> set (adjustedSplitInfo (amountOr data cur) sp)
            \<and> truthy (splitUserId split) \<and> splitUserId split \<noteq> userId cur
            \<and> (pid, p) \<in> set (splitPortionsQuery (docs s) tid) \<and> userId p = splitUserId split"
  then show "getDoc (docs (updateTransaction e tid data s)) pid
                  = Some (updatePortion e (sanitizedData e data cur) cur split p)"
    using reconcile_updates_existing[OF assms, of split pid p e] by blast
next
  fix split
  assume "split \<in> set (adjustedSplitInfo (amountOr data cur) sp)
            \<and> truthy (splitUserId split) \<and> splitUserId split \<noteq> userId cur
            \<and> splitUserId split \<notin> (\<lambda>kp. userId (snd kp)) ` set (splitPortionsQuery (docs s) tid)"
  then show "\<exists>k. getDoc (docs s) k = None
                     \<and> getDoc (docs (updateTransaction e tid data s)) k
                         = Some (newPortion e tid (sanitizedData e data cur) cur split)"
    using reconcile_creates_missing[OF assms(1-3), of split e] by blast
next
  fix pid p
  assume "(pid, p) \<in> set (splitPortionsQuery (docs s) tid)
            \<and> truthy (userId p) \<and> userId p \<notin> splitUserId ` set sp"
  then show "getDoc (docs (updateTransaction e tid data s)) pid = None"
    using reconcile_deletes_stale[OF assms(1-3) assms(5), of pid p e] by blast
next
  fix split p
  show "updatePortion e (sanitizedData e data cur) cur split p
              = p\<lparr>amount := splitAmount split,
                  description := portionDescription (sanitizedData e data cur) cur,
                  date := portionDate (sanitizedData e data cur) cur,
                  categoryId := portionCategoryId (sanitizedData e data cur) cur,
                  txType := portionType (sanitizedData e data cur) cur,
                  updatedAt := Some (serverTime e)\<rparr>"
    by (simp add: updatePortion_def orZero_id)
  show "userId (newPortion e tid (sanitizedData e data cur) cur split) = splitUserId split"
    "amount (newPortion e tid (sanitizedData e data cur) cur split) = splitAmount split"
    "mainTransactionId (newPortion e tid (sanitizedData e data cur) cur split) = Some tid"
    "isSplitPortion (newPortion e tid (sanitizedData e data cur) cur split)"
    by (simp_all add: newPortion_def orZero_id)
qed

text \<open>
  For the portions A: 40 and B: 60 and the new split B: 70, C: 30, the portion of A is
  deleted, that of B keeps its id and has amount 70, and a portion of 30 is created for C.
\<close>

lemma reconciliation_scenario:
  "householdMain exStore ''m'' exMain
   \<and> newSplitInfo (exPatch [exSplit ''B'' 70 70, exSplit ''C'' 30 30])
       = Some [exSplit ''B'' 70 70, exSplit ''C'' 30 30]
   \<and> [exSplit ''B'' 70 70, exSplit ''C'' 30 30] \<noteq> []
   \<and> distinct (map splitUserId [exSplit ''B'' 70 70, exSplit ''C'' 30 30])
   \<and> distinct (map (\<lambda>kp. userId (snd kp)) (splitPortionsQuery (docs exStore) ''m''))
   \<and> splitPortionsQuery (docs exStore) ''m'' = [(''pa'', exPortion ''A'' 40), (''pb'', exPortion ''B'' 60)]
   \<and> getDoc (docs (updateTransaction exEnv ''m'' (exPatch [exSplit ''B'' 70 70, exSplit ''C'' 30 30]) exStore)) ''pb''
       = Some ((exPortion ''B'' 70)\<lparr>updatedAt := Some 7\<rparr>)
   \<and> (\<exists>k. getDoc (docs exStore) k = None
         \<and> getDoc (docs (updateTransaction exEnv ''m'' (exPatch [exSplit ''B'' 70 70, exSplit ''C'' 30 30]) exStore)) k
             = Some ((exPortion ''C'' 30)\<lparr>createdAt := Some 7\<rparr>))
   \<and> getDoc (docs (updateTransaction exEnv ''m'' (exPatch [exSplit ''B'' 70 70, exSplit ''C'' 30 30]) exStore)) ''pa''
       = None"
proof -
  let ?sp = "[exSplit ''B'' 70 70, exSplit ''C'' 30 30]"
  let ?sd = "sanitizedData exEnv (exPatch ?sp) exMain"
  have q: "splitPortionsQuery (docs exStore) ''m'' = [(''pa'', exPortion ''A'' 40), (''pb'', exPortion ''B'' 60)]"
    by (simp add: ex_defs splitPortionsQuery_def)
  have h: "householdMain exStore ''m'' exMain" "newSplitInfo (exPatch ?sp) = Some ?sp" "?sp \<noteq> []"
    "distinct (map splitUserId ?sp)"
    "distinct (map (\<lambda>kp. userId (snd kp)) (splitPortionsQuery (docs exStore) ''m''))"
    by (simp_all add: exStore_householdMain q)
       (simp_all add: ex_defs)
  have adj: "adjustedSplitInfo (amountOr (exPatch ?sp) exMain) ?sp = ?sp"
    by (simp add: ex_defs adjustedSplitInfo_def amountOr_def totalSplitAmount_def orZero_def
        round2_def Math_round_def Let_def)
  have u: "updatePortion exEnv ?sd exMain (exSplit ''B'' 70 70) (exPortion ''B'' 60)
      = (exPortion ''B'' 70)\<lparr>updatedAt := Some 7\<rparr>"
    by (simp add: ex_defs op_defs)
  have n: "newPortion exEnv ''m'' ?sd exMain (exSplit ''C'' 30 30)
      = (exPortion ''C'' 30)\<lparr>createdAt := Some 7\<rparr>"
    by (simp add: ex_defs op_defs)
  note t = reconcile_update_create_delete[OF h, of exEnv]
  have a: "getDoc (docs (updateTransaction exEnv ''m'' (exPatch ?sp) exStore)) ''pb''
       = Some ((exPortion ''B'' 70)\<lparr>updatedAt := Some 7\<rparr>)"
    using t[THEN conjunct1, rule_format, of "exSplit ''B'' 70 70" "''pb''" "exPortion ''B'' 60"]
    unfolding adj q u by (simp add: exSplit_def exPortion_def exMain_def truthy_def)
  have b: "\<exists>k. getDoc (docs exStore) k = None
         \<and> getDoc (docs (updateTransaction exEnv ''m'' (exPatch ?sp) exStore)) k
             = Some ((exPortion ''C'' 30)\<lparr>createdAt := Some 7\<rparr>)"
    using t[THEN conjunct2, THEN conjunct1, rule_format, of "exSplit ''C'' 30 30"]
    unfolding adj q n by (simp add: exSplit_def exPortion_def exMain_def truthy_def)
  have c: "getDoc (docs (updateTransaction exEnv ''m'' (exPatch ?sp) exStore)) ''pa'' = None"
    using t[THEN conjunct2, THEN conjunct2, THEN conjunct1, rule_format, of "''pa''" "exPortion ''A'' 40"]
    unfolding q by (simp add: exSplit_def exPortion_def truthy_def)
  from h q a b c show ?thesis by (intro conjI)
qed

lemma reconcile_portion_amounts:
  assumes hm: "householdMain s tid cur" and sp: "newSplitInfo data = Some sp" "sp \<noteq> []"
    and du: "distinct (map splitUserId sp)"
    and dp: "distinct (map (\<lambda>kp. userId (snd kp)) (splitPortionsQuery (docs s) tid))"
    and split: "split \<in> set (adjustedSplitInfo (amountOr data cur) sp)"
      "truthy (splitUserId split)" "splitUserId split \<noteq> userId cur"
  shows "\<exists>k d. getDoc (docs (updateTransaction e tid data s)) k = Some d
           \<and> userId d = splitUserId split \<and> mainTransactionId d = Some tid
           \<and> isSplitPortion d \<and> amount d = splitAmount split"
proof (cases "splitUserId split \<in> (\<lambda>kp. userId (snd kp)) ` set (splitPortionsQuery (docs s) tid)")
  case True
  then obtain pid p where p: "(pid, p) \<in> set (splitPortionsQuery (docs s) tid)" "userId p = splitUserId split"
    by force
  have f: "mainTransactionId p = Some tid" "isSplitPortion p" using p(1) by (simp_all add: query_set)
  have "getDoc (docs (updateTransaction e tid data s)) pid
           = Some (updatePortion e (sanitizedData e data cur) cur split p)"
    by (rule reconcile_updates_existing[OF hm sp du dp split p])
  moreover have "userId (updatePortion e (sanitizedData e data cur) cur split p) = splitUserId split"
    "mainTransactionId (updatePortion e (sanitizedData e data cur) cur split p) = Some tid"
    "isSplitPortion (updatePortion e (sanitizedData e data cur) cur split p)"
    "amount (updatePortion e (sanitizedData e data cur) cur split p) = splitAmount split"
    using p(2) f by (simp_all add: updatePortion_def orZero_id)
  ultimately show ?thesis by blast
next
  case False
  obtain k where "getDoc (docs (updateTransaction e tid data s)) k
               = Some (newPortion e tid (sanitizedData e data cur) cur split)"
    using reconcile_creates_missing[OF hm sp split False] by blast
  moreover have "userId (newPortion e tid (sanitizedData e data cur) cur split) = splitUserId split"
    "mainTransactionId (newPortion e tid (sanitizedData e data cur) cur split) = Some tid"
    "isSplitPortion (newPortion e tid (sanitizedData e data cur) cur split)"
    "amount (newPortion e tid (sanitizedData e data cur) cur split) = splitAmount split"
    by (simp_all add: newPortion_def orZero_id)
  ultimately show ?thesis by blast
qed

text \<open>The main document's list and the portions after an update carry the adjusted amounts.\<close>

lemma update_carries_adjusted:
  assumes hm: "householdMain s tid cur" and sp: "newSplitInfo data = Some sp" "sp \<noteq> []"
    and du: "distinct (map splitUserId sp)"
    and dp: "distinct (map (\<lambda>kp. userId (snd kp)) (splitPortionsQuery (docs s) tid))"
  shows "map_option (\<lambda>d. map splitAmount (splitList (splitInfo d)))
           (getDoc (docs (updateTransaction e tid data s)) tid)
         = Some (map splitAmount (adjustedSplitInfo (amountOr data cur) sp))
       \<and> list_all2 (\<lambda>split a. truthy (splitUserId split) \<and> splitUserId split \<noteq> userId cur
             \<longrightarrow> (\<exists>k d. getDoc (docs (updateTransaction e tid data s)) k = Some d
                    \<and> userId d = splitUserId split \<and> mainTransactionId d = Some tid
                    \<and> isSplitPortion d \<and> amount d = a))
           sp (map splitAmount (adjustedSplitInfo (amountOr data cur) sp))"
proof -
  let ?adj = "adjustedSplitInfo (amountOr data cur) sp"
  have len: "length ?adj = length sp"
    using arg_cong[OF adjustedSplitInfo_userIds[of "amountOr data cur" sp], of length] by simp
  have uid: "\<And>i. i < length sp \<Longrightarrow> splitUserId (?adj ! i) = splitUserId (sp ! i)"
  proof -
    fix i assume i: "i < length sp"
    have "map splitUserId ?adj ! i = map splitUserId sp ! i" by (simp only: adjustedSplitInfo_userIds)
    then show "splitUserId (?adj ! i) = splitUserId (sp ! i)" using i len by simp
  qed
  have "list_all2 (\<lambda>split a. truthy (splitUserId split) \<and> splitUserId split \<noteq> userId cur
             \<longrightarrow> (\<exists>k d. getDoc (docs (updateTransaction e tid data s)) k = Some d
                    \<and> userId d = splitUserId split \<and> mainTransactionId d = Some tid
                    \<and> isSplitPortion d \<and> amount d = a))
           sp (map splitAmount ?adj)"
  proof (rule list_all2_all_nthI)
    show "length sp = length (map splitAmount ?adj)" using len by simp
  next
    fix i assume i: "i < length sp"
    show "truthy (splitUserId (sp ! i)) \<and> splitUserId (sp ! i) \<noteq> userId cur
             \<longrightarrow> (\<exists>k d. getDoc (docs (updateTransaction e tid data s)) k = Some d
                    \<and> userId d = splitUserId (sp ! i) \<and> mainTransactionId d = Some tid
                    \<and> isSplitPortion d \<and> amount d = map splitAmount ?adj ! i)"
    proof
      assume q: "truthy (splitUserId (sp ! i)) \<and> splitUserId (sp ! i) \<noteq> userId cur"
      have mem: "?adj ! i \<in> set ?adj" using i len by simp
      have "\<exists>k d. getDoc (docs (updateTransaction e tid data s)) k = Some d
           \<and> userId d = splitUserId (?adj ! i) \<and> mainTransactionId d = Some tid
           \<and> isSplitPortion d \<and> amount d = splitAmount (?adj ! i)"
        using q by (intro reconcile_portion_amounts[OF hm sp du dp mem]) (simp_all add: uid[OF i])
      then show "\<exists>k d. getDoc (docs (updateTransaction e tid data s)) k = Some d
                    \<and> userId d = splitUserId (sp ! i) \<and> mainTransactionId d = Some tid
                    \<and> isSplitPortion d \<and> amount d = map splitAmount ?adj ! i"
        using i len by (simp add: uid[OF i])
    qed
  qed
  then show ?thesis using update_stored_amounts[OF hm sp, of e] by simp
qed

lemma update_existing_portion_amount:
  assumes "householdMain s tid cur" and "newSplitInfo data = Some sp" and "sp \<noteq> []"
    and "distinct (map splitUserId sp)"
    and "distinct (map (\<lambda>kp. userId (snd kp)) (splitPortionsQuery (docs s) tid))"
    and "split \<in> set (adjustedSplitInfo (amountOr data cur) sp)"
    and "truthy (splitUserId split)" and "splitUserId split \<noteq> userId cur"
    and "(pid, p) \<in> set (splitPortionsQuery (docs s) tid)" and "userId p = splitUserId split"
  shows "map_option amount (getDoc (docs (updateTransaction e tid data s)) pid)
           = Some (splitAmount split)"
  by (simp add: reconcile_updates_existing[OF assms] updatePortion_def orZero_id)

text \<open>
  Claim C2. The claim says that the existing portion of a member is updated in place with
  the new description. \<^verbatim>\<open>updateTransaction\<close> writes the description of a portion as
  \<^verbatim>\<open>sanitizedData.description || currentTransaction.description || ''\<close> (line 507 for an
  existing portion, line 520 for a new one), so a new description that is the empty string
  counts as absent. For the portions A: 40 and B: 60 of the main transaction \<open>m\<close>, whose
  description is \<open>Rent\<close>, the update to the split B: 70, C: 30 with the description set to
  the empty string stores the empty description in the main document, and leaves \<open>Rent\<close>
  in the portion of B and puts it in the new portion of C. \<^verbatim>\<open>addTransaction\<close> writes
  \<^verbatim>\<open>String(transaction.description || '').trim()\<close> to the main document and to every
  portion alike (lines 275 and 334): the same transaction, when created, has the empty
  description in all three documents.
\<close>

theorem update_blank_description_portion:
  "map (\<lambda>(k, d). (k, userId d, amount d, description d))
     (docs (updateTransaction exEnv ''m''
        ((exPatch [exSplit ''B'' 70 70, exSplit ''C'' 30 30])\<lparr>newDescription := Some []\<rparr>) exStore))
     = [(''m'', ''O'', 100, []), (''pb'', ''B'', 70, ''Rent''), (''xxx'', ''C'', 30, ''Rent'')]
   \<and> map (\<lambda>(k, d). (k, userId d, amount d, description d))
     (drop 3 (docs (addTransaction exEnv
        ((exNew 100 [exSplit ''B'' 70 70, exSplit ''C'' 30 30])\<lparr>description := []\<rparr>) exStore)))
     = [(''xxx'', ''O'', 100, []), (''xxxx'', ''B'', 70, []), (''xxxxx'', ''C'', 30, [])]"
  by (simp add: ex_defs op_defs)

section \<open>Manual split: rescaling\<close>

text \<open>
  Claim C3, amended. Take a split list that names each user once and whose sum, rounded to
  cents, is a number \<open>R\<close> other than 0, and let neither the sum nor the total lie on a half
  cent. \<^verbatim>\<open>updateTransaction\<close> on a household main transaction (in a store with at most
  one portion per user for it) stores in the main document one amount per share, the list
  \<open>st\<close>, and every share of a user with a non-empty id other than the owner has a split
  portion of the main transaction whose amount is the entry of \<open>st\<close> for that share.
  \<^verbatim>\<open>addTransaction\<close> creates, in the order of the list, one portion for every share of a
  user with a non-empty id other than the owner whose entry in its list \<open>st2\<close> is positive,
  with that amount. If the rounded total equals \<open>R\<close>, the list is the supplied amounts,
  unchanged. If the rounded total and \<open>R\<close> differ by two cents or more, every entry is a
  whole number of cents within half a cent of \<open>amount * rounded total / R\<close>: the ratio is
  taken between the two rounded values, and the divisor is the rounded sum, not the raw
  sum. (A difference of exactly one cent is decided by the last bit of the two doubles, and
  a product on a half cent is rounded to either side; the statement leaves both open.)
\<close>

theorem manual_split_rescaling:
  assumes "householdMain s tid cur" and "newSplitInfo data = Some sp"
    and "distinct (map splitUserId sp)"
    and "distinct (map (\<lambda>kp. userId (snd kp)) (splitPortionsQuery (docs s) tid))"
    and "dbReady s2" and "truthy (userId t)" and "truthyOpt (householdId t)" and "splitInfo t = Some sp"
    and "round2 (sum_list (map splitAmount sp)) \<noteq> 0"
    and "\<not> onHalfCent (sum_list (map splitAmount sp))"
    and "\<not> onHalfCent (amountOr data cur)" and "\<not> onHalfCent (amount t)"
  shows "\<exists>st st2.
      map_option (\<lambda>d. map splitAmount (splitList (splitInfo d)))
          (getDoc (docs (updateTransaction e tid data s)) tid) = Some st
    \<and> list_all2 (\<lambda>split a. truthy (splitUserId split) \<and> splitUserId split \<noteq> userId cur
           \<longrightarrow> (\<exists>k d. getDoc (docs (updateTransaction e tid data s)) k = Some d
                  \<and> userId d = splitUserId split \<and> mainTransactionId d = Some tid
                  \<and> isSplitPortion d \<and> amount d = a)) sp st
    \<and> (round2 (amountOr data cur) = round2 (sum_list (map splitAmount sp))
           \<longrightarrow> st = map splitAmount sp)
    \<and> (2 / 100 \<le> \<bar>round2 (amountOr data cur) - round2 (sum_list (map splitAmount sp))\<bar>
           \<longrightarrow> list_all2 (\<lambda>a x. wholeCents a
                   \<and> \<bar>a - x * round2 (amountOr data cur) / round2 (sum_list (map splitAmount sp))\<bar>
                       \<le> 1 / 200) st (map splitAmount sp))
    \<and> length st2 = length sp
    \<and> map (\<lambda>(k, d). (userId d, amount d))
          (drop (Suc (length (docs s2))) (docs (addTransaction e t s2)))
        = filter (\<lambda>(u, a). truthy u \<and> u \<noteq> userId t \<and> a > 0) (zip (map splitUserId sp) st2)
    \<and> (round2 (amount t) = round2 (sum_list (map splitAmount sp))
           \<longrightarrow> st2 = map splitAmount sp)
    \<and> (2 / 100 \<le> \<bar>round2 (amount t) - round2 (sum_list (map splitAmount sp))\<bar>
           \<longrightarrow> list_all2 (\<lambda>a x. wholeCents a
                   \<and> \<bar>a - x * round2 (amount t) / round2 (sum_list (map splitAmount sp))\<bar>
                       \<le> 1 / 200) st2 (map splitAmount sp))"
proof -
  have ne: "sp \<noteq> []"
  proof
    assume "sp = []"
    then have "round2 (sum_list (map splitAmount sp)) = 0" by (simp add: round2_def Math_round_def)
    with assms(9) show False by simp
  qed
  let ?st = "map splitAmount (adjustedSplitInfo (amountOr data cur) sp)"
  let ?st2 = "map splitAmount (adjustedSplitInfo (amount t) sp)"
  note u = update_carries_adjusted[OF assms(1,2) ne assms(3,4), of e]
  have l: "length ?st2 = length sp"
    using arg_cong[OF adjustedSplitInfo_userIds[of "amount t" sp], of length] by simp
  have "map_option (\<lambda>d. map splitAmount (splitList (splitInfo d)))
          (getDoc (docs (updateTransaction e tid data s)) tid) = Some ?st
    \<and> list_all2 (\<lambda>split a. truthy (splitUserId split) \<and> splitUserId split \<noteq> userId cur
           \<longrightarrow> (\<exists>k d. getDoc (docs (updateTransaction e tid data s)) k = Some d
                  \<and> userId d = splitUserId split \<and> mainTransactionId d = Some tid
                  \<and> isSplitPortion d \<and> amount d = a)) sp ?st
    \<and> (round2 (amountOr data cur) = round2 (sum_list (map splitAmount sp))
           \<longrightarrow> ?st = map splitAmount sp)
    \<and> (2 / 100 \<le> \<bar>round2 (amountOr data cur) - round2 (sum_list (map splitAmount sp))\<bar>
           \<longrightarrow> list_all2 (\<lambda>a x. wholeCents a
                   \<and> \<bar>a - x * round2 (amountOr data cur) / round2 (sum_list (map splitAmount sp))\<bar>
                       \<le> 1 / 200) ?st (map splitAmount sp))
    \<and> length ?st2 = length sp
    \<and> map (\<lambda>(k, d). (userId d, amount d))
          (drop (Suc (length (docs s2))) (docs (addTransaction e t s2)))
        = filter (\<lambda>(u, a). truthy u \<and> u \<noteq> userId t \<and> a > 0) (zip (map splitUserId sp) ?st2)
    \<and> (round2 (amount t) = round2 (sum_list (map splitAmount sp))
           \<longrightarrow> ?st2 = map splitAmount sp)
    \<and> (2 / 100 \<le> \<bar>round2 (amount t) - round2 (sum_list (map splitAmount sp))\<bar>
           \<longrightarrow> list_all2 (\<lambda>a x. wholeCents a
                   \<and> \<bar>a - x * round2 (amount t) / round2 (sum_list (map splitAmount sp))\<bar>
                       \<le> 1 / 200) ?st2 (map splitAmount sp))"
  proof (intro conjI impI)
    show "map_option (\<lambda>d. map splitAmount (splitList (splitInfo d)))
          (getDoc (docs (updateTransaction e tid data s)) tid) = Some ?st"
      by (rule u[THEN conjunct1])
    show "list_all2 (\<lambda>split a. truthy (splitUserId split) \<and> splitUserId split \<noteq> userId cur
           \<longrightarrow> (\<exists>k d. getDoc (docs (updateTransaction e tid data s)) k = Some d
                  \<and> userId d = splitUserId split \<and> mainTransactionId d = Some tid
                  \<and> isSplitPortion d \<and> amount d = a)) sp ?st"
      by (rule u[THEN conjunct2])
    show "length ?st2 = length sp" by (rule l)
    show "map (\<lambda>(k, d). (userId d, amount d))
          (drop (Suc (length (docs s2))) (docs (addTransaction e t s2)))
        = filter (\<lambda>(u, a). truthy u \<and> u \<noteq> userId t \<and> a > 0) (zip (map splitUserId sp) ?st2)"
      by (rule addTransaction_portions[OF assms(5-8) ne])
  next
    assume "round2 (amountOr data cur) = round2 (sum_list (map splitAmount sp))"
    then show "?st = map splitAmount sp" by (rule adjusted_unchanged)
  next
    assume "round2 (amount t) = round2 (sum_list (map splitAmount sp))"
    then show "?st2 = map splitAmount sp" by (rule adjusted_unchanged)
  next
    assume "2 / 100 \<le> \<bar>round2 (amountOr data cur) - round2 (sum_list (map splitAmount sp))\<bar>"
    then show "list_all2 (\<lambda>a x. wholeCents a
                   \<and> \<bar>a - x * round2 (amountOr data cur) / round2 (sum_list (map splitAmount sp))\<bar>
                       \<le> 1 / 200) ?st (map splitAmount sp)"
      using assms(9) by (rule adjusted_within_half_cent)
  next
    assume "2 / 100 \<le> \<bar>round2 (amount t) - round2 (sum_list (map splitAmount sp))\<bar>"
    then show "list_all2 (\<lambda>a x. wholeCents a
                   \<and> \<bar>a - x * round2 (amount t) / round2 (sum_list (map splitAmount sp))\<bar>
                       \<le> 1 / 200) ?st2 (map splitAmount sp)"
      using assms(9) by (rule adjusted_within_half_cent)
  qed
  then show ?thesis by blast
qed

theorem manual_split_rescaling_witness:
  "householdMain exStore ''m'' exMain
   \<and> newSplitInfo (exPatch [exSplit ''A'' 30 50, exSplit ''B'' 30 50])
        = Some [exSplit ''A'' 30 50, exSplit ''B'' 30 50]
   \<and> distinct (map splitUserId [exSplit ''A'' 30 50, exSplit ''B'' 30 50])
   \<and> distinct (map (\<lambda>kp. userId (snd kp)) (splitPortionsQuery (docs exStore) ''m''))
   \<and> dbReady exStore \<and> truthy (userId (exNew 100 [exSplit ''A'' 30 50, exSplit ''B'' 30 50]))
   \<and> truthyOpt (householdId (exNew 100 [exSplit ''A'' 30 50, exSplit ''B'' 30 50]))
   \<and> splitInfo (exNew 100 [exSplit ''A'' 30 50, exSplit ''B'' 30 50])
        = Some [exSplit ''A'' 30 50, exSplit ''B'' 30 50]
   \<and> round2 (sum_list (map splitAmount [exSplit ''A'' 30 50, exSplit ''B'' 30 50])) = 60
   \<and> \<not> onHalfCent (sum_list (map splitAmount [exSplit ''A'' 30 50, exSplit ''B'' 30 50]))
   \<and> \<not> onHalfCent (amountOr (exPatch [exSplit ''A'' 30 50, exSplit ''B'' 30 50]) exMain)
   \<and> \<not> onHalfCent (amount (exNew 100 [exSplit ''A'' 30 50, exSplit ''B'' 30 50]))
   \<and> round2 (amountOr (exPatch [exSplit ''A'' 30 50, exSplit ''B'' 30 50]) exMain) = 100
   \<and> map_option (\<lambda>d. map splitAmount (splitList (splitInfo d)))
        (getDoc (docs (updateTransaction exEnv ''m'' (exPatch [exSplit ''A'' 30 50, exSplit ''B'' 30 50]) exStore)) ''m'')
      = Some [50, 50]
   \<and> getDoc (docs exStore) ''pa'' = Some (exPortion ''A'' 40)
   \<and> getDoc (docs exStore) ''pb'' = Some (exPortion ''B'' 60)
   \<and> map_option amount
        (getDoc (docs (updateTransaction exEnv ''m'' (exPatch [exSplit ''A'' 30 50, exSplit ''B'' 30 50]) exStore)) ''pa'')
      = Some 50
   \<and> map_option amount
        (getDoc (docs (updateTransaction exEnv ''m'' (exPatch [exSplit ''A'' 30 50, exSplit ''B'' 30 50]) exStore)) ''pb'')
      = Some 50
   \<and> map (\<lambda>(k, d). (userId d, amount d))
        (drop (Suc (length (docs exStore)))
           (docs (addTransaction exEnv (exNew 100 [exSplit ''A'' 30 50, exSplit ''B'' 30 50]) exStore)))
      = [(''A'', 50), (''B'', 50)]
   \<and> wholeCents 50 \<and> \<bar>50 - 30 * 100 / 60\<bar> \<le> (1 / 200 :: real)
   \<and> (\<exists>st st2.
      map_option (\<lambda>d. map splitAmount (splitList (splitInfo d)))
          (getDoc (docs (updateTransaction exEnv ''m'' (exPatch [exSplit ''A'' 30 50, exSplit ''B'' 30 50]) exStore)) ''m'') = Some st
    \<and> list_all2 (\<lambda>split a. truthy (splitUserId split) \<and> splitUserId split \<noteq> userId exMain
           \<longrightarrow> (\<exists>k d. getDoc (docs (updateTransaction exEnv ''m'' (exPatch [exSplit ''A'' 30 50, exSplit ''B'' 30 50]) exStore)) k = Some d
                  \<and> userId d = splitUserId split \<and> mainTransactionId d = Some ''m''
                  \<and> isSplitPortion d \<and> amount d = a)) [exSplit ''A'' 30 50, exSplit ''B'' 30 50] st
    \<and> (round2 (amountOr (exPatch [exSplit ''A'' 30 50, exSplit ''B'' 30 50]) exMain)
          = round2 (sum_list (map splitAmount [exSplit ''A'' 30 50, exSplit ''B'' 30 50]))
           \<longrightarrow> st = map splitAmount [exSplit ''A'' 30 50, exSplit ''B'' 30 50])
    \<and> (2 / 100 \<le> \<bar>round2 (amountOr (exPatch [exSplit ''A'' 30 50, exSplit ''B'' 30 50]) exMain)
                    - round2 (sum_list (map splitAmount [exSplit ''A'' 30 50, exSplit ''B'' 30 50]))\<bar>
           \<longrightarrow> list_all2 (\<lambda>a x. wholeCents a
                   \<and> \<bar>a - x * round2 (amountOr (exPatch [exSplit ''A'' 30 50, exSplit ''B'' 30 50]) exMain)
                            / round2 (sum_list (map splitAmount [exSplit ''A'' 30 50, exSplit ''B'' 30 50]))\<bar>
                       \<le> 1 / 200) st (map splitAmount [exSplit ''A'' 30 50, exSplit ''B'' 30 50]))
    \<and> length st2 = length [exSplit ''A'' 30 50, exSplit ''B'' 30 50]
    \<and> map (\<lambda>(k, d). (userId d, amount d))
          (drop (Suc (length (docs exStore)))
             (docs (addTransaction exEnv (exNew 100 [exSplit ''A'' 30 50, exSplit ''B'' 30 50]) exStore)))
        = filter (\<lambda>(u, a). truthy u \<and> u \<noteq> userId (exNew 100 [exSplit ''A'' 30 50, exSplit ''B'' 30 50]) \<and> a > 0)
            (zip (map splitUserId [exSplit ''A'' 30 50, exSplit ''B'' 30 50]) st2)
    \<and> (round2 (amount (exNew 100 [exSplit ''A'' 30 50, exSplit ''B'' 30 50]))
          = round2 (sum_list (map splitAmount [exSplit ''A'' 30 50, exSplit ''B'' 30 50]))
           \<longrightarrow> st2 = map splitAmount [exSplit ''A'' 30 50, exSplit ''B'' 30 50])
    \<and> (2 / 100 \<le> \<bar>round2 (amount (exNew 100 [exSplit ''A'' 30 50, exSplit ''B'' 30 50]))
                    - round2 (sum_list (map splitAmount [exSplit ''A'' 30 50, exSplit ''B'' 30 50]))\<bar>
           \<longrightarrow> list_all2 (\<lambda>a x. wholeCents a
                   \<and> \<bar>a - x * round2 (amount (exNew 100 [exSplit ''A'' 30 50, exSplit ''B'' 30 50]))
                            / round2 (sum_list (map splitAmount [exSplit ''A'' 30 50, exSplit ''B'' 30 50]))\<bar>
                       \<le> 1 / 200) st2 (map splitAmount [exSplit ''A'' 30 50, exSplit ''B'' 30 50])))"
proof -
  let ?sp = "[exSplit ''A'' 30 50, exSplit ''B'' 30 50]"
  have h1: "householdMain exStore ''m'' exMain" by (rule exStore_householdMain)
  have h2: "newSplitInfo (exPatch ?sp) = Some ?sp"
    "distinct (map splitUserId ?sp)"
    "distinct (map (\<lambda>kp. userId (snd kp)) (splitPortionsQuery (docs exStore) ''m''))"
    "dbReady exStore" "truthy (userId (exNew 100 ?sp))"
    "truthyOpt (householdId (exNew 100 ?sp))"
    "splitInfo (exNew 100 ?sp) = Some ?sp"
    by (simp_all add: ex_defs truthy_def truthyOpt_def splitPortionsQuery_def)
  note h = h1 h2
  have r: "round2 (sum_list (map splitAmount ?sp)) = 60"
    "round2 (amountOr (exPatch ?sp) exMain) = 100"
    by (simp_all add: ex_defs round2_def Math_round_def amountOr_def)
  have r0: "round2 (sum_list (map splitAmount ?sp)) \<noteq> 0" by (simp add: ex_defs round2_def Math_round_def)
  have c: "\<not> onHalfCent (sum_list (map splitAmount ?sp))"
    "\<not> onHalfCent (amountOr (exPatch ?sp) exMain)"
    "\<not> onHalfCent (amount (exNew 100 ?sp))"
    by (simp_all add: ex_defs onHalfCent_def amountOr_def)
  have ne: "?sp \<noteq> []" by simp
  have q: "splitPortionsQuery (docs exStore) ''m'' = [(''pa'', exPortion ''A'' 40), (''pb'', exPortion ''B'' 60)]"
    by (simp add: ex_defs splitPortionsQuery_def)
  have adj: "adjustedSplitInfo (amountOr (exPatch ?sp) exMain) ?sp
      = [exSplit ''A'' 50 50, exSplit ''B'' 50 50]"
    by (simp add: ex_defs adjustedSplitInfo_def amountOr_def totalSplitAmount_def orZero_def
        round2_def Math_round_def Let_def)
  have um: "map_option (\<lambda>d. map splitAmount (splitList (splitInfo d)))
        (getDoc (docs (updateTransaction exEnv ''m'' (exPatch ?sp) exStore)) ''m'') = Some [50, 50]"
    unfolding update_stored_amounts[OF h(1,2) ne] adj by (simp add: exSplit_def)
  have g: "getDoc (docs exStore) ''pa'' = Some (exPortion ''A'' 40)"
    "getDoc (docs exStore) ''pb'' = Some (exPortion ''B'' 60)"
    by (simp_all add: exStore_def getDoc_def)
  have ma: "exSplit ''A'' 50 50 \<in> set (adjustedSplitInfo (amountOr (exPatch ?sp) exMain) ?sp)"
    "exSplit ''B'' 50 50 \<in> set (adjustedSplitInfo (amountOr (exPatch ?sp) exMain) ?sp)"
    by (simp_all only: adj list.set insert_iff simp_thms)
  have mq: "(''pa'', exPortion ''A'' 40) \<in> set (splitPortionsQuery (docs exStore) ''m'')"
    "(''pb'', exPortion ''B'' 60) \<in> set (splitPortionsQuery (docs exStore) ''m'')"
    by (simp_all only: q list.set insert_iff simp_thms)
  have t: "truthy (splitUserId (exSplit ''A'' 50 50))" "splitUserId (exSplit ''A'' 50 50) \<noteq> userId exMain"
    "userId (exPortion ''A'' 40) = splitUserId (exSplit ''A'' 50 50)"
    "truthy (splitUserId (exSplit ''B'' 50 50))" "splitUserId (exSplit ''B'' 50 50) \<noteq> userId exMain"
    "userId (exPortion ''B'' 60) = splitUserId (exSplit ''B'' 50 50)"
    "splitAmount (exSplit ''A'' 50 50) = 50" "splitAmount (exSplit ''B'' 50 50) = 50"
    by (simp_all add: exSplit_def exPortion_def exMain_def truthy_def)
  have ua: "map_option amount
        (getDoc (docs (updateTransaction exEnv ''m'' (exPatch ?sp) exStore)) ''pa'') = Some 50"
    using update_existing_portion_amount[OF h(1,2) ne h(3,4) ma(1) t(1,2) mq(1) t(3), of exEnv]
    by (simp only: t)
  have ub: "map_option amount
        (getDoc (docs (updateTransaction exEnv ''m'' (exPatch ?sp) exStore)) ''pb'') = Some 50"
    using update_existing_portion_amount[OF h(1,2) ne h(3,4) ma(2) t(4,5) mq(2) t(6), of exEnv]
    by (simp only: t)
  have adj2: "adjustedSplitInfo (amount (exNew 100 ?sp)) ?sp
      = [exSplit ''A'' 50 50, exSplit ''B'' 50 50]"
    by (simp add: ex_defs adjustedSplitInfo_def totalSplitAmount_def orZero_def
        round2_def Math_round_def Let_def)
  have a: "map (\<lambda>(k, d). (userId d, amount d))
        (drop (Suc (length (docs exStore))) (docs (addTransaction exEnv (exNew 100 ?sp) exStore)))
      = [(''A'', 50), (''B'', 50)]"
    unfolding addTransaction_portions[OF h(5-8) ne] adj2
    by (simp add: exSplit_def exNew_def exMain_def truthy_def)
  have w: "wholeCents 50" "\<bar>50 - 30 * 100 / 60\<bar> \<le> (1 / 200 :: real)"
    by (simp_all add: wholeCents_def)
  from h r c um g ua ub a w manual_split_rescaling[OF h r0 c, where e = exEnv] show ?thesis by (intro conjI)
qed

text \<open>
  The claim as stated divides by the raw sum. For the shares 1.004 and 1 of a total of 100
  the raw sum is 2.004 and its rounding is 2: the code stores 50.2 and 50, and the claim's
  formula gives 50.1 and 49.9.
\<close>

theorem manual_split_rescaling_counterexample:
  "sum_list (map splitAmount [exSplit ''A'' (1004 / 1000) 50, exSplit ''B'' 1 50]) \<noteq> 0
   \<and> 1 / 100 < \<bar>round2 100
         - round2 (sum_list (map splitAmount [exSplit ''A'' (1004 / 1000) 50, exSplit ''B'' 1 50]))\<bar>
   \<and> map_option (\<lambda>d. map splitAmount (splitList (splitInfo d)))
        (getDoc (docs (updateTransaction exEnv ''m''
           (exPatch [exSplit ''A'' (1004 / 1000) 50, exSplit ''B'' 1 50]) exStore)) ''m'')
      \<noteq> Some (map (\<lambda>split. round2 (splitAmount split * 100
              / sum_list (map splitAmount [exSplit ''A'' (1004 / 1000) 50, exSplit ''B'' 1 50])))
        [exSplit ''A'' (1004 / 1000) 50, exSplit ''B'' 1 50])
   \<and> map_option (\<lambda>d. map splitAmount (splitList (splitInfo d)))
        (getDoc (docs (updateTransaction exEnv ''m''
           (exPatch [exSplit ''A'' (1004 / 1000) 50, exSplit ''B'' 1 50]) exStore)) ''m'')
      = Some [502 / 10, 50]
   \<and> map (\<lambda>split. round2 (splitAmount split * 100
              / sum_list (map splitAmount [exSplit ''A'' (1004 / 1000) 50, exSplit ''B'' 1 50])))
        [exSplit ''A'' (1004 / 1000) 50, exSplit ''B'' 1 50]
      = [501 / 10, 499 / 10]"
proof -
  let ?sp = "[exSplit ''A'' (1004 / 1000) 50, exSplit ''B'' 1 50]"
  have n: "newSplitInfo (exPatch ?sp) = Some ?sp" "?sp \<noteq> []" by (simp_all add: ex_defs)
  have a: "map splitAmount (adjustedSplitInfo (amountOr (exPatch ?sp) exMain) ?sp) = [502 / 10, 50]"
    by (simp add: adjustedSplitInfo_amounts ex_defs amountOr_def round2_def Math_round_def)
  have u: "map_option (\<lambda>d. map splitAmount (splitList (splitInfo d)))
        (getDoc (docs (updateTransaction exEnv ''m'' (exPatch ?sp) exStore)) ''m'') = Some [502 / 10, 50]"
    by (simp only: update_stored_amounts[OF exStore_householdMain n] a)
  have c: "map (\<lambda>split. round2 (splitAmount split * 100 / sum_list (map splitAmount ?sp))) ?sp
      = [501 / 10, 499 / 10]"
    by (simp add: ex_defs round2_def Math_round_def)
  have z: "sum_list (map splitAmount ?sp) \<noteq> 0" by (simp add: ex_defs)
  have g: "1 / 100 < \<bar>round2 100 - round2 (sum_list (map splitAmount ?sp))\<bar>"
    by (simp add: ex_defs round2_def Math_round_def)
  have ne: "map_option (\<lambda>d. map splitAmount (splitList (splitInfo d)))
        (getDoc (docs (updateTransaction exEnv ''m'' (exPatch ?sp) exStore)) ''m'')
      \<noteq> Some (map (\<lambda>split. round2 (splitAmount split * 100 / sum_list (map splitAmount ?sp))) ?sp)"
    unfolding u c by simp
  from z g ne u c show ?thesis by (intro conjI)
qed

section \<open>Manual split: a sum that rounds to zero\<close>

text \<open>
  Claim C7, amended. Take a non-empty split list that names each user once and whose sum
  rounds to 0 cents, a total whose rounding is more than one cent away from 0, and let
  neither the sum nor the total lie on a half cent. Then the divisor of the rescaling is
  taken as 1, so the ratio is the rounded total, not 1: \<^verbatim>\<open>updateTransaction\<close> stores in
  the main document one amount per share, each a whole number of cents within half a cent of
  \<open>amount * rounded total\<close>, and every share of a user with a non-empty id other than the
  owner has a split portion of the main transaction with that amount;
  \<^verbatim>\<open>addTransaction\<close> creates, in order, one portion for every such share whose amount so
  rescaled is positive. A share of 0.004 of a total of 100 is stored as 0.4.
\<close>

theorem zero_sum_divisor_one:
  assumes "householdMain s tid cur" and "newSplitInfo data = Some sp" and "sp \<noteq> []"
    and "distinct (map splitUserId sp)"
    and "distinct (map (\<lambda>kp. userId (snd kp)) (splitPortionsQuery (docs s) tid))"
    and "dbReady s2" and "truthy (userId t)" and "truthyOpt (householdId t)" and "splitInfo t = Some sp"
    and "round2 (sum_list (map splitAmount sp)) = 0"
    and "\<not> onHalfCent (sum_list (map splitAmount sp))"
    and "\<not> onHalfCent (amountOr data cur)" and "\<not> onHalfCent (amount t)"
    and "1 / 100 < \<bar>round2 (amountOr data cur)\<bar>" and "1 / 100 < \<bar>round2 (amount t)\<bar>"
  shows "\<exists>st st2.
      map_option (\<lambda>d. map splitAmount (splitList (splitInfo d)))
          (getDoc (docs (updateTransaction e tid data s)) tid) = Some st
    \<and> list_all2 (\<lambda>split a. truthy (splitUserId split) \<and> splitUserId split \<noteq> userId cur
           \<longrightarrow> (\<exists>k d. getDoc (docs (updateTransaction e tid data s)) k = Some d
                  \<and> userId d = splitUserId split \<and> mainTransactionId d = Some tid
                  \<and> isSplitPortion d \<and> amount d = a)) sp st
    \<and> list_all2 (\<lambda>a x. wholeCents a \<and> \<bar>a - x * round2 (amountOr data cur)\<bar> \<le> 1 / 200)
          st (map splitAmount sp)
    \<and> length st2 = length sp
    \<and> map (\<lambda>(k, d). (userId d, amount d))
          (drop (Suc (length (docs s2))) (docs (addTransaction e t s2)))
        = filter (\<lambda>(u, a). truthy u \<and> u \<noteq> userId t \<and> a > 0) (zip (map splitUserId sp) st2)
    \<and> list_all2 (\<lambda>a x. wholeCents a \<and> \<bar>a - x * round2 (amount t)\<bar> \<le> 1 / 200)
          st2 (map splitAmount sp)"
proof -
  let ?st = "map splitAmount (adjustedSplitInfo (amountOr data cur) sp)"
  let ?st2 = "map splitAmount (adjustedSplitInfo (amount t) sp)"
  note u = update_carries_adjusted[OF assms(1,2,3,4,5), of e]
  have l: "length ?st2 = length sp"
    using arg_cong[OF adjustedSplitInfo_userIds[of "amount t" sp], of length] by simp
  have "map_option (\<lambda>d. map splitAmount (splitList (splitInfo d)))
          (getDoc (docs (updateTransaction e tid data s)) tid) = Some ?st
    \<and> list_all2 (\<lambda>split a. truthy (splitUserId split) \<and> splitUserId split \<noteq> userId cur
           \<longrightarrow> (\<exists>k d. getDoc (docs (updateTransaction e tid data s)) k = Some d
                  \<and> userId d = splitUserId split \<and> mainTransactionId d = Some tid
                  \<and> isSplitPortion d \<and> amount d = a)) sp ?st
    \<and> list_all2 (\<lambda>a x. wholeCents a \<and> \<bar>a - x * round2 (amountOr data cur)\<bar> \<le> 1 / 200)
          ?st (map splitAmount sp)
    \<and> length ?st2 = length sp
    \<and> map (\<lambda>(k, d). (userId d, amount d))
          (drop (Suc (length (docs s2))) (docs (addTransaction e t s2)))
        = filter (\<lambda>(u, a). truthy u \<and> u \<noteq> userId t \<and> a > 0) (zip (map splitUserId sp) ?st2)
    \<and> list_all2 (\<lambda>a x. wholeCents a \<and> \<bar>a - x * round2 (amount t)\<bar> \<le> 1 / 200)
          ?st2 (map splitAmount sp)"
  proof (intro conjI)
    show "map_option (\<lambda>d. map splitAmount (splitList (splitInfo d)))
          (getDoc (docs (updateTransaction e tid data s)) tid) = Some ?st"
      by (rule u[THEN conjunct1])
    show "list_all2 (\<lambda>split a. truthy (splitUserId split) \<and> splitUserId split \<noteq> userId cur
           \<longrightarrow> (\<exists>k d. getDoc (docs (updateTransaction e tid data s)) k = Some d
                  \<and> userId d = splitUserId split \<and> mainTransactionId d = Some tid
                  \<and> isSplitPortion d \<and> amount d = a)) sp ?st"
      by (rule u[THEN conjunct2])
    show "length ?st2 = length sp" by (rule l)
    show "map (\<lambda>(k, d). (userId d, amount d))
          (drop (Suc (length (docs s2))) (docs (addTransaction e t s2)))
        = filter (\<lambda>(u, a). truthy u \<and> u \<noteq> userId t \<and> a > 0) (zip (map splitUserId sp) ?st2)"
      by (rule addTransaction_portions[OF assms(6-9) assms(3)])
    show "list_all2 (\<lambda>a x. wholeCents a \<and> \<bar>a - x * round2 (amountOr data cur)\<bar> \<le> 1 / 200)
          ?st (map splitAmount sp)"
      using assms(14,10) by (rule adjusted_divisor_one)
    show "list_all2 (\<lambda>a x. wholeCents a \<and> \<bar>a - x * round2 (amount t)\<bar> \<le> 1 / 200)
          ?st2 (map splitAmount sp)"
      using assms(15,10) by (rule adjusted_divisor_one)
  qed
  then show ?thesis by blast
qed

theorem zero_sum_divisor_one_witness:
  "householdMain exStore ''m'' exMain
   \<and> newSplitInfo (exPatch [exSplit ''B'' (4 / 1000) 100]) = Some [exSplit ''B'' (4 / 1000) 100]
   \<and> [exSplit ''B'' (4 / 1000) 100] \<noteq> []
   \<and> distinct (map splitUserId [exSplit ''B'' (4 / 1000) 100])
   \<and> distinct (map (\<lambda>kp. userId (snd kp)) (splitPortionsQuery (docs exStore) ''m''))
   \<and> dbReady exStore \<and> truthy (userId (exNew 100 [exSplit ''B'' (4 / 1000) 100]))
   \<and> truthyOpt (householdId (exNew 100 [exSplit ''B'' (4 / 1000) 100]))
   \<and> splitInfo (exNew 100 [exSplit ''B'' (4 / 1000) 100]) = Some [exSplit ''B'' (4 / 1000) 100]
   \<and> round2 (sum_list (map splitAmount [exSplit ''B'' (4 / 1000) 100])) = 0
   \<and> \<not> onHalfCent (sum_list (map splitAmount [exSplit ''B'' (4 / 1000) 100]))
   \<and> \<not> onHalfCent (amountOr (exPatch [exSplit ''B'' (4 / 1000) 100]) exMain)
   \<and> \<not> onHalfCent (amount (exNew 100 [exSplit ''B'' (4 / 1000) 100]))
   \<and> 1 / 100 < \<bar>round2 (amountOr (exPatch [exSplit ''B'' (4 / 1000) 100]) exMain)\<bar>
   \<and> 1 / 100 < \<bar>round2 (amount (exNew 100 [exSplit ''B'' (4 / 1000) 100]))\<bar>
   \<and> round2 (amountOr (exPatch [exSplit ''B'' (4 / 1000) 100]) exMain) = 100
   \<and> map_option (\<lambda>d. map splitAmount (splitList (splitInfo d)))
        (getDoc (docs (updateTransaction exEnv ''m'' (exPatch [exSplit ''B'' (4 / 1000) 100]) exStore)) ''m'')
      = Some [4 / 10]
   \<and> getDoc (docs exStore) ''pb'' = Some (exPortion ''B'' 60)
   \<and> map_option amount
        (getDoc (docs (updateTransaction exEnv ''m'' (exPatch [exSplit ''B'' (4 / 1000) 100]) exStore)) ''pb'')
      = Some (4 / 10)
   \<and> map (\<lambda>(k, d). (userId d, amount d))
        (drop (Suc (length (docs exStore)))
           (docs (addTransaction exEnv (exNew 100 [exSplit ''B'' (4 / 1000) 100]) exStore)))
      = [(''B'', 4 / 10)]
   \<and> wholeCents (4 / 10) \<and> \<bar>4 / 10 - 4 / 1000 * 100\<bar> \<le> (1 / 200 :: real)
   \<and> (\<exists>st st2.
      map_option (\<lambda>d. map splitAmount (splitList (splitInfo d)))
          (getDoc (docs (updateTransaction exEnv ''m'' (exPatch [exSplit ''B'' (4 / 1000) 100]) exStore)) ''m'') = Some st
    \<and> list_all2 (\<lambda>split a. truthy (splitUserId split) \<and> splitUserId split \<noteq> userId exMain
           \<longrightarrow> (\<exists>k d. getDoc (docs (updateTransaction exEnv ''m'' (exPatch [exSplit ''B'' (4 / 1000) 100]) exStore)) k = Some d
                  \<and> userId d = splitUserId split \<and> mainTransactionId d = Some ''m''
                  \<and> isSplitPortion d \<and> amount d = a)) [exSplit ''B'' (4 / 1000) 100] st
    \<and> list_all2 (\<lambda>a x. wholeCents a \<and> \<bar>a - x * round2 (amountOr (exPatch [exSplit ''B'' (4 / 1000) 100]) exMain)\<bar> \<le> 1 / 200)
          st (map splitAmount [exSplit ''B'' (4 / 1000) 100])
    \<and> length st2 = length [exSplit ''B'' (4 / 1000) 100]
    \<and> map (\<lambda>(k, d). (userId d, amount d))
          (drop (Suc (length (docs exStore))) (docs (addTransaction exEnv (exNew 100 [exSplit ''B'' (4 / 1000) 100]) exStore)))
        = filter (\<lambda>(u, a). truthy u \<and> u \<noteq> userId (exNew 100 [exSplit ''B'' (4 / 1000) 100]) \<and> a > 0)
            (zip (map splitUserId [exSplit ''B'' (4 / 1000) 100]) st2)
    \<and> list_all2 (\<lambda>a x. wholeCents a \<and> \<bar>a - x * round2 (amount (exNew 100 [exSplit ''B'' (4 / 1000) 100]))\<bar> \<le> 1 / 200)
          st2 (map splitAmount [exSplit ''B'' (4 / 1000) 100]))"
proof -
  let ?sp = "[exSplit ''B'' (4 / 1000) 100]"
  have h1: "householdMain exStore ''m'' exMain" by (rule exStore_householdMain)
  have h2: "newSplitInfo (exPatch ?sp) = Some ?sp" "?sp \<noteq> []"
    "distinct (map splitUserId ?sp)"
    "distinct (map (\<lambda>kp. userId (snd kp)) (splitPortionsQuery (docs exStore) ''m''))"
    "dbReady exStore" "truthy (userId (exNew 100 ?sp))"
    "truthyOpt (householdId (exNew 100 ?sp))"
    "splitInfo (exNew 100 ?sp) = Some ?sp"
    by (simp_all add: ex_defs truthy_def truthyOpt_def splitPortionsQuery_def)
  note h = h1 h2
  have r: "round2 (sum_list (map splitAmount ?sp)) = 0"
    by (simp add: ex_defs round2_def Math_round_def)
  have c: "\<not> onHalfCent (sum_list (map splitAmount ?sp))"
    "\<not> onHalfCent (amountOr (exPatch ?sp) exMain)"
    "\<not> onHalfCent (amount (exNew 100 ?sp))"
    by (simp_all add: ex_defs onHalfCent_def amountOr_def)
  have b: "1 / 100 < \<bar>round2 (amountOr (exPatch ?sp) exMain)\<bar>"
    "1 / 100 < \<bar>round2 (amount (exNew 100 ?sp))\<bar>"
    by (simp_all add: ex_defs round2_def Math_round_def amountOr_def)
  have r2: "round2 (amountOr (exPatch ?sp) exMain) = 100"
    by (simp add: ex_defs round2_def Math_round_def amountOr_def)
  have q: "splitPortionsQuery (docs exStore) ''m'' = [(''pa'', exPortion ''A'' 40), (''pb'', exPortion ''B'' 60)]"
    by (simp add: ex_defs splitPortionsQuery_def)
  have adj: "adjustedSplitInfo (amountOr (exPatch ?sp) exMain) ?sp = [exSplit ''B'' (4 / 10) 100]"
    by (simp add: ex_defs adjustedSplitInfo_def amountOr_def totalSplitAmount_def orZero_def
        round2_def Math_round_def Let_def)
  have um: "map_option (\<lambda>d. map splitAmount (splitList (splitInfo d)))
        (getDoc (docs (updateTransaction exEnv ''m'' (exPatch ?sp) exStore)) ''m'') = Some [4 / 10]"
    unfolding update_stored_amounts[OF h(1,2,3)] adj by (simp add: exSplit_def)
  have g: "getDoc (docs exStore) ''pb'' = Some (exPortion ''B'' 60)"
    by (simp add: exStore_def getDoc_def)
  have ma: "exSplit ''B'' (4 / 10) 100 \<in> set (adjustedSplitInfo (amountOr (exPatch ?sp) exMain) ?sp)"
    by (simp only: adj list.set insert_iff simp_thms)
  have mq: "(''pb'', exPortion ''B'' 60) \<in> set (splitPortionsQuery (docs exStore) ''m'')"
    by (simp only: q list.set insert_iff simp_thms)
  have t: "truthy (splitUserId (exSplit ''B'' (4 / 10) 100))"
    "splitUserId (exSplit ''B'' (4 / 10) 100) \<noteq> userId exMain"
    "userId (exPortion ''B'' 60) = splitUserId (exSplit ''B'' (4 / 10) 100)"
    "splitAmount (exSplit ''B'' (4 / 10) 100) = 4 / 10"
    by (simp_all add: exSplit_def exPortion_def exMain_def truthy_def)
  have ub: "map_option amount
        (getDoc (docs (updateTransaction exEnv ''m'' (exPatch ?sp) exStore)) ''pb'') = Some (4 / 10)"
    using update_existing_portion_amount[OF h(1,2,3,4,5) ma t(1,2) mq t(3), of exEnv]
    by (simp only: t)
  have adj2: "adjustedSplitInfo (amount (exNew 100 ?sp)) ?sp = [exSplit ''B'' (4 / 10) 100]"
    by (simp add: ex_defs adjustedSplitInfo_def totalSplitAmount_def orZero_def
        round2_def Math_round_def Let_def)
  have a: "map (\<lambda>(k, d). (userId d, amount d))
        (drop (Suc (length (docs exStore))) (docs (addTransaction exEnv (exNew 100 ?sp) exStore)))
      = [(''B'', 4 / 10)]"
    unfolding addTransaction_portions[OF h(6-9) h(3)] adj2
    by (simp add: exSplit_def exNew_def exMain_def truthy_def)
  have w: "wholeCents (4 / 10)" "\<bar>4 / 10 - 4 / 1000 * 100\<bar> \<le> (1 / 200 :: real)"
    by (simp_all add: wholeCents_def)
  from h r c b r2 um g ub a w zero_sum_divisor_one[OF h r c b, where e = exEnv] show ?thesis by (intro conjI)
qed

text \<open>
  The claim as stated takes the ratio as 1. For the shares 5 and -5 of a total of 100 the
  raw sum is 0, and the code stores 500 and -500, not 5 and -5.
\<close>

theorem zero_sum_counterexample:
  "sum_list (map splitAmount [exSplit ''A'' 5 50, exSplit ''B'' (- 5) 50]) = 0
   \<and> 1 / 100 < \<bar>amount exMain
         - sum_list (map splitAmount [exSplit ''A'' 5 50, exSplit ''B'' (- 5) 50])\<bar>
   \<and> map_option (\<lambda>d. map splitAmount (splitList (splitInfo d)))
        (getDoc (docs (updateTransaction exEnv ''m''
           (exPatch [exSplit ''A'' 5 50, exSplit ''B'' (- 5) 50]) exStore)) ''m'')
      \<noteq> Some (map splitAmount [exSplit ''A'' 5 50, exSplit ''B'' (- 5) 50])
   \<and> map_option (\<lambda>d. map splitAmount (splitList (splitInfo d)))
        (getDoc (docs (updateTransaction exEnv ''m''
           (exPatch [exSplit ''A'' 5 50, exSplit ''B'' (- 5) 50]) exStore)) ''m'')
      = Some [500, - 500]
   \<and> map splitAmount [exSplit ''A'' 5 50, exSplit ''B'' (- 5) 50] = [5, - 5]"
proof -
  let ?sp = "[exSplit ''A'' 5 50, exSplit ''B'' (- 5) 50]"
  have n: "newSplitInfo (exPatch ?sp) = Some ?sp" "?sp \<noteq> []" by (simp_all add: ex_defs)
  have a: "map splitAmount (adjustedSplitInfo (amountOr (exPatch ?sp) exMain) ?sp) = [500, - 500]"
    by (simp add: adjustedSplitInfo_amounts ex_defs amountOr_def round2_def Math_round_def)
  have u: "map_option (\<lambda>d. map splitAmount (splitList (splitInfo d)))
        (getDoc (docs (updateTransaction exEnv ''m'' (exPatch ?sp) exStore)) ''m'') = Some [500, - 500]"
    by (simp only: update_stored_amounts[OF exStore_householdMain n] a)
  have c: "map splitAmount ?sp = [5, - 5]" by (simp add: ex_defs)
  have z: "sum_list (map splitAmount ?sp) = 0" by (simp add: ex_defs)
  have g: "1 / 100 < \<bar>amount exMain - sum_list (map splitAmount ?sp)\<bar>" by (simp add: ex_defs)
  have ne: "map_option (\<lambda>d. map splitAmount (splitList (splitInfo d)))
        (getDoc (docs (updateTransaction exEnv ''m'' (exPatch ?sp) exStore)) ''m'')
      \<noteq> Some (map splitAmount ?sp)"
    unfolding u c by simp
  from z g ne u c show ?thesis by (intro conjI)
qed

section \<open>Equal split in the form\<close>

lemma createSplitMembers_map:
  "hm \<noteq> [] \<Longrightarrow> createSplitMembers hm T =
     map (\<lambda>(mid, name). \<lparr>memberId = mid, memberName = name,
            memberAmount = toFixed2 (T / real (length hm)),
            memberPercentage = toFixed2 (100 / real (length hm))\<rparr>) hm"
  by (simp add: createSplitMembers_def Let_def)

text \<open>
  Claim C8, amended. For a household of \<open>N \<ge> 1\<close> members and a total \<open>T\<close>,
  \<^verbatim>\<open>createSplitMembers\<close> returns one row per member, in order, and every row has one and
  the same amount and one and the same percentage: the amount \<^verbatim>\<open>(T / N).toFixed(2)\<close> is a
  whole number of cents within half a cent of \<open>T / N\<close>, the percentage a whole number of
  hundredths within half a hundredth of \<open>100 / N\<close>, and the amounts sum to within
  \<open>0.005 * N\<close> of \<open>T\<close> (so within one cent for at most two members).
\<close>

theorem createSplitMembers_equal_split:
  assumes "hm \<noteq> []"
  shows "\<exists>a p. map memberId (createSplitMembers hm T) = map fst hm
      \<and> map memberAmount (createSplitMembers hm T) = replicate (length hm) a
      \<and> map memberPercentage (createSplitMembers hm T) = replicate (length hm) p
      \<and> wholeCents a \<and> \<bar>a - T / real (length hm)\<bar> \<le> 1 / 200
      \<and> wholeCents p \<and> \<bar>p - 100 / real (length hm)\<bar> \<le> 1 / 200
      \<and> \<bar>sum_list (map memberAmount (createSplitMembers hm T)) - T\<bar> \<le> real (length hm) / 200"
proof -
  let ?n = "real (length hm)"
  let ?a = "toFixed2 (T / ?n)"
  let ?p = "toFixed2 (100 / ?n)"
  have n: "0 < ?n" using assms by simp
  have i: "map memberId (createSplitMembers hm T) = map fst hm"
    using assms by (simp add: createSplitMembers_map o_def split_def)
  have m: "map memberAmount (createSplitMembers hm T) = replicate (length hm) ?a"
    using assms by (simp add: createSplitMembers_map o_def split_def map_replicate_const)
  have q: "map memberPercentage (createSplitMembers hm T) = replicate (length hm) ?p"
    using assms by (simp add: createSplitMembers_map o_def split_def map_replicate_const)
  have "sum_list (replicate (length hm) ?a) = ?n * ?a" by (simp add: sum_list_replicate)
  moreover have "?n * ?a - T = ?n * (?a - T / ?n)" using n by (simp add: right_diff_distrib)
  ultimately have "\<bar>sum_list (map memberAmount (createSplitMembers hm T)) - T\<bar> = ?n * \<bar>?a - T / ?n\<bar>"
    using n by (simp only: m abs_mult abs_of_pos)
  also have "\<dots> \<le> ?n * (1 / 200)" using toFixed2_abs[of "T / ?n"] n by (intro mult_left_mono) simp_all
  finally have s: "\<bar>sum_list (map memberAmount (createSplitMembers hm T)) - T\<bar> \<le> ?n / 200" by simp
  from i m q wholeCents_toFixed2[of "T / ?n"] toFixed2_abs[of "T / ?n"]
    wholeCents_toFixed2[of "100 / ?n"] toFixed2_abs[of "100 / ?n"] s
  show ?thesis by blast
qed

theorem createSplitMembers_equal_split_witness:
  "six \<noteq> []
    \<and> map memberAmount (createSplitMembers six 100) = replicate 6 (1667 / 100)
    \<and> map memberPercentage (createSplitMembers six 100) = replicate 6 (1667 / 100)
    \<and> wholeCents (1667 / 100) \<and> \<bar>1667 / 100 - 100 / 6\<bar> \<le> (1 / 200 :: real)
    \<and> (\<exists>a p. map memberId (createSplitMembers six 100) = map fst six
      \<and> map memberAmount (createSplitMembers six 100) = replicate (length six) a
      \<and> map memberPercentage (createSplitMembers six 100) = replicate (length six) p
      \<and> wholeCents a \<and> \<bar>a - 100 / real (length six)\<bar> \<le> 1 / 200
      \<and> wholeCents p \<and> \<bar>p - 100 / real (length six)\<bar> \<le> 1 / 200
      \<and> \<bar>sum_list (map memberAmount (createSplitMembers six 100)) - 100\<bar> \<le> real (length six) / 200)"
proof -
  have h: "six \<noteq> []" by (simp add: six_def)
  have m: "map memberAmount (createSplitMembers six 100) = replicate 6 (1667 / 100)"
    "map memberPercentage (createSplitMembers six 100) = replicate 6 (1667 / 100)"
    by (simp_all add: six_def createSplitMembers_def toFixed2_def Let_def numeral_eq_Suc)
  have w: "wholeCents (1667 / 100)" "\<bar>1667 / 100 - 100 / 6\<bar> \<le> (1 / 200 :: real)"
    by (simp_all add: wholeCents_def)
  from h m w createSplitMembers_equal_split[OF h, of 100] show ?thesis by (intro conjI)
qed

text \<open>
  The claim as stated fails: six members sharing 100 get 16.67 each, which sums to
  100.02; and for a negative total on a tie (\<open>-0.01\<close> between two members)
  \<^verbatim>\<open>toFixed(2)\<close> gives \<open>-0.01\<close> where \<open>round2\<close> gives 0.
\<close>

theorem createSplitMembers_sum_counterexample:
  "\<not> \<bar>sum_list (map memberAmount (createSplitMembers six 100)) - 100\<bar> \<le> 1 / 100
   \<and> (\<exists>m \<in> set (createSplitMembers [(''u1'', ''You''), (''u2'', ''u2'')] (- (1 / 100))).
         memberAmount m \<noteq> round2 (- (1 / 100) / 2))"
  by (simp add: six_def createSplitMembers_def toFixed2_def round2_def Math_round_def Let_def)

section \<open>A missing transaction\<close>

text \<open>
  Claim C9, amended. When no document has the given id, \<^verbatim>\<open>updateTransaction\<close> and
  \<^verbatim>\<open>deleteTransaction\<close> write nothing and the collection is exactly as before. An error
  is thrown inside the operation and caught there: the \<^verbatim>\<open>error\<close> field of the store is
  set to \<open>Failed to update transaction\<close> or \<open>Failed to delete transaction\<close>, and the
  promise returned to the caller is fulfilled, not rejected.
\<close>

theorem missing_transaction_no_writes:
  assumes "getDoc (docs s) tid = None"
  shows "docs (updateTransaction e tid data s) = docs s
       \<and> error (updateTransaction e tid data s) = Some ''Failed to update transaction''
       \<and> updateTransaction_thrown e tid data s \<noteq> None
       \<and> updateTransaction_promise e tid data s = Fulfilled
       \<and> docs (deleteTransaction tid s) = docs s
       \<and> error (deleteTransaction tid s) = Some ''Failed to delete transaction''
       \<and> deleteTransaction_thrown tid s \<noteq> None
       \<and> deleteTransaction_promise tid s = Fulfilled"
  using assms
  by (simp add: updateTransaction_def deleteTransaction_def Let_def
      updateTransaction_thrown_def deleteTransaction_thrown_def
      updateTransaction_promise_def deleteTransaction_promise_def)

theorem missing_transaction_no_writes_witness:
  "getDoc (docs exStore) ''zz'' = None
   \<and> docs (updateTransaction exEnv ''zz'' (exPatch [exSplit ''B'' 70 70]) exStore) = docs exStore
   \<and> error (updateTransaction exEnv ''zz'' (exPatch [exSplit ''B'' 70 70]) exStore)
       = Some ''Failed to update transaction''
   \<and> updateTransaction_thrown exEnv ''zz'' (exPatch [exSplit ''B'' 70 70]) exStore \<noteq> None
   \<and> updateTransaction_promise exEnv ''zz'' (exPatch [exSplit ''B'' 70 70]) exStore = Fulfilled
   \<and> docs (deleteTransaction ''zz'' exStore) = docs exStore
   \<and> error (deleteTransaction ''zz'' exStore) = Some ''Failed to delete transaction''
   \<and> deleteTransaction_thrown ''zz'' exStore \<noteq> None
   \<and> deleteTransaction_promise ''zz'' exStore = Fulfilled"
proof -
  have h: "getDoc (docs exStore) ''zz'' = None"
    by (simp add: exStore_def getDoc_def)
  show ?thesis
    using h missing_transaction_no_writes[OF h, of exEnv "exPatch [exSplit ''B'' 70 70]"] by simp
qed

text \<open>
  The claim as stated says that the operation reports the failure to the caller. For the
  id \<open>zz\<close>, which the example store does not hold, the error \<open>Transaction not found\<close> is
  thrown and the promise of either operation is fulfilled: a caller that awaits it, as
  \<^verbatim>\<open>onSubmit\<close> of the form does before it closes the dialogue, sees no failure.
\<close>

theorem missing_transaction_promise_counterexample:
  "getDoc (docs exStore) ''zz'' = None
   \<and> updateTransaction_thrown exEnv ''zz'' (exPatch [exSplit ''B'' 70 70]) exStore
       = Some ''Transaction not found''
   \<and> updateTransaction_promise exEnv ''zz'' (exPatch [exSplit ''B'' 70 70]) exStore = Fulfilled
   \<and> (\<forall>msg. updateTransaction_promise exEnv ''zz'' (exPatch [exSplit ''B'' 70 70]) exStore
          \<noteq> Rejected msg)
   \<and> deleteTransaction_thrown ''zz'' exStore = Some ''Transaction not found''
   \<and> deleteTransaction_promise ''zz'' exStore = Fulfilled
   \<and> (\<forall>msg. deleteTransaction_promise ''zz'' exStore \<noteq> Rejected msg)"
  by (simp add: exStore_def getDoc_def truthy_def
      updateTransaction_thrown_def deleteTransaction_thrown_def
      updateTransaction_promise_def deleteTransaction_promise_def)

section \<open>Deleting a split portion directly\<close>

text \<open>
  Claim C10. \<^verbatim>\<open>deleteTransaction\<close> on the id of a split portion (flag set, no split
  list of its own) succeeds and removes the documents with that id and nothing else:
  every other id, the main transaction and the sibling portions among them, reads as before.
\<close>

theorem delete_split_portion_only:
  assumes "dbReady s" and "truthy tid" and "getDoc (docs s) tid = Some p"
    and "isSplitPortion p" and "splitInfo p = None"
  shows "docs (deleteTransaction tid s) = filter (\<lambda>(k, d). k \<noteq> tid) (docs s)
       \<and> (\<forall>k. getDoc (docs (deleteTransaction tid s)) k = (if k = tid then None else getDoc (docs s) k))
       \<and> error (deleteTransaction tid s) = None"
  using assms
  by (simp add: deleteTransaction_def Let_def splitList_def getDoc_def map_of_deleteDoc)
     (simp add: deleteDoc_def)

theorem delete_split_portion_only_witness:
  "dbReady exStore \<and> truthy ''pa'' \<and> getDoc (docs exStore) ''pa'' = Some (exPortion ''A'' 40)
   \<and> isSplitPortion (exPortion ''A'' 40) \<and> splitInfo (exPortion ''A'' 40) = None
   \<and> docs (deleteTransaction ''pa'' exStore) = [(''m'', exMain), (''pb'', exPortion ''B'' 60)]
   \<and> getDoc (docs (deleteTransaction ''pa'' exStore)) ''m'' = Some exMain
   \<and> error (deleteTransaction ''pa'' exStore) = None"
proof -
  have h: "dbReady exStore" "truthy ''pa''" "getDoc (docs exStore) ''pa'' = Some (exPortion ''A'' 40)"
    "isSplitPortion (exPortion ''A'' 40)" "splitInfo (exPortion ''A'' 40) = None"
    by (simp_all add: exStore_def truthy_def getDoc_def exPortion_def)
  have d: "docs exStore = [(''m'', exMain), (''pa'', exPortion ''A'' 40), (''pb'', exPortion ''B'' 60)]"
    by (simp add: exStore_def)
  show ?thesis
    using h delete_split_portion_only[OF h] by (simp add: d getDoc_def)
qed

end
